theory Spec2Isabelle
  imports Main "HOL-Library.Word" "HOL-Library.Signed_Division" "HOL-Library.Multiset"
begin

section \<open>Failure values shared by the models\<close>

text \<open>
  \<^verbatim>\<open>UNREACHABLE()\<close>, \<^verbatim>\<open>FATAL(...)\<close> and a failed \<^verbatim>\<open>DCHECK\<close> abort the
  compilation. They are values of the type \<open>fatal\<close>, returned on the left of a sum.
\<close>

datatype fatal = Unreachable | BadOperand | DCheckFailed | Fatal

definition bindE :: "fatal + 'a \<Rightarrow> ('a \<Rightarrow> fatal + 'b) \<Rightarrow> fatal + 'b" where
  "bindE m f = (case m of Inl e \<Rightarrow> Inl e | Inr x \<Rightarrow> f x)"

section \<open>Operand resolver: \<^verbatim>\<open>X64OperandConverter\<close> (code-generator-x64.cc)\<close>

text \<open>
  The enumeration \<^verbatim>\<open>AddressingMode\<close> is declared in instruction-codes-x64.h, which is
  not among the sources at hand: \<^verbatim>\<open>kMode_None\<close> first, then the modes of
  \<^verbatim>\<open>TARGET_ADDRESSING_MODE_LIST\<close> in the order in which the \<^verbatim>\<open>switch\<close> of
  \<^verbatim>\<open>MemoryOperand\<close> lists them. \<open>mode_index\<close> is the enumerator's integer value.
\<close>

datatype AddressingMode =
    kMode_None
  | kMode_MR | kMode_MRI
  | kMode_MR1 | kMode_MR2 | kMode_MR4 | kMode_MR8
  | kMode_MR1I | kMode_MR2I | kMode_MR4I | kMode_MR8I
  | kMode_M1 | kMode_M2 | kMode_M4 | kMode_M8
  | kMode_M1I | kMode_M2I | kMode_M4I | kMode_M8I
  | kMode_Root | kMode_MCR | kMode_MCRI

fun mode_index :: "AddressingMode \<Rightarrow> int" where
  "mode_index kMode_None = 0"
| "mode_index kMode_MR = 1"
| "mode_index kMode_MRI = 2"
| "mode_index kMode_MR1 = 3"
| "mode_index kMode_MR2 = 4"
| "mode_index kMode_MR4 = 5"
| "mode_index kMode_MR8 = 6"
| "mode_index kMode_MR1I = 7"
| "mode_index kMode_MR2I = 8"
| "mode_index kMode_MR4I = 9"
| "mode_index kMode_MR8I = 10"
| "mode_index kMode_M1 = 11"
| "mode_index kMode_M2 = 12"
| "mode_index kMode_M4 = 13"
| "mode_index kMode_M8 = 14"
| "mode_index kMode_M1I = 15"
| "mode_index kMode_M2I = 16"
| "mode_index kMode_M4I = 17"
| "mode_index kMode_M8I = 18"
| "mode_index kMode_Root = 19"
| "mode_index kMode_MCR = 20"
| "mode_index kMode_MCRI = 21"

text \<open>
  \<^verbatim>\<open>ScaleFactor\<close>: the \<^verbatim>\<open>static_assert\<close>s of \<^verbatim>\<open>ScaleFor\<close> fix
  \<^verbatim>\<open>times_1 = 0\<close>, \<^verbatim>\<open>times_2 = 1\<close>, \<^verbatim>\<open>times_4 = 2\<close>, \<^verbatim>\<open>times_8 = 3\<close>.
\<close>

datatype ScaleFactor = times_1 | times_2 | times_4 | times_8

fun scale_multiplier :: "ScaleFactor \<Rightarrow> nat" where
  "scale_multiplier times_1 = 1"
| "scale_multiplier times_2 = 2"
| "scale_multiplier times_4 = 4"
| "scale_multiplier times_8 = 8"

definition ScaleFactor_cast :: "int \<Rightarrow> fatal + ScaleFactor" where
  "ScaleFactor_cast scale =
     (if scale = 0 then Inr times_1
      else if scale = 1 then Inr times_2
      else if scale = 2 then Inr times_4
      else if scale = 3 then Inr times_8
      else Inl DCheckFailed)"

definition ScaleFor :: "AddressingMode \<Rightarrow> AddressingMode \<Rightarrow> fatal + ScaleFactor" where
  "ScaleFor one mode = ScaleFactor_cast (mode_index mode - mode_index one)"

text \<open>
  An instruction, as far as \<^verbatim>\<open>MemoryOperand\<close> reads it: the addressing mode decoded
  from the opcode and the ordered input operands. Registers are their codes, an
  immediate is the 32-bit displacement it stands for.
\<close>

datatype InstructionOperand =
    RegisterOperand nat
  | ImmediateOperand int
  | StackSlotOperand int

record Instruction =
  addressing_mode :: AddressingMode
  inputs :: "InstructionOperand list"

text \<open>
  Modelled from the spec: \<^verbatim>\<open>InstructionOperandConverter::InputRegister\<close> and
  \<^verbatim>\<open>InputInt32\<close> (code-generator-impl.h) are not among the sources. They read the
  input at an index; an index past the operand list or an operand of the wrong kind
  is the upstream contract violation of the spec, a fatal failure.
\<close>

definition InputRegister :: "Instruction \<Rightarrow> nat \<Rightarrow> fatal + nat" where
  "InputRegister instr i =
     (if i < length (inputs instr)
      then (case inputs instr ! i of RegisterOperand r \<Rightarrow> Inr r | _ \<Rightarrow> Inl BadOperand)
      else Inl BadOperand)"

definition InputInt32 :: "Instruction \<Rightarrow> nat \<Rightarrow> fatal + int" where
  "InputInt32 instr i =
     (if i < length (inputs instr)
      then (case inputs instr ! i of ImmediateOperand k \<Rightarrow> Inr k | _ \<Rightarrow> Inl BadOperand)
      else Inl BadOperand)"

text \<open>
  The three constructors of the assembler's \<^verbatim>\<open>Operand\<close> that \<^verbatim>\<open>MemoryOperand\<close>
  uses: \<^verbatim>\<open>Operand(base, disp)\<close>, \<^verbatim>\<open>Operand(base, index, scale, disp)\<close> and
  \<^verbatim>\<open>Operand(index, scale, disp)\<close>.
\<close>

datatype Operand =
    Operand_base_disp nat int
  | Operand_base_index nat nat ScaleFactor int
  | Operand_index nat ScaleFactor int

text \<open>
  \<^verbatim>\<open>MemoryOperand(size_t* offset)\<close>. The cursor \<^verbatim>\<open>*offset\<close> is passed in and the
  advanced cursor is returned with the operand; \<^verbatim>\<open>NextOffset\<close> returns the cursor
  and increments it, so the reads below are at \<open>off\<close>, \<open>off + 1\<close>, \<open>off + 2\<close>. The
  instruction is an argument only: nothing of it is returned, as the source never
  writes through \<^verbatim>\<open>instr_\<close>. The fixed registers \<^verbatim>\<open>kRootRegister\<close> and
  \<^verbatim>\<open>kPtrComprCageBaseRegister\<close> are constants of a header not at hand and are
  parameters here.
\<close>

definition MemoryOperand ::
  "nat \<Rightarrow> nat \<Rightarrow> Instruction \<Rightarrow> nat \<Rightarrow> fatal + (Operand \<times> nat)" where
  "MemoryOperand kRootRegister kPtrComprCageBaseRegister instr off =
     (let mode = addressing_mode instr in
      if mode = kMode_MR then
        bindE (InputRegister instr off) (\<lambda>base.
        Inr (Operand_base_disp base 0, off + 1))
      else if mode = kMode_MRI then
        bindE (InputRegister instr off) (\<lambda>base.
        bindE (InputInt32 instr (off + 1)) (\<lambda>disp.
        Inr (Operand_base_disp base disp, off + 2)))
      else if mode \<in> {kMode_MR1, kMode_MR2, kMode_MR4, kMode_MR8} then
        bindE (InputRegister instr off) (\<lambda>base.
        bindE (InputRegister instr (off + 1)) (\<lambda>index.
        bindE (ScaleFor kMode_MR1 mode) (\<lambda>scale.
        Inr (Operand_base_index base index scale 0, off + 2))))
      else if mode \<in> {kMode_MR1I, kMode_MR2I, kMode_MR4I, kMode_MR8I} then
        bindE (InputRegister instr off) (\<lambda>base.
        bindE (InputRegister instr (off + 1)) (\<lambda>index.
        bindE (ScaleFor kMode_MR1I mode) (\<lambda>scale.
        bindE (InputInt32 instr (off + 2)) (\<lambda>disp.
        Inr (Operand_base_index base index scale disp, off + 3)))))
      else if mode = kMode_M1 then
        bindE (InputRegister instr off) (\<lambda>base.
        Inr (Operand_base_disp base 0, off + 1))
      else if mode = kMode_M2 then
        Inl Unreachable
      else if mode \<in> {kMode_M4, kMode_M8} then
        bindE (InputRegister instr off) (\<lambda>index.
        bindE (ScaleFor kMode_M1 mode) (\<lambda>scale.
        Inr (Operand_index index scale 0, off + 1)))
      else if mode \<in> {kMode_M1I, kMode_M2I, kMode_M4I, kMode_M8I} then
        bindE (InputRegister instr off) (\<lambda>index.
        bindE (ScaleFor kMode_M1I mode) (\<lambda>scale.
        bindE (InputInt32 instr (off + 1)) (\<lambda>disp.
        Inr (Operand_index index scale disp, off + 2))))
      else if mode = kMode_Root then
        bindE (InputInt32 instr off) (\<lambda>disp.
        Inr (Operand_base_disp kRootRegister disp, off + 1))
      else if mode = kMode_MCR then
        bindE (InputRegister instr off) (\<lambda>index.
        Inr (Operand_base_index kPtrComprCageBaseRegister index times_1 0, off + 1))
      else if mode = kMode_MCRI then
        bindE (InputRegister instr off) (\<lambda>index.
        bindE (InputInt32 instr (off + 1)) (\<lambda>disp.
        Inr (Operand_base_index kPtrComprCageBaseRegister index times_1 disp, off + 2)))
      else
        Inl Unreachable)"

text \<open>
  What the claims say about a mode, written from the mode's documented shape
  (\<^verbatim>\<open>[%r1 + %r2*4 + K]\<close> for \<^verbatim>\<open>MR4I\<close>, and so on): the kinds of the operand
  slots it consumes, in order, and the factor its name carries.
\<close>

datatype slot_kind = RegisterSlot | ImmediateSlot

fun mode_shape :: "AddressingMode \<Rightarrow> slot_kind list" where
  "mode_shape kMode_None = []"
| "mode_shape kMode_MR = [RegisterSlot]"
| "mode_shape kMode_MRI = [RegisterSlot, ImmediateSlot]"
| "mode_shape kMode_MR1 = [RegisterSlot, RegisterSlot]"
| "mode_shape kMode_MR2 = [RegisterSlot, RegisterSlot]"
| "mode_shape kMode_MR4 = [RegisterSlot, RegisterSlot]"
| "mode_shape kMode_MR8 = [RegisterSlot, RegisterSlot]"
| "mode_shape kMode_MR1I = [RegisterSlot, RegisterSlot, ImmediateSlot]"
| "mode_shape kMode_MR2I = [RegisterSlot, RegisterSlot, ImmediateSlot]"
| "mode_shape kMode_MR4I = [RegisterSlot, RegisterSlot, ImmediateSlot]"
| "mode_shape kMode_MR8I = [RegisterSlot, RegisterSlot, ImmediateSlot]"
| "mode_shape kMode_M1 = [RegisterSlot]"
| "mode_shape kMode_M2 = [RegisterSlot]"
| "mode_shape kMode_M4 = [RegisterSlot]"
| "mode_shape kMode_M8 = [RegisterSlot]"
| "mode_shape kMode_M1I = [RegisterSlot, ImmediateSlot]"
| "mode_shape kMode_M2I = [RegisterSlot, ImmediateSlot]"
| "mode_shape kMode_M4I = [RegisterSlot, ImmediateSlot]"
| "mode_shape kMode_M8I = [RegisterSlot, ImmediateSlot]"
| "mode_shape kMode_Root = [ImmediateSlot]"
| "mode_shape kMode_MCR = [RegisterSlot]"
| "mode_shape kMode_MCRI = [RegisterSlot, ImmediateSlot]"

fun operand_has_kind :: "InstructionOperand \<Rightarrow> slot_kind \<Rightarrow> bool" where
  "operand_has_kind (RegisterOperand r) RegisterSlot = True"
| "operand_has_kind (ImmediateOperand k) ImmediateSlot = True"
| "operand_has_kind _ _ = False"

definition has_operand_slots :: "Instruction \<Rightarrow> nat \<Rightarrow> bool" where
  "has_operand_slots instr off =
     (let shape = mode_shape (addressing_mode instr) in
      off + length shape \<le> length (inputs instr) \<and>
      list_all2 operand_has_kind (take (length shape) (drop off (inputs instr))) shape)"

fun mode_factor :: "AddressingMode \<Rightarrow> nat option" where
  "mode_factor kMode_MR1 = Some 1"
| "mode_factor kMode_MR2 = Some 2"
| "mode_factor kMode_MR4 = Some 4"
| "mode_factor kMode_MR8 = Some 8"
| "mode_factor kMode_MR1I = Some 1"
| "mode_factor kMode_MR2I = Some 2"
| "mode_factor kMode_MR4I = Some 4"
| "mode_factor kMode_MR8I = Some 8"
| "mode_factor kMode_M2 = Some 2"
| "mode_factor kMode_M4 = Some 4"
| "mode_factor kMode_M8 = Some 8"
| "mode_factor kMode_M1I = Some 1"
| "mode_factor kMode_M2I = Some 2"
| "mode_factor kMode_M4I = Some 4"
| "mode_factor kMode_M8I = Some 8"
| "mode_factor _ = None"

fun operand_factor :: "Operand \<Rightarrow> nat option" where
  "operand_factor (Operand_base_disp b d) = None"
| "operand_factor (Operand_base_index b i s d) = Some (scale_multiplier s)"
| "operand_factor (Operand_index i s d) = Some (scale_multiplier s)"

section \<open>A fragment of the x64 machine\<close>

text \<open>
  The instructions that the frame code of code-generator-x64.cc emits, and a machine
  to run them on: 64-bit registers, 128-bit XMM registers as two 64-bit halves (low
  half first), and a memory of 8-byte cells found by their byte address. \<open>rsp\<close> and
  \<open>rbp\<close> are fields of their own; the other general-purpose registers are found by
  their code. Addresses and \<open>rsp\<close> arithmetic wrap at 64 bits.
  \<^verbatim>\<open>AllocateStackSpace(bytes)\<close> lowers \<open>rsp\<close> by \<open>bytes\<close>. An immediate is a signed
  number, extended to 64 bits. \<open>pushq_operand\<close> pushes the cell at a displacement from
  \<open>rsp\<close> (flag set) or from \<open>rbp\<close>.
\<close>

type_synonym Register = nat
type_synonym XMMRegister = nat

datatype x64_instr =
    pushq Register
  | pushq_rbp
  | popq Register
  | popq_rbp
  | movq_rbp_rsp
  | movq_rsp_rbp
  | AllocateStackSpace int
  | addq_rsp int
  | Movdqu_store int XMMRegister
  | Movdqu_load XMMRegister int
  | movq_load_rbp Register int
  | pushq_imm int
  | pushq_operand bool int

record x64_state =
  rsp :: "64 word"
  rbp :: "64 word"
  gp :: "Register \<Rightarrow> 64 word"
  xmm :: "XMMRegister \<Rightarrow> 64 word \<times> 64 word"
  mem :: "64 word \<Rightarrow> 64 word"

fun x64_step :: "x64_instr \<Rightarrow> x64_state \<Rightarrow> x64_state" where
  "x64_step (pushq r) s =
     s\<lparr>rsp := rsp s - 8, mem := (mem s)(rsp s - 8 := gp s r)\<rparr>"
| "x64_step pushq_rbp s =
     s\<lparr>rsp := rsp s - 8, mem := (mem s)(rsp s - 8 := rbp s)\<rparr>"
| "x64_step (popq r) s =
     s\<lparr>rsp := rsp s + 8, gp := (gp s)(r := mem s (rsp s))\<rparr>"
| "x64_step popq_rbp s =
     s\<lparr>rsp := rsp s + 8, rbp := mem s (rsp s)\<rparr>"
| "x64_step movq_rbp_rsp s = s\<lparr>rbp := rsp s\<rparr>"
| "x64_step movq_rsp_rbp s = s\<lparr>rsp := rbp s\<rparr>"
| "x64_step (AllocateStackSpace bytes) s = s\<lparr>rsp := rsp s - word_of_int bytes\<rparr>"
| "x64_step (addq_rsp bytes) s = s\<lparr>rsp := rsp s + word_of_int bytes\<rparr>"
| "x64_step (Movdqu_store disp x) s =
     s\<lparr>mem := (mem s)(rsp s + word_of_int disp := fst (xmm s x),
                       rsp s + word_of_int disp + 8 := snd (xmm s x))\<rparr>"
| "x64_step (Movdqu_load x disp) s =
     s\<lparr>xmm := (xmm s)(x := (mem s (rsp s + word_of_int disp),
                            mem s (rsp s + word_of_int disp + 8)))\<rparr>"
| "x64_step (movq_load_rbp r disp) s =
     s\<lparr>gp := (gp s)(r := mem s (rbp s + word_of_int disp))\<rparr>"
| "x64_step (pushq_imm v) s =
     s\<lparr>rsp := rsp s - 8, mem := (mem s)(rsp s - 8 := word_of_int v)\<rparr>"
| "x64_step (pushq_operand from_stack_pointer disp) s =
     s\<lparr>rsp := rsp s - 8,
       mem := (mem s)(rsp s - 8 :=
                mem s ((if from_stack_pointer then rsp s else rbp s) + word_of_int disp))\<rparr>"


fun x64_run :: "x64_instr list \<Rightarrow> x64_state \<Rightarrow> x64_state" where
  "x64_run [] s = s"

| "x64_run (i # is) s = x64_run is (x64_step i s)"

section \<open>Tail calls: \<^verbatim>\<open>AdjustStackPointerForTailCall\<close> (code-generator-x64.cc)\<close>

text \<open>
  Constants of headers that are not among the sources, with their x64 values: a
  pointer is 8 bytes, the return address is one slot, and two slots (the return
  address and the saved frame pointer) lie at and above the frame pointer.
\<close>

definition kSystemPointerSize :: int where
  "kSystemPointerSize = 8"

definition kReturnAddressStackSlotCount :: int where
  "kReturnAddressStackSlotCount = 1"

definition kFixedSlotCountAboveFp :: int where
  "kFixedSlotCountAboveFp = 2"

text \<open>
  The slot counts and offsets are C++ \<^verbatim>\<open>int\<close>s: words of 32 bits, read as signed
  numbers by \<open>sint\<close>, whose arithmetic wraps. \<open>int32\<close> makes such a word from a constant.
\<close>

type_synonym int32 = "32 word"

definition int32 :: "int \<Rightarrow> int32" where
  "int32 k = word_of_int k"

text \<open>
  The \<^verbatim>\<open>FrameAccessState\<close> as the function reads and writes it: the frame's total
  slot count, and the slot distance of the stack pointer from the frame pointer that
  \<^verbatim>\<open>GetSPToFPSlotCount()\<close> returns and \<^verbatim>\<open>IncreaseSPDelta\<close> moves.
\<close>

record FrameAccessState =
  total_frame_slot_count :: int32
  sp_to_fp_slot_count :: int32

definition IncreaseSPDelta :: "int32 \<Rightarrow> FrameAccessState \<Rightarrow> FrameAccessState" where
  "IncreaseSPDelta amount state =
     state\<lparr>sp_to_fp_slot_count := sp_to_fp_slot_count state + amount\<rparr>"

text \<open>
  What the function reads of the instruction, the linkage, the compilation info and
  the frame: the flag \<^verbatim>\<open>CallDescriptor::kIsTailCallForTierUp\<close> of the instruction, and
  the four facts that the \<^verbatim>\<open>DCHECK\<close>s of the tier-up branch test.
\<close>

record tail_call =
  kIsTailCallForTierUp :: bool
  info_is_osr :: bool
  incoming_CalleeSavedRegisters_is_empty :: bool
  incoming_CalleeSavedFPRegisters_is_empty :: bool
  frame_GetReturnSlotCount :: int32

text \<open>
  The first half of the function: the slot delta. In a debug build (\<open>debug\<close>) a failed
  \<^verbatim>\<open>DCHECK\<close> aborts; a release build has no checks.
\<close>

definition tail_call_stack_slot_delta ::
  "bool \<Rightarrow> tail_call \<Rightarrow> FrameAccessState \<Rightarrow> int32 \<Rightarrow> fatal + int32" where
  "tail_call_stack_slot_delta debug call state new_slot_above_sp =
     (if kIsTailCallForTierUp call then
        (if debug \<and> info_is_osr call then Inl DCheckFailed
         else if debug \<and> \<not> incoming_CalleeSavedRegisters_is_empty call then Inl DCheckFailed
         else if debug \<and> \<not> incoming_CalleeSavedFPRegisters_is_empty call then Inl DCheckFailed
         else if debug \<and> frame_GetReturnSlotCount call \<noteq> 0 then Inl DCheckFailed
         else
           (let stack_slot_delta =
                  (total_frame_slot_count state - int32 kReturnAddressStackSlotCount) * (- 1)
            in if debug \<and> \<not> sint stack_slot_delta \<le> 0 then Inl DCheckFailed
               else Inr stack_slot_delta))
      else
        (let current_sp_offset = sp_to_fp_slot_count state + int32 kFixedSlotCountAboveFp
         in Inr (new_slot_above_sp - current_sp_offset)))"

text \<open>
  The whole function: the instructions it emits and the \<^verbatim>\<open>FrameAccessState\<close> it
  leaves. \<^verbatim>\<open>allow_shrinkage\<close> defaults to true in the source. The byte counts are
  products of \<^verbatim>\<open>int\<close>s and become 32-bit immediates.
\<close>

definition AdjustStackPointerForTailCall ::
  "bool \<Rightarrow> tail_call \<Rightarrow> FrameAccessState \<Rightarrow> int32 \<Rightarrow> bool
     \<Rightarrow> fatal + (x64_instr list \<times> FrameAccessState)" where
  "AdjustStackPointerForTailCall debug call state new_slot_above_sp allow_shrinkage =
     bindE (tail_call_stack_slot_delta debug call state new_slot_above_sp)
       (\<lambda>stack_slot_delta.
          if 0 < sint stack_slot_delta then
            Inr ([AllocateStackSpace (sint (stack_slot_delta * int32 kSystemPointerSize))],
                 IncreaseSPDelta stack_slot_delta state)
          else if allow_shrinkage \<and> sint stack_slot_delta < 0 then
            Inr ([addq_rsp (sint (- stack_slot_delta * int32 kSystemPointerSize))],
                 IncreaseSPDelta stack_slot_delta state)
          else Inr ([], state))"

text \<open>
  \<^verbatim>\<open>AssembleTailCallBeforeGap\<close>. \<^verbatim>\<open>GetPushCompatibleMoves\<close> is not among the sources:
  the moves it returns are the parameter \<open>pushes\<close>, each with the slot index of its
  destination and its source. \<^verbatim>\<open>FrameAccessState::GetFrameOffset\<close>, which
  \<^verbatim>\<open>SlotToOperand\<close> calls, is not among the sources either and is the parameter
  \<open>GetFrameOffset\<close>: whether the offset is from the stack pointer, and the offset.
\<close>

datatype push_source =
    IsStackSlot int32
  | IsRegister Register
  | IsImmediate int32
  | IsOther

record push_move =
  destination_index :: int32
  move_source :: push_source

type_synonym frame_offset = "FrameAccessState \<Rightarrow> int32 \<Rightarrow> bool \<times> int32"

definition SlotToOperand :: "frame_offset \<Rightarrow> FrameAccessState \<Rightarrow> int32 \<Rightarrow> x64_instr" where
  "SlotToOperand GetFrameOffset state slot_index =
     (let offset = GetFrameOffset state slot_index
      in pushq_operand (fst offset) (sint (snd offset)))"

text \<open>The loop over the pushes.\<close>

fun push_moves ::
  "bool \<Rightarrow> tail_call \<Rightarrow> frame_offset \<Rightarrow> push_move list \<Rightarrow> FrameAccessState
     \<Rightarrow> fatal + (x64_instr list \<times> FrameAccessState)" where
  "push_moves debug call GetFrameOffset [] state = Inr ([], state)"
| "push_moves debug call GetFrameOffset (move # moves) state =
     bindE (AdjustStackPointerForTailCall debug call state (destination_index move) True)
       (\<lambda>(code1, state1).
          bindE (case move_source move of
                   IsStackSlot index \<Rightarrow> Inr [SlotToOperand GetFrameOffset state1 index]
                 | IsRegister r \<Rightarrow> Inr [pushq r]
                 | IsImmediate v \<Rightarrow> Inr [pushq_imm (sint v)]
                 | IsOther \<Rightarrow> Inl Fatal)
            (\<lambda>code2.
               bindE (push_moves debug call GetFrameOffset moves (IncreaseSPDelta 1 state1))
                 (\<lambda>(code3, state3). Inr (code1 @ code2 @ code3, state3))))"

definition AssembleTailCallBeforeGap ::
  "bool \<Rightarrow> tail_call \<Rightarrow> frame_offset \<Rightarrow> push_move list \<Rightarrow> FrameAccessState \<Rightarrow> int32
     \<Rightarrow> fatal + (x64_instr list \<times> FrameAccessState)" where
  "AssembleTailCallBeforeGap debug call GetFrameOffset pushes state first_unused_slot_offset =
     bindE (if pushes \<noteq> [] \<and>
               destination_index (last pushes) + 1 = first_unused_slot_offset
            then (if debug \<and> kIsTailCallForTierUp call then Inl DCheckFailed
                  else push_moves debug call GetFrameOffset pushes state)
            else Inr ([], state))
       (\<lambda>(code1, state1).
          bindE (AdjustStackPointerForTailCall debug call state1 first_unused_slot_offset False)
            (\<lambda>(code2, state2). Inr (code1 @ code2, state2)))"

definition AssembleTailCallAfterGap ::
  "bool \<Rightarrow> tail_call \<Rightarrow> FrameAccessState \<Rightarrow> int32
     \<Rightarrow> fatal + (x64_instr list \<times> FrameAccessState)" where
  "AssembleTailCallAfterGap debug call state first_unused_slot_offset =
     AdjustStackPointerForTailCall debug call state first_unused_slot_offset True"

text \<open>
  The stack pointer adjustments of one tail call. Modelled from the spec: the caller
  of the two functions (\<^verbatim>\<open>CodeGenerator::AssembleInstruction\<close>) is not among the
  sources; it runs \<^verbatim>\<open>AssembleTailCallBeforeGap\<close>, the gap moves, and
  \<^verbatim>\<open>AssembleTailCallAfterGap\<close> for the same instruction and the same first unused slot
  offset. The gap moves that are left after the pushes do not move the stack pointer
  and are not part of the code here.
\<close>

definition AssembleTailCallAdjustments ::
  "bool \<Rightarrow> tail_call \<Rightarrow> frame_offset \<Rightarrow> push_move list \<Rightarrow> FrameAccessState \<Rightarrow> int32
     \<Rightarrow> fatal + (x64_instr list \<times> FrameAccessState)" where
  "AssembleTailCallAdjustments debug call GetFrameOffset pushes state first_unused_slot_offset =
     bindE (AssembleTailCallBeforeGap debug call GetFrameOffset pushes state
              first_unused_slot_offset)
       (\<lambda>(code1, state1).
          bindE (AssembleTailCallAfterGap debug call state1 first_unused_slot_offset)
            (\<lambda>(code2, state2). Inr (code1 @ code2, state2)))"

text \<open>
  Slot numbers of a size for which no product or sum of the function overflows.
\<close>

definition slot_number :: "int32 \<Rightarrow> bool" where
  "slot_number x \<longleftrightarrow> - (2 ^ 26) < sint x \<and> sint x < 2 ^ 26"

text \<open>
  The conditions that the \<^verbatim>\<open>DCHECK\<close>s of the tier-up branch state, the last one,
  \<^verbatim>\<open>DCHECK_LE(stack_slot_delta, 0)\<close>, as the frame holding its return address; and the
  condition under which \<^verbatim>\<open>AssembleTailCallBeforeGap\<close> turns the moves into pushes.
\<close>

definition tier_up_checks :: "tail_call \<Rightarrow> FrameAccessState \<Rightarrow> bool" where
  "tier_up_checks call state \<longleftrightarrow>
     \<not> info_is_osr call \<and> incoming_CalleeSavedRegisters_is_empty call \<and>
     incoming_CalleeSavedFPRegisters_is_empty call \<and> frame_GetReturnSlotCount call = 0 \<and>
     1 \<le> sint (total_frame_slot_count state)"

definition pushes_reach :: "push_move list \<Rightarrow> int32 \<Rightarrow> bool" where
  "pushes_reach pushes first_unused_slot_offset \<longleftrightarrow>
     pushes \<noteq> [] \<and> destination_index (last pushes) + 1 = first_unused_slot_offset"

text \<open>
  What a piece of code does to the machine when the frame access state goes from a
  stack pointer offset \<open>S\<close> to \<open>S'\<close>: it moves \<open>rsp\<close> by the difference and keeps the
  registers.
\<close>

definition tracks :: "x64_instr list \<Rightarrow> int \<Rightarrow> int \<Rightarrow> bool" where
  "tracks code S S' \<longleftrightarrow>
     (\<forall>s. rsp (x64_run code s) = rsp s - word_of_int (8 * (S' - S)) \<and>
          rbp (x64_run code s) = rbp s \<and> gp (x64_run code s) = gp s \<and>
          xmm (x64_run code s) = xmm s)"

text \<open>The same for code that changes nothing but \<open>rsp\<close>.\<close>

definition moves_rsp :: "x64_instr list \<Rightarrow> int \<Rightarrow> int \<Rightarrow> bool" where
  "moves_rsp code S S' \<longleftrightarrow>
     (\<forall>s. x64_run code s = s\<lparr>rsp := rsp s - word_of_int (8 * (S' - S))\<rparr>)"

section \<open>Write barrier: \<^verbatim>\<open>kArchStoreWithWriteBarrier\<close> and \<^verbatim>\<open>OutOfLineRecordWrite\<close>\<close>

text \<open>
  \<^verbatim>\<open>RecordWriteMode\<close> and \<^verbatim>\<open>StubCallMode\<close> are declared in headers that are not among
  the sources; the order of the enumerators, which \<^verbatim>\<open>mode > kValueIsPointer\<close> reads, is
  the declaration order.
\<close>

datatype RecordWriteMode = kValueIsMap | kValueIsPointer | kValueIsEphemeronKey | kValueIsAny

fun RecordWriteMode_index :: "RecordWriteMode \<Rightarrow> nat" where
  "RecordWriteMode_index kValueIsMap = 0"
| "RecordWriteMode_index kValueIsPointer = 1"
| "RecordWriteMode_index kValueIsEphemeronKey = 2"
| "RecordWriteMode_index kValueIsAny = 3"

datatype StubCallMode = kCallCodeObject | kCallWasmRuntimeStub | kCallBuiltinPointer

datatype SaveFPRegsMode = kIgnore | kSave

datatype ArchOpcode = kArchStoreWithWriteBarrier | kArchAtomicStoreWithWriteBarrier

datatype memory_order = memory_order_relaxed | memory_order_seq_cst

text \<open>
  The macro-assembler calls of the two code sequences. The labels are the entry and
  the exit of the out-of-line block. The two page-flag masks are constants of
  \<^verbatim>\<open>MemoryChunk\<close>, a class that is not among the sources: an instruction carries the
  mask's name. \<open>jmp\<close> is the jump that ends an out-of-line block.
\<close>

datatype ool_label = ool_entry | ool_exit

datatype page_flag_mask =
    kPointersFromHereAreInterestingMask
  | kPointersToHereAreInterestingOrInSharedHeapMask

datatype Condition = zero | not_zero

datatype barrier_register = object_reg | value_reg

datatype barrier_instr =
    Check_value_not_cleared
  | EmitStore memory_order
  | JumpIfSmi_value ool_label
  | CheckPageFlag barrier_register page_flag_mask Condition ool_label
  | bind ool_label
  | DecompressTaggedPointer_value
  | leaq_scratch1_operand
  | CallEphemeronKeyBarrier SaveFPRegsMode
  | CallRecordWriteStubSaveRegisters SaveFPRegsMode StubCallMode
  | jmp ool_label

text \<open>
  What the two sequences read from the code generator: build and run-time flags, the
  frame, and the stub call mode that \<^verbatim>\<open>DetermineStubCallMode()\<close> returned.
\<close>

record barrier_config =
  debug_code :: bool
  COMPRESS_POINTERS_BOOL :: bool
  V8_ENABLE_WEBASSEMBLY :: bool
  DidAllocateDoubleRegisters :: bool
  stub_mode :: StubCallMode

text \<open>
  The case \<^verbatim>\<open>kArchStoreWithWriteBarrier\<close> / \<^verbatim>\<open>kArchAtomicStoreWithWriteBarrier\<close> of
  \<^verbatim>\<open>AssembleArchInstruction\<close>: the inline sequence. \<^verbatim>\<open>EmitTSANAwareStore\<close> is the one
  of a build without the thread sanitizer, which emits the store itself.
\<close>

definition AssembleStoreWithWriteBarrier ::
  "barrier_config \<Rightarrow> ArchOpcode \<Rightarrow> RecordWriteMode \<Rightarrow> barrier_instr list" where
  "AssembleStoreWithWriteBarrier cfg arch_opcode mode =
     (if debug_code cfg then [Check_value_not_cleared] else []) @
     (if arch_opcode = kArchStoreWithWriteBarrier
      then [EmitStore memory_order_relaxed]
      else [EmitStore memory_order_seq_cst]) @
     (if RecordWriteMode_index mode > RecordWriteMode_index kValueIsPointer
      then [JumpIfSmi_value ool_exit] else []) @
     [CheckPageFlag object_reg kPointersFromHereAreInterestingMask not_zero ool_entry,
      bind ool_exit]"

text \<open>\<^verbatim>\<open>OutOfLineRecordWrite::Generate\<close>: the out-of-line sequence.\<close>

definition OutOfLineRecordWrite_Generate ::
  "barrier_config \<Rightarrow> RecordWriteMode \<Rightarrow> barrier_instr list" where
  "OutOfLineRecordWrite_Generate cfg mode =
     (if COMPRESS_POINTERS_BOOL cfg then [DecompressTaggedPointer_value] else []) @
     [CheckPageFlag value_reg kPointersToHereAreInterestingOrInSharedHeapMask zero ool_exit,
      leaq_scratch1_operand] @
     (let save_fp_mode = (if DidAllocateDoubleRegisters cfg then kSave else kIgnore) in
      if mode = kValueIsEphemeronKey then
        [CallEphemeronKeyBarrier save_fp_mode]
      else if V8_ENABLE_WEBASSEMBLY cfg \<and> stub_mode cfg = kCallWasmRuntimeStub then
        [CallRecordWriteStubSaveRegisters save_fp_mode kCallWasmRuntimeStub]
      else
        [CallRecordWriteStubSaveRegisters save_fp_mode kCallBuiltinPointer])"

text \<open>
  The page flags. \<^verbatim>\<open>MemoryChunk\<close> is not among the sources, so the bit of each flag is
  a parameter. \<^verbatim>\<open>kPointersFromHereAreInterestingMask\<close> is the flag of the pages with
  interesting pointers from them; \<^verbatim>\<open>kPointersToHereAreInterestingOrInSharedHeapMask\<close>
  is, as its name says, a mask of two flags: the flag of the pages with interesting
  pointers to them, and the flag of the pages of the shared heap.
\<close>

record MemoryChunk_flags =
  POINTERS_FROM_HERE_ARE_INTERESTING :: "64 word"
  POINTERS_TO_HERE_ARE_INTERESTING :: "64 word"
  IN_SHARED_HEAP :: "64 word"

definition mask_bits :: "MemoryChunk_flags \<Rightarrow> page_flag_mask \<Rightarrow> 64 word" where
  "mask_bits chunk msk =
     (case msk of
        kPointersFromHereAreInterestingMask \<Rightarrow> POINTERS_FROM_HERE_ARE_INTERESTING chunk
      | kPointersToHereAreInterestingOrInSharedHeapMask \<Rightarrow>
          or (POINTERS_TO_HERE_ARE_INTERESTING chunk) (IN_SHARED_HEAP chunk))"

text \<open>
  Running the two sequences. The run-time facts are the flag words of the pages of the
  object and of the value, whether the value is a smi, and whether it is a cleared
  weak reference. \<^verbatim>\<open>CheckPageFlag\<close> tests the page's flags against the mask and jumps
  when the condition holds. What a run leaves behind is the list of its effects: the
  store, and the runtime routine it called.
\<close>

record barrier_env =
  object_page_flags :: "64 word"
  value_page_flags :: "64 word"
  value_is_smi :: bool
  value_is_cleared :: bool

datatype barrier_effect =
    Aborted
  | Stored memory_order
  | Called_EphemeronKeyBarrier SaveFPRegsMode
  | Called_RecordWriteStub SaveFPRegsMode StubCallMode

definition page_flag_jumps ::
  "MemoryChunk_flags \<Rightarrow> barrier_env \<Rightarrow> barrier_register \<Rightarrow> page_flag_mask \<Rightarrow> Condition
     \<Rightarrow> bool" where
  "page_flag_jumps chunk env r msk cc =
     (let flags = (case r of object_reg \<Rightarrow> object_page_flags env
                           | value_reg \<Rightarrow> value_page_flags env);
          tested = and flags (mask_bits chunk msk)
      in case cc of zero \<Rightarrow> tested = 0 | not_zero \<Rightarrow> tested \<noteq> 0)"

text \<open>
  The code of a store is the inline sequence and, placed elsewhere, the out-of-line
  block. Modelled from the spec: the code that places an out-of-line block
  (\<^verbatim>\<open>CodeGenerator::AssembleCode\<close>) is not among the sources; it binds the entry label,
  lets the block generate its code, and ends the block with a jump to the exit label.
  A jump continues behind the binding of its label, which is looked for in the inline
  sequence first.
\<close>

definition out_of_line_block :: "barrier_instr list \<Rightarrow> barrier_instr list" where
  "out_of_line_block generated = bind ool_entry # generated @ [jmp ool_exit]"

fun code_after_bind :: "ool_label \<Rightarrow> barrier_instr list \<Rightarrow> barrier_instr list option" where
  "code_after_bind l [] = None"
| "code_after_bind l (i # is) = (if i = bind l then Some is else code_after_bind l is)"

definition jump_target ::
  "barrier_instr list \<Rightarrow> barrier_instr list \<Rightarrow> ool_label \<Rightarrow> barrier_instr list option" where
  "jump_target inline block l =
     (case code_after_bind l inline of
        Some code \<Rightarrow> Some code
      | None \<Rightarrow> code_after_bind l block)"

text \<open>
  The machine. It runs the instructions one after the other; a taken jump continues
  at its target and uses one unit of \<open>fuel\<close>, and \<open>None\<close> is a run that used up its
  fuel or jumped to a label that is bound nowhere. The run of the inline sequence
  ends at the end of the sequence. A failed \<^verbatim>\<open>Check\<close> aborts.
\<close>

fun run_barrier ::
  "MemoryChunk_flags \<Rightarrow> barrier_env \<Rightarrow> (ool_label \<Rightarrow> barrier_instr list option) \<Rightarrow> nat
     \<Rightarrow> barrier_instr list \<Rightarrow> barrier_effect list option" where
  "run_barrier chunk env target fuel [] = Some []"
| "run_barrier chunk env target fuel (Check_value_not_cleared # is) =
     (if value_is_cleared env then Some [Aborted] else run_barrier chunk env target fuel is)"
| "run_barrier chunk env target fuel (EmitStore order # is) =
     map_option (Cons (Stored order)) (run_barrier chunk env target fuel is)"
| "run_barrier chunk env target fuel (CallEphemeronKeyBarrier fp # is) =
     map_option (Cons (Called_EphemeronKeyBarrier fp)) (run_barrier chunk env target fuel is)"
| "run_barrier chunk env target fuel (CallRecordWriteStubSaveRegisters fp m # is) =
     map_option (Cons (Called_RecordWriteStub fp m)) (run_barrier chunk env target fuel is)"
| "run_barrier chunk env target fuel (bind l # is) = run_barrier chunk env target fuel is"
| "run_barrier chunk env target fuel (DecompressTaggedPointer_value # is) =
     run_barrier chunk env target fuel is"
| "run_barrier chunk env target fuel (leaq_scratch1_operand # is) =
     run_barrier chunk env target fuel is"
| "run_barrier chunk env target 0 (JumpIfSmi_value l # is) =
     (if value_is_smi env then None else run_barrier chunk env target 0 is)"
| "run_barrier chunk env target (Suc fuel) (JumpIfSmi_value l # is) =
     (if value_is_smi env
      then (case target l of
              None \<Rightarrow> None
            | Some code \<Rightarrow> run_barrier chunk env target fuel code)
      else run_barrier chunk env target (Suc fuel) is)"
| "run_barrier chunk env target 0 (CheckPageFlag r msk cc l # is) =
     (if page_flag_jumps chunk env r msk cc then None else run_barrier chunk env target 0 is)"
| "run_barrier chunk env target (Suc fuel) (CheckPageFlag r msk cc l # is) =
     (if page_flag_jumps chunk env r msk cc
      then (case target l of
              None \<Rightarrow> None
            | Some code \<Rightarrow> run_barrier chunk env target fuel code)
      else run_barrier chunk env target (Suc fuel) is)"
| "run_barrier chunk env target 0 (jmp l # is) = None"
| "run_barrier chunk env target (Suc fuel) (jmp l # is) =
     (case target l of
        None \<Rightarrow> None
      | Some code \<Rightarrow> run_barrier chunk env target fuel code)"

definition run_store_with_write_barrier ::
  "MemoryChunk_flags \<Rightarrow> barrier_config \<Rightarrow> ArchOpcode \<Rightarrow> RecordWriteMode \<Rightarrow> barrier_env \<Rightarrow> nat
     \<Rightarrow> barrier_effect list option" where
  "run_store_with_write_barrier chunk cfg arch_opcode mode env fuel =
     (let inline = AssembleStoreWithWriteBarrier cfg arch_opcode mode;
          block = out_of_line_block (OutOfLineRecordWrite_Generate cfg mode)
      in run_barrier chunk env (jump_target inline block) fuel inline)"

section \<open>Deferred code: \<^verbatim>\<open>MaglevCodeGenerator::EmitDeferredCode\<close> (maglev-code-generator.cc)\<close>

text \<open>
  The assembler's buffer is a list that only grows; what is appended by
  \<^verbatim>\<open>EmitDeferredCode\<close> itself is a comment, the binding of the block's label and a trap,
  and what a block's \<^verbatim>\<open>Generate\<close> appends is kept as it is. A deferred block is a
  value of a type \<open>'b\<close>.
\<close>

datatype ('b, 'i) masm_item =
    RecordComment string
  | bind_deferred_code_label 'b
  | Trap
  | Generated 'i

record ('b, 'i) code_gen_state =
  deferred_code :: "'b list"
  masm :: "('b, 'i) masm_item list"

text \<open>
  Modelled from the spec: \<^verbatim>\<open>MaglevCodeGenState::TakeDeferredCode\<close> and
  \<^verbatim>\<open>PushDeferredCode\<close> are not among the sources. Taking the queue returns all of it
  and leaves it empty ("clearing the vector on each outer loop", says the comment in
  \<^verbatim>\<open>EmitDeferredCode\<close>); pushing appends a block.
\<close>

definition TakeDeferredCode ::
  "('b, 'i) code_gen_state \<Rightarrow> 'b list \<times> ('b, 'i) code_gen_state" where
  "TakeDeferredCode st = (deferred_code st, st\<lparr>deferred_code := []\<rparr>)"

definition PushDeferredCode :: "'b \<Rightarrow> ('b, 'i) code_gen_state \<Rightarrow> ('b, 'i) code_gen_state" where
  "PushDeferredCode d st = st\<lparr>deferred_code := deferred_code st @ [d]\<rparr>"

text \<open>
  \<^verbatim>\<open>deferred_code->Generate(masm())\<close> is a virtual call into the block's closure. It is
  a parameter \<open>Generate\<close>: given the block and the state it sees, the instructions it
  emits and the deferred blocks it pushes, in order.
\<close>

type_synonym ('b, 'i) generate = "'b \<Rightarrow> ('b, 'i) code_gen_state \<Rightarrow> 'i list \<times> 'b list"

definition run_Generate ::
  "('b, 'i) generate \<Rightarrow> 'b \<Rightarrow> ('b, 'i) code_gen_state \<Rightarrow> ('b, 'i) code_gen_state" where
  "run_Generate Generate d st =
     (let (emitted, pushed) = Generate d st
      in fold PushDeferredCode pushed (st\<lparr>masm := masm st @ map Generated emitted\<rparr>))"

text \<open>The body of the \<^verbatim>\<open>for\<close> loop, for one block.\<close>

definition emit_deferred_block ::
  "('b, 'i) generate \<Rightarrow> 'b \<Rightarrow> ('b, 'i) code_gen_state \<Rightarrow> ('b, 'i) code_gen_state" where
  "emit_deferred_block Generate d st =
     (let st1 = st\<lparr>masm := masm st @ [RecordComment ''-- Deferred block'',
                                        bind_deferred_code_label d]\<rparr>;
          st2 = run_Generate Generate d st1
      in st2\<lparr>masm := masm st2 @ [Trap]\<rparr>)"

text \<open>
  One pass of the outer loop: the whole queue is taken, and the \<^verbatim>\<open>for\<close> loop runs
  over the blocks taken.
\<close>

definition drain_deferred_code ::
  "('b, 'i) generate \<Rightarrow> ('b, 'i) code_gen_state \<Rightarrow> ('b, 'i) code_gen_state" where
  "drain_deferred_code Generate st =
     (let (taken, st1) = TakeDeferredCode st
      in fold (emit_deferred_block Generate) taken st1)"

text \<open>
  The \<^verbatim>\<open>while\<close> loop. Nothing bounds the number of its passes, so the function is
  partial: \<open>None\<close> is a loop that does not end.
\<close>

partial_function (option) EmitDeferredCode ::
  "('b, 'i) generate \<Rightarrow> ('b, 'i) code_gen_state \<Rightarrow> ('b, 'i) code_gen_state option" where
  "EmitDeferredCode Generate st =
     (if deferred_code st \<noteq> []
      then EmitDeferredCode Generate (drain_deferred_code Generate st)
      else Some st)"

text \<open>
  The deferred blocks of maglev-assembler-x64.cc, by the function that makes them
  (\<^verbatim>\<open>JumpToDeferredIf\<close> pushes a block and jumps to its label). The closure of
  \<^verbatim>\<open>StringFromCharCode\<close> calls \<^verbatim>\<open>AllocateTwoByteString\<close>, which calls \<^verbatim>\<open>Allocate\<close>, which
  makes the block of the runtime call; no other closure makes a block.
\<close>

datatype assembler_deferred_code =
    Allocate_runtime_call
  | StringFromCharCode_two_byte
  | StringCharCodeAt_runtime_call
  | ToBoolean_smi
  | ToBoolean_heap_number
  | ToBoolean_big_int
  | TruncateDoubleToInt32_overflow
  | Prologue_flags_need_processing
  | Prologue_stack_guard

fun assembler_deferred_pushes :: "assembler_deferred_code \<Rightarrow> assembler_deferred_code list" where
  "assembler_deferred_pushes StringFromCharCode_two_byte = [Allocate_runtime_call]"
| "assembler_deferred_pushes d = []"

definition assembler_Generate ::
  "(assembler_deferred_code \<Rightarrow> 'i list) \<Rightarrow> (assembler_deferred_code, 'i) generate" where
  "assembler_Generate instructions d st = (instructions d, assembler_deferred_pushes d)"

subsection \<open>What a pass of the loop is to produce\<close>

text \<open>
  The code of one block: the comment, the label, what the block generates in the
  state \<open>seen\<close> it is generated in, and the trap.
\<close>

definition block_code ::
  "('b, 'i) generate \<Rightarrow> 'b \<Rightarrow> ('b, 'i) code_gen_state \<Rightarrow> ('b, 'i) masm_item list" where
  "block_code Generate d seen =
     [RecordComment ''-- Deferred block'', bind_deferred_code_label d] @
     map Generated (fst (Generate d seen)) @ [Trap]"

text \<open>
  The blocks of a pass, in the order of the queue taken, each with the state it is
  generated in: the buffer holds the code of the blocks before it and its own label,
  and the queue the blocks pushed so far in the pass.
\<close>

fun blocks_of_pass ::
  "('b, 'i) generate \<Rightarrow> 'b list \<Rightarrow> ('b, 'i) code_gen_state
     \<Rightarrow> ('b \<times> ('b, 'i) code_gen_state) list" where
  "blocks_of_pass Generate [] st = []"
| "blocks_of_pass Generate (d # ds) st =
     (let seen = st\<lparr>masm := masm st @ [RecordComment ''-- Deferred block'',
                                         bind_deferred_code_label d]\<rparr>
      in (d, seen) #
         blocks_of_pass Generate ds
           (st\<lparr>deferred_code := deferred_code st @ snd (Generate d seen),
               masm := masm st @ block_code Generate d seen\<rparr>))"

text \<open>The blocks whose label is bound in a buffer, in the order of the buffer.\<close>

fun bound_blocks :: "('b, 'i) masm_item list \<Rightarrow> 'b list" where
  "bound_blocks [] = []"
| "bound_blocks (bind_deferred_code_label d # items) = d # bound_blocks items"
| "bound_blocks (item # items) = bound_blocks items"

section \<open>Deoptimization translations: \<^verbatim>\<open>MaglevTranslationArrayBuilder\<close> (maglev-code-generator.cc)\<close>

text \<open>
  The calls made on the \<^verbatim>\<open>TranslationArrayBuilder\<close>, in the order in which they are
  made, are the translation. Heap objects, builtins and bytecode offsets are numbers.
\<close>

type_synonym Object = nat

datatype TranslationOp =
    BeginTranslation int int int
  | AddUpdateFeedback int int
  | BeginInterpretedFrame int int int int int
  | BeginBuiltinContinuationFrame int int int
  | StoreOptimizedOut
  | StoreLiteral int
  | StoreRegister nat
  | StoreInt32Register nat
  | StoreUint32Register nat
  | StoreDoubleRegister nat
  | StoreStackSlot int
  | StoreInt32StackSlot int
  | StoreUint32StackSlot int
  | StoreDoubleStackSlot int

text \<open>
  The builder's two mutable members: the translation array and the identity map
  \<^verbatim>\<open>deopt_literals_\<close>, a list of objects in the order of their insertion, each mapped
  to its position.
\<close>

record translation_builder =
  translation :: "TranslationOp list"
  deopt_literals :: "Object list"

definition add_op :: "TranslationOp \<Rightarrow> translation_builder \<Rightarrow> translation_builder" where
  "add_op op b = b\<lparr>translation := translation b @ [op]\<rparr>"

fun index_of :: "Object \<Rightarrow> Object list \<Rightarrow> nat option" where
  "index_of obj [] = None"
| "index_of obj (x # xs) =
     (if x = obj then Some 0 else map_option Suc (index_of obj xs))"

definition GetDeoptLiteral :: "Object \<Rightarrow> translation_builder \<Rightarrow> int \<times> translation_builder" where
  "GetDeoptLiteral obj b =
     (case index_of obj (deopt_literals b) of
        Some i \<Rightarrow> (int i, b)
      | None \<Rightarrow> (int (length (deopt_literals b)),
                 b\<lparr>deopt_literals := deopt_literals b @ [obj]\<rparr>))"

text \<open>
  Value nodes, as far as the builder reads them: the representation, and the object
  that \<^verbatim>\<open>Reify\<close> returns for a constant. An input location is its operand: a constant,
  a register of either class, or a stack slot.
\<close>

datatype ValueRepresentation = kTagged | kInt32 | kUint32 | kFloat64 | kWord64

record ValueNode =
  value_representation :: ValueRepresentation
  Reify :: Object

datatype InputLocation =
    ConstantLocation
  | AnyRegisterLocation nat
  | AnyStackSlotLocation int

text \<open>
  Interpreter registers are their indices. Their special values and their parameter
  arithmetic are declared in bytecode-register.h, \<^verbatim>\<open>GetContinuationBytecodeOffset\<close> in
  builtins.h and \<^verbatim>\<open>GetFramePointerOffsetForStackSlot\<close> in the assembler's inline header,
  none of them among the sources: they are parameters, gathered in one record.
\<close>

record translation_consts =
  invalid_value :: int
  virtual_accumulator :: int
  is_parameter :: "int \<Rightarrow> bool"
  ToParameterIndex :: "int \<Rightarrow> int"
  GetContinuationBytecodeOffset :: "int \<Rightarrow> int"
  GetFramePointerOffsetForStackSlot :: "int \<Rightarrow> int"
  kFunctionOffset :: int

definition is_valid :: "translation_consts \<Rightarrow> int \<Rightarrow> bool" where
  "is_valid tc reg = (reg \<noteq> invalid_value tc)"

text \<open>
  Modelled from the spec: \<^verbatim>\<open>base::IsInRange\<close> (bounds.h) is not among the sources; a
  value is in the range when it lies between the two bounds, both included.
\<close>

definition IsInRange :: "int \<Rightarrow> int \<Rightarrow> int \<Rightarrow> bool" where
  "IsInRange v lower upper = (lower \<le> v \<and> v \<le> upper)"

definition InReturnValues :: "translation_consts \<Rightarrow> int \<Rightarrow> int \<Rightarrow> int \<Rightarrow> bool" where
  "InReturnValues tc reg result_location result_size =
     (if result_size = 0 \<or> \<not> is_valid tc result_location then False
      else IsInRange reg result_location (result_location + result_size - 1))"

text \<open>
  \<^verbatim>\<open>DeoptStackSlotIndexFromFPOffset\<close>: C++ integer division, which truncates.
\<close>

definition DeoptStackSlotIndexFromFPOffset :: "int \<Rightarrow> int" where
  "DeoptStackSlotIndexFromFPOffset offset = 1 - offset sdiv kSystemPointerSize"

definition DeoptStackSlotFromStackSlot :: "translation_consts \<Rightarrow> int \<Rightarrow> int" where
  "DeoptStackSlotFromStackSlot tc slot =
     DeoptStackSlotIndexFromFPOffset (GetFramePointerOffsetForStackSlot tc slot)"

definition BuildDeoptStoreRegister ::
  "nat \<Rightarrow> ValueRepresentation \<Rightarrow> translation_builder \<Rightarrow> fatal + translation_builder" where
  "BuildDeoptStoreRegister r repr b =
     (case repr of
        kWord64 \<Rightarrow> Inl Unreachable
      | kTagged \<Rightarrow> Inr (add_op (StoreRegister r) b)
      | kInt32 \<Rightarrow> Inr (add_op (StoreInt32Register r) b)
      | kUint32 \<Rightarrow> Inr (add_op (StoreUint32Register r) b)
      | kFloat64 \<Rightarrow> Inr (add_op (StoreDoubleRegister r) b))"

definition BuildDeoptStoreStackSlot ::
  "translation_consts \<Rightarrow> int \<Rightarrow> ValueRepresentation \<Rightarrow> translation_builder
     \<Rightarrow> fatal + translation_builder" where
  "BuildDeoptStoreStackSlot tc slot repr b =
     (let stack_slot = DeoptStackSlotFromStackSlot tc slot in
      case repr of
        kWord64 \<Rightarrow> Inl Unreachable
      | kTagged \<Rightarrow> Inr (add_op (StoreStackSlot stack_slot) b)
      | kInt32 \<Rightarrow> Inr (add_op (StoreInt32StackSlot stack_slot) b)
      | kUint32 \<Rightarrow> Inr (add_op (StoreUint32StackSlot stack_slot) b)
      | kFloat64 \<Rightarrow> Inr (add_op (StoreDoubleStackSlot stack_slot) b))"

definition BuildDeoptFrameSingleValue ::
  "translation_consts \<Rightarrow> ValueNode \<Rightarrow> InputLocation \<Rightarrow> translation_builder
     \<Rightarrow> fatal + translation_builder" where
  "BuildDeoptFrameSingleValue tc v input_location b =
     (case input_location of
        ConstantLocation \<Rightarrow>
          (let (lit, b1) = GetDeoptLiteral (Reify v) b in Inr (add_op (StoreLiteral lit) b1))
      | AnyRegisterLocation r \<Rightarrow> BuildDeoptStoreRegister r (value_representation v) b
      | AnyStackSlotLocation slot \<Rightarrow> BuildDeoptStoreStackSlot tc slot (value_representation v) b)"

text \<open>
  The pointer \<^verbatim>\<open>input_location\<close> walks an array: the state of a build is the part of the
  array in front of the pointer and the builder. The pair of statements
  \<^verbatim>\<open>BuildDeoptFrameSingleValue(value, *input_location); input_location++;\<close> is
  \<open>store_next_value\<close>; a read past the end of the array is fatal.
\<close>

type_synonym deopt_state = "InputLocation list \<times> translation_builder"

definition store_next_value ::
  "translation_consts \<Rightarrow> ValueNode \<Rightarrow> deopt_state \<Rightarrow> fatal + deopt_state" where
  "store_next_value tc v st =
     (case fst st of
        [] \<Rightarrow> Inl Fatal
      | input_location # rest \<Rightarrow>
          bindE (BuildDeoptFrameSingleValue tc v input_location (snd st)) (\<lambda>b. Inr (rest, b)))"

text \<open>
  A compilation unit and a frame state, as far as the builder reads them.
  \<^verbatim>\<open>ForEachParameter\<close> and \<^verbatim>\<open>ForEachLocal\<close> are iterations of a class that is not among
  the sources: the frame state holds the pairs of value and register that they pass
  to their callback, in the order of the calls (the live locals only, by rising index,
  as the \<^verbatim>\<open>DCHECK\<close>s of the callbacks say).
\<close>

record MaglevCompilationUnit =
  inlining_depth :: int
  register_count :: int
  parameter_count :: int
  shared_function_info :: Object
  function_object :: Object

record CompactInterpreterFrameState =
  ForEachParameter :: "(ValueNode \<times> int) list"
  frame_context :: ValueNode
  ForEachLocal :: "(ValueNode \<times> int) list"
  AccumulatorIsLive :: bool
  accumulator :: ValueNode

text \<open>The loop \<^verbatim>\<open>while (i < n) { StoreOptimizedOut(); i++; }\<close>.\<close>

function StoreOptimizedOut_while ::
  "int \<Rightarrow> int \<Rightarrow> translation_builder \<Rightarrow> int \<times> translation_builder" where
  "StoreOptimizedOut_while i n b =
     (if i < n then StoreOptimizedOut_while (i + 1) n (add_op StoreOptimizedOut b) else (i, b))"
  by pat_completeness auto
termination
  by (relation "measure (\<lambda>(i, n, b). nat (n - i))") auto

text \<open>The callback of \<^verbatim>\<open>ForEachParameter\<close>.\<close>

definition parameter_callback ::
  "translation_consts \<Rightarrow> int \<Rightarrow> int \<Rightarrow> ValueNode \<times> int \<Rightarrow> deopt_state \<Rightarrow> fatal + deopt_state" where
  "parameter_callback tc result_location result_size p st =
     (if InReturnValues tc (snd p) result_location result_size
      then Inr (fst st, add_op StoreOptimizedOut (snd st))
      else store_next_value tc (fst p) st)"

text \<open>The callback of \<^verbatim>\<open>ForEachLocal\<close>; the counter \<open>i\<close> is captured by reference.\<close>

definition local_callback ::
  "translation_consts \<Rightarrow> int \<Rightarrow> int \<Rightarrow> ValueNode \<times> int \<Rightarrow> int \<times> deopt_state
     \<Rightarrow> fatal + (int \<times> deopt_state)" where
  "local_callback tc result_location result_size p ist =
     (let i = fst ist; st = snd ist in
      if InReturnValues tc (snd p) result_location result_size then Inr (i, st)
      else (let (i1, b1) = StoreOptimizedOut_while i (snd p) (snd st) in
            bindE (store_next_value tc (fst p) (fst st, b1)) (\<lambda>st2. Inr (i1 + 1, st2))))"

fun for_each :: "('a \<Rightarrow> 's \<Rightarrow> fatal + 's) \<Rightarrow> 'a list \<Rightarrow> 's \<Rightarrow> fatal + 's" where
  "for_each f [] s = Inr s"
| "for_each f (x # xs) s = bindE (f x s) (for_each f xs)"

definition BuildDeoptFrameValues ::
  "translation_consts \<Rightarrow> MaglevCompilationUnit \<Rightarrow> CompactInterpreterFrameState \<Rightarrow> int \<Rightarrow> int
     \<Rightarrow> deopt_state \<Rightarrow> fatal + deopt_state" where
  "BuildDeoptFrameValues tc compilation_unit checkpoint_state result_location result_size st =
     (let st1 =
        (if inlining_depth compilation_unit = 0
         then (fst st, add_op (StoreStackSlot
                 (DeoptStackSlotIndexFromFPOffset (kFunctionOffset tc))) (snd st))
         else (let (lit, b1) = GetDeoptLiteral (function_object compilation_unit) (snd st)
               in (fst st, add_op (StoreLiteral lit) b1)))
      in
      bindE (for_each (parameter_callback tc result_location result_size)
               (ForEachParameter checkpoint_state) st1) (\<lambda>st2.
      bindE (store_next_value tc (frame_context checkpoint_state) st2) (\<lambda>st3.
      bindE (for_each (local_callback tc result_location result_size)
               (ForEachLocal checkpoint_state) (0, st3)) (\<lambda>(i, st4).
      (let (i5, b5) = StoreOptimizedOut_while i (register_count compilation_unit) (snd st4);
           st5 = (fst st4, b5)
       in
       if AccumulatorIsLive checkpoint_state \<and>
          \<not> InReturnValues tc (virtual_accumulator tc) result_location result_size
       then store_next_value tc (accumulator checkpoint_state) st5
       else Inr (fst st5, add_op StoreOptimizedOut (snd st5)))))))"

text \<open>Deopt frames: an interpreted frame or a builtin continuation, each with its parent.\<close>

datatype DeoptFrame =
    InterpretedDeoptFrame MaglevCompilationUnit CompactInterpreterFrameState int
      "DeoptFrame option"
  | BuiltinContinuationDeoptFrame int "ValueNode list" ValueNode "DeoptFrame option"

fun parent :: "DeoptFrame \<Rightarrow> DeoptFrame option" where
  "parent (InterpretedDeoptFrame u fs pos p) = p"
| "parent (BuiltinContinuationDeoptFrame builtin ps ctx p) = p"

fun GetFrameCount :: "DeoptFrame \<Rightarrow> int" where
  "GetFrameCount (InterpretedDeoptFrame u fs pos p) = 1 + inlining_depth u"
| "GetFrameCount (BuiltinContinuationDeoptFrame builtin ps ctx None) = 1"
| "GetFrameCount (BuiltinContinuationDeoptFrame builtin ps ctx (Some p)) = 1 + GetFrameCount p"

text \<open>
  The \<^verbatim>\<open>kBuiltinContinuationFrame\<close> case, which \<^verbatim>\<open>BuildDeoptFrame\<close> and
  \<^verbatim>\<open>BuildLazyDeopt\<close> share word for word. The frame's parent must be an interpreted
  frame: the source reads its shared function info without a check.
\<close>

definition build_builtin_continuation_frame ::
  "translation_consts \<Rightarrow> int \<Rightarrow> ValueNode list \<Rightarrow> ValueNode \<Rightarrow> DeoptFrame option
     \<Rightarrow> deopt_state \<Rightarrow> fatal + deopt_state" where
  "build_builtin_continuation_frame tc builtin ps ctx p st =
     (case p of
        Some (InterpretedDeoptFrame u fs pos pp) \<Rightarrow>
          (let (lit, b1) = GetDeoptLiteral (shared_function_info u) (snd st);
               b2 = add_op (BeginBuiltinContinuationFrame
                      (GetContinuationBytecodeOffset tc builtin) lit (int (length ps))) b1;
               b3 = add_op StoreOptimizedOut b2
           in bindE (for_each (store_next_value tc) ps (fst st, b3))
                (store_next_value tc ctx))
      | _ \<Rightarrow> Inl Fatal)"

fun BuildDeoptFrame :: "translation_consts \<Rightarrow> DeoptFrame \<Rightarrow> deopt_state \<Rightarrow> fatal + deopt_state" where
  "BuildDeoptFrame tc (InterpretedDeoptFrame u fs pos p) st =
     bindE (case p of None \<Rightarrow> Inr st | Some pf \<Rightarrow> BuildDeoptFrame tc pf st) (\<lambda>st1.
     (let return_offset = 0;
          return_count = 0;
          (lit, b1) = GetDeoptLiteral (shared_function_info u) (snd st1);
          b2 = add_op (BeginInterpretedFrame pos lit (register_count u)
                         return_offset return_count) b1
      in BuildDeoptFrameValues tc u fs (invalid_value tc) return_count (fst st1, b2)))"
| "BuildDeoptFrame tc (BuiltinContinuationDeoptFrame builtin ps ctx p) st =
     bindE (case p of None \<Rightarrow> Inr st | Some pf \<Rightarrow> BuildDeoptFrame tc pf st)
       (build_builtin_continuation_frame tc builtin ps ctx p)"

text \<open>
  Deopt infos. \<^verbatim>\<open>feedback_to_update\<close> is valid when it is there; it is a vector and an
  index.
\<close>

record EagerDeoptInfo =
  top_frame :: DeoptFrame
  feedback_to_update :: "(Object \<times> int) option"
  input_locations :: "InputLocation list"

record LazyDeoptInfo = EagerDeoptInfo +
  result_location :: int
  result_size :: int

text \<open>
  The head of a translation, which \<^verbatim>\<open>BuildEagerDeopt\<close> and \<^verbatim>\<open>BuildLazyDeopt\<close> share
  word for word.
\<close>

definition begin_translation ::
  "DeoptFrame \<Rightarrow> (Object \<times> int) option \<Rightarrow> translation_builder \<Rightarrow> translation_builder" where
  "begin_translation top_fr feedback b =
     (let frame_count = GetFrameCount top_fr;
          jsframe_count = frame_count;
          update_feedback_count = (if feedback \<noteq> None then 1 else 0);
          b1 = add_op (BeginTranslation frame_count jsframe_count update_feedback_count) b
      in case feedback of
           None \<Rightarrow> b1
         | Some (vector, index) \<Rightarrow>
             (let (lit, b2) = GetDeoptLiteral vector b1 in add_op (AddUpdateFeedback lit index) b2))"

definition BuildEagerDeopt ::
  "translation_consts \<Rightarrow> 'a EagerDeoptInfo_scheme \<Rightarrow> translation_builder \<Rightarrow> fatal + deopt_state" where
  "BuildEagerDeopt tc deopt_info b =
     BuildDeoptFrame tc (top_frame deopt_info)
       (input_locations deopt_info,
        begin_translation (top_frame deopt_info) (feedback_to_update deopt_info) b)"

definition BuildLazyDeopt ::
  "translation_consts \<Rightarrow> LazyDeoptInfo \<Rightarrow> translation_builder \<Rightarrow> fatal + deopt_state" where
  "BuildLazyDeopt tc deopt_info b =
     (let st0 = (input_locations deopt_info,
                 begin_translation (top_frame deopt_info) (feedback_to_update deopt_info) b)
      in
      bindE (case parent (top_frame deopt_info) of
               None \<Rightarrow> Inr st0
             | Some pf \<Rightarrow> BuildDeoptFrame tc pf st0) (\<lambda>st1.
      case top_frame deopt_info of
        InterpretedDeoptFrame u fs pos p \<Rightarrow>
          (let return_offset =
                 (if result_location deopt_info = virtual_accumulator tc then 0
                  else if is_parameter tc (result_location deopt_info)
                  then register_count u + parameter_count u
                         - ToParameterIndex tc (result_location deopt_info)
                  else register_count u - result_location deopt_info);
               (lit, b1) = GetDeoptLiteral (shared_function_info u) (snd st1);
               b2 = add_op (BeginInterpretedFrame pos lit (register_count u)
                              return_offset (result_size deopt_info)) b1
           in BuildDeoptFrameValues tc u fs (result_location deopt_info)
                (result_size deopt_info) (fst st1, b2))
      | BuiltinContinuationDeoptFrame builtin ps ctx p \<Rightarrow>
          build_builtin_continuation_frame tc builtin ps ctx p st1))"

text \<open>
  What claim C8 says of a frame, in its own words: the slots of the frame in the order
  of the translation, each either elided or captured. A slot in the result range
  \<open>result_location .. result_location + result_size - 1\<close> is elided; outside of the
  range a slot is treated as without any range: a live value is captured, and a local
  or an accumulator that is not live has nothing to capture and is elided.
\<close>

datatype slot_plan = Elided | Capture ValueNode

definition result_range :: "translation_consts \<Rightarrow> int \<Rightarrow> int \<Rightarrow> int set" where
  "result_range tc location size_arg =
     (if is_valid tc location
      then {location .. location + size_arg - 1} else {})"

definition local_slot_plan ::
  "translation_consts \<Rightarrow> (ValueNode \<times> int) list \<Rightarrow> int \<Rightarrow> int \<Rightarrow> int \<Rightarrow> slot_plan" where
  "local_slot_plan tc live location size_arg j =
     (if j \<in> result_range tc location size_arg then Elided
      else (case find (\<lambda>p. snd p = j) live of
              Some p \<Rightarrow> Capture (fst p)
            | None \<Rightarrow> Elided))"

definition frame_slot_plan ::
  "translation_consts \<Rightarrow> MaglevCompilationUnit \<Rightarrow> CompactInterpreterFrameState \<Rightarrow> int \<Rightarrow> int
     \<Rightarrow> slot_plan list" where
  "frame_slot_plan tc u fs location size_arg =
     map (\<lambda>p. if snd p \<in> result_range tc location size_arg
              then Elided else Capture (fst p)) (ForEachParameter fs) @
     [Capture (frame_context fs)] @
     map (local_slot_plan tc (ForEachLocal fs) location size_arg)
       [0 .. register_count u - 1] @
     [if AccumulatorIsLive fs \<and>
         virtual_accumulator tc \<notin> result_range tc location size_arg
      then Capture (accumulator fs) else Elided]"

definition serialize_slot :: "translation_consts \<Rightarrow> slot_plan \<Rightarrow> deopt_state \<Rightarrow> fatal + deopt_state" where
  "serialize_slot tc p st =
     (case p of
        Elided \<Rightarrow> Inr (fst st, add_op StoreOptimizedOut (snd st))
      | Capture v \<Rightarrow> store_next_value tc v st)"

definition no_return_slot :: "TranslationOp \<Rightarrow> bool" where
  "no_return_slot op =
     (case op of
        BeginInterpretedFrame pos lit regs return_offset return_count \<Rightarrow>
          return_offset = 0 \<and> return_count = 0
      | _ \<Rightarrow> True)"

text \<open>
  A builder grows into another by operations that record no return-value slot when the
  second translation is the first with such operations appended.
\<close>

definition grows :: "translation_builder \<Rightarrow> translation_builder \<Rightarrow> bool" where
  "grows b b' \<longleftrightarrow> (\<exists>ops. translation b' = translation b @ ops \<and> list_all no_return_slot ops)"

text \<open>
  The closure entry with which \<^verbatim>\<open>BuildDeoptFrameValues\<close> begins: the function's stack
  slot in the outermost unit, a literal in an inlined one.
\<close>

definition store_closure :: "translation_consts \<Rightarrow> MaglevCompilationUnit \<Rightarrow> deopt_state \<Rightarrow> deopt_state" where
  "store_closure tc u st =
     (if inlining_depth u = 0
      then (fst st, add_op (StoreStackSlot
              (DeoptStackSlotIndexFromFPOffset (kFunctionOffset tc))) (snd st))
      else (fst st, add_op (StoreLiteral (fst (GetDeoptLiteral (function_object u) (snd st))))
              (snd (GetDeoptLiteral (function_object u) (snd st)))))"

text \<open>
  The slots of a builtin continuation frame, in the order of the translation: the
  closure, which is elided in every translation, then the parameters and the context,
  which are captured. The frame has no interpreter register, so none of its slots is
  in the result range of a call.
\<close>

definition builtin_continuation_slot_plan :: "ValueNode list \<Rightarrow> ValueNode \<Rightarrow> slot_plan list" where
  "builtin_continuation_slot_plan ps ctx = Elided # map Capture ps @ [Capture ctx]"

section \<open>Frames: \<^verbatim>\<open>AssembleConstructFrame\<close> and \<^verbatim>\<open>AssembleReturn\<close> (code-generator-x64.cc)\<close>

text \<open>
  The frame code emits, besides the instructions of the fragment above, three macros
  of the macro assembler, the tail of a return site as one item, and the jump to the
  canonical return site. Modelled from the spec: \<^verbatim>\<open>Prologue\<close> and \<^verbatim>\<open>StubPrologue\<close>
  (macro-assembler-x64.cc) are not among the sources; both push and establish the
  frame pointer, the first then pushes the context, the function and the argument
  count (\<open>rsi\<close>, \<open>rdi\<close>, \<open>rax\<close>), the second the frame's type marker.
\<close>

datatype return_tail =
    Ret_js_arguments int
  | Ret_immediate int
  | Ret_register Register

datatype frame_instr =
    Plain x64_instr
  | Prologue
  | StubPrologue
  | Abort_instr
  | jmp_return_label
  | bind_return_label
  | ReturnSequence return_tail

definition kQuadWordSize :: int where
  "kQuadWordSize = 16"

definition kArgCOffset :: int where
  "kArgCOffset = - 24"

definition rax :: Register where "rax = 0"
definition rcx :: Register where "rcx = 1"
definition rsi :: Register where "rsi = 6"
definition rdi :: Register where "rdi = 7"
definition r10 :: Register where "r10 = 10"

fun frame_step :: "64 word \<Rightarrow> frame_instr \<Rightarrow> x64_state \<Rightarrow> x64_state" where
  "frame_step marker (Plain i) s = x64_step i s"
| "frame_step marker Prologue s =
     x64_step (pushq rax) (x64_step (pushq rdi) (x64_step (pushq rsi)
       (x64_step movq_rbp_rsp (x64_step pushq_rbp s))))"
| "frame_step marker StubPrologue s =
     (let s1 = x64_step movq_rbp_rsp (x64_step pushq_rbp s)
      in s1\<lparr>rsp := rsp s1 - 8, mem := (mem s1)(rsp s1 - 8 := marker)\<rparr>)"
| "frame_step marker i s = s"

text \<open>
  Running frame code. The run stops in front of the tail of a return site, so that its
  result is the state in which the function is about to return; it stops at an abort;
  and a jump to the return label goes on with the code that follows the label, which
  the caller of \<open>frame_run\<close> supplies.
\<close>

function frame_run :: "64 word \<Rightarrow> frame_instr list \<Rightarrow> frame_instr list \<Rightarrow> x64_state \<Rightarrow> x64_state" where
  "frame_run marker at_label [] s = s"
| "frame_run marker at_label (ReturnSequence t # is) s = s"
| "frame_run marker at_label (Abort_instr # is) s = s"
| "frame_run marker at_label (jmp_return_label # is) s = frame_run marker [] at_label s"
| "frame_run marker at_label (Plain i # is) s =
     frame_run marker at_label is (frame_step marker (Plain i) s)"
| "frame_run marker at_label (Prologue # is) s =
     frame_run marker at_label is (frame_step marker Prologue s)"
| "frame_run marker at_label (StubPrologue # is) s =
     frame_run marker at_label is (frame_step marker StubPrologue s)"
| "frame_run marker at_label (bind_return_label # is) s =
     frame_run marker at_label is (frame_step marker bind_return_label s)"
  by pat_completeness auto
termination
  by (relation "measure (\<lambda>(marker, at_label, code, s). length at_label + length code)") auto

text \<open>
  What the two functions read: the incoming call descriptor (its kind, its
  callee-saved registers of both classes, each a register list walked by rising code,
  and its parameter slot count), the frame, and the compilation info. The build is
  one without WebAssembly; the blocks under \<^verbatim>\<open>V8_ENABLE_WEBASSEMBLY\<close> are left out.
\<close>

datatype call_kind = CFunctionCall | JSFunctionCall | OtherCall

record frame_descriptor =
  has_frame :: bool
  kind :: call_kind
  CalleeSavedRegisters :: "Register list"
  CalleeSavedFPRegisters :: "XMMRegister list"
  ParameterSlotCount :: int
  GetTotalFrameSlotCount :: int
  GetFixedSlotCount :: int
  GetReturnSlotCount :: int
  is_osr :: bool
  UnoptimizedFrameSlots :: int
  frame_debug_code :: bool

text \<open>\<^verbatim>\<open>AssembleDeconstructFrame\<close>.\<close>

definition AssembleDeconstructFrame :: "frame_instr list" where
  "AssembleDeconstructFrame = [Plain movq_rsp_rbp, Plain popq_rbp]"

text \<open>The loop over \<^verbatim>\<open>saves_fp\<close> with its counter \<^verbatim>\<open>slot_idx\<close>, storing or loading.\<close>

fun fp_slots :: "(int \<Rightarrow> XMMRegister \<Rightarrow> x64_instr) \<Rightarrow> int \<Rightarrow> XMMRegister list \<Rightarrow> frame_instr list" where
  "fp_slots f slot_idx [] = []"
| "fp_slots f slot_idx (reg # regs) =
     Plain (f (kQuadWordSize * slot_idx) reg) # fp_slots f (slot_idx + 1) regs"

definition AssembleConstructFrame :: "frame_descriptor \<Rightarrow> frame_instr list" where
  "AssembleConstructFrame d =
     (if has_frame d then
        (case kind d of
           CFunctionCall \<Rightarrow> [Plain pushq_rbp, Plain movq_rbp_rsp]
         | JSFunctionCall \<Rightarrow> [Prologue]
         | OtherCall \<Rightarrow> [StubPrologue])
      else []) @
     (let required_slots0 = GetTotalFrameSlotCount d - GetFixedSlotCount d;
          required_slots1 = (if is_osr d then required_slots0 - UnoptimizedFrameSlots d
                             else required_slots0);
          saves = CalleeSavedRegisters d;
          saves_fp = CalleeSavedFPRegisters d
      in
      (if is_osr d then [Abort_instr] else []) @
      (if required_slots1 > 0 then
         (let required_slots2 = required_slots1 - int (length saves)
                - int (length saves_fp) * (kQuadWordSize sdiv kSystemPointerSize)
                - GetReturnSlotCount d
          in if required_slots2 > 0
             then [Plain (AllocateStackSpace (required_slots2 * kSystemPointerSize))] else [])
       else []) @
      (if saves_fp \<noteq> [] then
         Plain (AllocateStackSpace (int (length saves_fp) * kQuadWordSize)) #
         fp_slots Movdqu_store 0 saves_fp
       else []) @
      (if saves \<noteq> [] then map (\<lambda>reg. Plain (pushq reg)) (rev saves) else []) @
      (if GetReturnSlotCount d > 0
       then [Plain (AllocateStackSpace (GetReturnSlotCount d * kSystemPointerSize))] else []))"

datatype pop_count = ImmediatePopCount int | RegisterPopCount Register

text \<open>
  \<^verbatim>\<open>AssembleReturn\<close>. \<open>return_label_is_bound\<close> is the state of the member
  \<^verbatim>\<open>return_label_\<close>; the function returns it with the code. The compare and the
  assertion that \<^verbatim>\<open>debug_code\<close> adds in front of the frame's deconstruction read a
  register and change none; they are left out.
\<close>

definition AssembleReturn ::
  "frame_descriptor \<Rightarrow> pop_count \<Rightarrow> bool \<Rightarrow> frame_instr list \<times> bool" where
  "AssembleReturn d additional_pop_count return_label_is_bound =
     (let saves = CalleeSavedRegisters d;
          saves_fp = CalleeSavedFPRegisters d;
          restore =
            (if saves \<noteq> [] then
               (let returns = GetReturnSlotCount d in
                (if returns \<noteq> 0 then [Plain (addq_rsp (returns * kSystemPointerSize))] else []) @
                map (\<lambda>reg. Plain (popq reg)) saves)
             else []) @
            (if saves_fp \<noteq> [] then
               fp_slots (\<lambda>disp reg. Movdqu_load reg disp) 0 saves_fp @
               [Plain (addq_rsp (int (length saves_fp) * kQuadWordSize))]
             else []);
          parameter_slots = ParameterSlotCount d;
          argc_reg = rcx;
          drop_jsargs = (parameter_slots \<noteq> 0 \<and> has_frame d \<and> kind d = JSFunctionCall);
          tail =
            (if drop_jsargs then [ReturnSequence (Ret_js_arguments parameter_slots)]
             else (case additional_pop_count of
                     ImmediatePopCount additional_count \<Rightarrow>
                       [ReturnSequence (Ret_immediate
                          ((parameter_slots + additional_count) * kSystemPointerSize))]
                   | RegisterPopCount pop_reg \<Rightarrow> [ReturnSequence (Ret_register pop_reg)]))
      in
      if kind d = CFunctionCall then
        (restore @ AssembleDeconstructFrame @ tail, return_label_is_bound)
      else if has_frame d then
        (if additional_pop_count = ImmediatePopCount 0 \<and> return_label_is_bound then
           (restore @ [jmp_return_label], return_label_is_bound)
         else
           (restore @
            (if additional_pop_count = ImmediatePopCount 0 then [bind_return_label] else []) @
            (if drop_jsargs then [Plain (movq_load_rbp argc_reg kArgCOffset)] else []) @
            AssembleDeconstructFrame @ tail,
            additional_pop_count = ImmediatePopCount 0 \<or> return_label_is_bound))
      else (restore @ tail, return_label_is_bound))"

section \<open>Parallel moves: \<^verbatim>\<open>ParallelMoveResolver\<close> (maglev-code-generator.cc)\<close>

text \<open>
  The class is a template over the register class. A register is its code; the two
  constants of \<^verbatim>\<open>RegisterTHelper\<close>, the scratch register and the list of allocatable
  registers (a register list, walked by rising code), are declared in a header that is
  not among the sources and are the fields of a record. A stack slot is its
  frame-pointer offset, the \<^verbatim>\<open>int32_t\<close> that \<^verbatim>\<open>GetFramePointerOffsetForStackSlot\<close>
  returns; offsets are only compared, never computed with. A location, the
  \<^verbatim>\<open>SourceT\<close> and \<^verbatim>\<open>ChainStartT\<close> of the template functions, is a register or a
  stack slot. A value node is a number.
\<close>

record RegisterTHelper =
  kScratch :: nat
  kAllocatableRegisters :: "nat list"

datatype location = InRegister nat | InStackSlot int

type_synonym node = nat

text \<open>
  \<^verbatim>\<open>GapMoveTargets\<close>: a register list, which is a bit set and is kept here as the
  list of its members by rising code, and a vector of stack slots.
\<close>

record GapMoveTargets =
  registers :: "nat list"
  stack_slots :: "int list"

definition no_targets :: GapMoveTargets where
  "no_targets = \<lparr>registers = [], stack_slots = []\<rparr>"

definition is_empty :: "GapMoveTargets \<Rightarrow> bool" where
  "is_empty targets \<longleftrightarrow> registers targets = [] \<and> stack_slots targets = []"

definition reglist_set :: "nat \<Rightarrow> nat list \<Rightarrow> nat list" where
  "reglist_set r rs = (if r \<in> set rs then rs else insort r rs)"

definition target_locations :: "GapMoveTargets \<Rightarrow> location list" where
  "target_locations targets =
     map InRegister (registers targets) @ map InStackSlot (stack_slots targets)"

text \<open>
  The members of the class. \<^verbatim>\<open>moves_from_register_\<close> is an array indexed by the
  register code. \<^verbatim>\<open>moves_from_stack_slot_\<close> is an unordered map: an association list,
  whose first entry is the one that \<^verbatim>\<open>begin()\<close> returns. The order of an unordered
  map is unspecified; the theorems below hold for every order of the list.
\<close>

record resolver =
  moves_from_register :: "nat \<Rightarrow> GapMoveTargets"
  moves_from_stack_slot :: "(int \<times> GapMoveTargets) list"
  materializing_register_moves :: "nat \<Rightarrow> node option"
  materializing_stack_slot_moves :: "(int \<times> node) list"
  scratch_has_cycle_start :: bool

definition new_resolver :: resolver where
  "new_resolver =
     \<lparr>moves_from_register = (\<lambda>r. no_targets), moves_from_stack_slot = [],
      materializing_register_moves = (\<lambda>r. None), materializing_stack_slot_moves = [],
      scratch_has_cycle_start = False\<rparr>"

text \<open>
  The assembler calls of the class. \<^verbatim>\<open>Move(dst, src)\<close> has a form for each pair of
  kinds; \<^verbatim>\<open>LoadToRegister\<close> materialises the constant of a node in a register.
  \<^verbatim>\<open>RecordComment\<close> emits no instruction and is left out.
\<close>

datatype move_instr =
    Move_reg_reg nat nat
  | Move_reg_slot nat int
  | Move_slot_reg int nat
  | Push nat
  | Pop nat
  | LoadToRegister node nat

subsection \<open>Recording\<close>

text \<open>
  The source of a move is an instruction operand: a register, a stack slot or a
  constant. The target is an allocated operand, that is a location. A recorded move is
  the triple of the arguments of \<^verbatim>\<open>RecordMove\<close>.
\<close>

datatype move_source = Register_source nat | StackSlot_source int | Constant_source

type_synonym gap_move = "node \<times> move_source \<times> location"

text \<open>
  The checks of a debug build, \<^verbatim>\<open>FATAL\<close> when they fail; in a release build they are
  empty. \<open>debug\<close> is the build.
\<close>

definition CheckNoExistingMoveToRegister :: "RegisterTHelper \<Rightarrow> resolver \<Rightarrow> nat \<Rightarrow> bool" where
  "CheckNoExistingMoveToRegister h st target_reg \<longleftrightarrow>
     list_all (\<lambda>reg. target_reg \<notin> set (registers (moves_from_register st reg)))
       (kAllocatableRegisters h) \<and>
     list_all (\<lambda>entry. target_reg \<notin> set (registers (snd entry))) (moves_from_stack_slot st) \<and>
     materializing_register_moves st target_reg = None"

definition CheckNoExistingMoveToStackSlot :: "RegisterTHelper \<Rightarrow> resolver \<Rightarrow> int \<Rightarrow> bool" where
  "CheckNoExistingMoveToStackSlot h st target_slot \<longleftrightarrow>
     list_all (\<lambda>reg. target_slot \<notin> set (stack_slots (moves_from_register st reg)))
       (kAllocatableRegisters h) \<and>
     list_all (\<lambda>entry. target_slot \<notin> set (stack_slots (snd entry))) (moves_from_stack_slot st) \<and>
     list_all (\<lambda>entry. fst entry \<noteq> target_slot) (materializing_stack_slot_moves st)"

text \<open>
  \<^verbatim>\<open>moves_from_stack_slot_[source_slot]\<close> followed by a change of the entry: the entry
  of the key is changed where it is, and a key that is new gets an entry made from the
  empty targets.
\<close>

fun update_slot_entry ::
  "int \<Rightarrow> (GapMoveTargets \<Rightarrow> GapMoveTargets) \<Rightarrow> (int \<times> GapMoveTargets) list
     \<Rightarrow> (int \<times> GapMoveTargets) list" where
  "update_slot_entry k f [] = [(k, f no_targets)]"
| "update_slot_entry k f (e # es) =
     (if fst e = k then (k, f (snd e)) # es else e # update_slot_entry k f es)"

definition RecordMoveToRegister ::
  "bool \<Rightarrow> RegisterTHelper \<Rightarrow> resolver \<Rightarrow> node \<Rightarrow> move_source \<Rightarrow> nat \<Rightarrow> fatal + resolver" where
  "RecordMoveToRegister debug h st n source target_reg =
     (if debug \<and> \<not> CheckNoExistingMoveToRegister h st target_reg then Inl Fatal
      else Inr
        (case source of
           Register_source source_reg \<Rightarrow>
             (if target_reg \<noteq> source_reg
              then st\<lparr>moves_from_register := (moves_from_register st)
                     (source_reg := (moves_from_register st source_reg)
                        \<lparr>registers := reglist_set target_reg
                           (registers (moves_from_register st source_reg))\<rparr>)\<rparr>
              else st)
         | StackSlot_source source_slot \<Rightarrow>
             st\<lparr>moves_from_stack_slot := update_slot_entry source_slot
                  (\<lambda>targets. targets\<lparr>registers := reglist_set target_reg (registers targets)\<rparr>)
                  (moves_from_stack_slot st)\<rparr>
         | Constant_source \<Rightarrow>
             st\<lparr>materializing_register_moves :=
                  (materializing_register_moves st)(target_reg := Some n)\<rparr>))"

definition RecordMoveToStackSlot ::
  "bool \<Rightarrow> RegisterTHelper \<Rightarrow> resolver \<Rightarrow> node \<Rightarrow> move_source \<Rightarrow> int \<Rightarrow> fatal + resolver" where
  "RecordMoveToStackSlot debug h st n source target_slot =
     (if debug \<and> \<not> CheckNoExistingMoveToStackSlot h st target_slot then Inl Fatal
      else Inr
        (case source of
           Register_source source_reg \<Rightarrow>
             st\<lparr>moves_from_register := (moves_from_register st)
                  (source_reg := (moves_from_register st source_reg)
                     \<lparr>stack_slots := stack_slots (moves_from_register st source_reg)
                                       @ [target_slot]\<rparr>)\<rparr>
         | StackSlot_source source_slot \<Rightarrow>
             (if source_slot \<noteq> target_slot
              then st\<lparr>moves_from_stack_slot := update_slot_entry source_slot
                     (\<lambda>targets. targets\<lparr>stack_slots := stack_slots targets @ [target_slot]\<rparr>)
                     (moves_from_stack_slot st)\<rparr>
              else st)
         | Constant_source \<Rightarrow>
             st\<lparr>materializing_stack_slot_moves :=
                  materializing_stack_slot_moves st @ [(target_slot, n)]\<rparr>))"

definition RecordMove :: "bool \<Rightarrow> RegisterTHelper \<Rightarrow> resolver \<Rightarrow> gap_move \<Rightarrow> fatal + resolver" where
  "RecordMove debug h st mv =
     (case snd (snd mv) of
        InRegister target_reg \<Rightarrow> RecordMoveToRegister debug h st (fst mv) (fst (snd mv)) target_reg
      | InStackSlot target_slot \<Rightarrow>
          RecordMoveToStackSlot debug h st (fst mv) (fst (snd mv)) target_slot)"

text \<open>The moves of a gap, recorded one after the other.\<close>

fun RecordMoves :: "bool \<Rightarrow> RegisterTHelper \<Rightarrow> gap_move list \<Rightarrow> resolver \<Rightarrow> fatal + resolver" where
  "RecordMoves debug h [] st = Inr st"
| "RecordMoves debug h (mv # mvs) st =
     (case RecordMove debug h st mv of
        Inl e \<Rightarrow> Inl e
      | Inr st1 \<Rightarrow> RecordMoves debug h mvs st1)"

subsection \<open>Emitting\<close>

text \<open>
  \<^verbatim>\<open>PopTargets\<close>, in its two overloads: the array entry is exchanged for the empty
  targets, the map entry is extracted.
\<close>

definition PopTargets :: "resolver \<Rightarrow> location \<Rightarrow> GapMoveTargets \<times> resolver" where
  "PopTargets st source =
     (case source of
        InRegister source_reg \<Rightarrow>
          (moves_from_register st source_reg,
           st\<lparr>moves_from_register := (moves_from_register st)(source_reg := no_targets)\<rparr>)
      | InStackSlot source_slot \<Rightarrow>
          (case map_of (moves_from_stack_slot st) source_slot of
             None \<Rightarrow> (no_targets, st)
           | Some targets \<Rightarrow>
               (targets,
                st\<lparr>moves_from_stack_slot :=
                     filter (\<lambda>entry. fst entry \<noteq> source_slot) (moves_from_stack_slot st)\<rparr>)))"

text \<open>\<^verbatim>\<open>EmitMovesFromSource\<close> from a register.\<close>

definition EmitMovesFromSource_register :: "nat \<Rightarrow> GapMoveTargets \<Rightarrow> move_instr list" where
  "EmitMovesFromSource_register source_reg targets =
     map (\<lambda>target_reg. Move_reg_reg target_reg source_reg) (registers targets) @
     map (\<lambda>target_slot. Move_slot_reg target_slot source_reg) (stack_slots targets)"

text \<open>
  \<^verbatim>\<open>EmitMovesFromSource\<close> from a stack slot: the value is cached in the first target
  register, or in the scratch register, whose content is pushed when it holds the
  start of a cycle.
\<close>

definition EmitMovesFromSource_stack_slot ::
  "RegisterTHelper \<Rightarrow> int \<Rightarrow> GapMoveTargets \<Rightarrow> resolver \<Rightarrow> move_instr list \<times> resolver" where
  "EmitMovesFromSource_stack_slot h source_slot targets st =
     (if registers targets \<noteq> [] then
        (let register_with_slot_value = hd (registers targets);
             rest = targets\<lparr>registers := tl (registers targets)\<rparr>
         in (Move_reg_slot register_with_slot_value source_slot #
             EmitMovesFromSource_register register_with_slot_value rest, st))
      else
        (let (pushed, st1) =
               (if scratch_has_cycle_start st
                then ([Push (kScratch h)], st\<lparr>scratch_has_cycle_start := False\<rparr>)
                else ([], st))
         in (pushed @ Move_reg_slot (kScratch h) source_slot #
             EmitMovesFromSource_register (kScratch h) targets, st1)))"

definition EmitMovesFromSource ::
  "RegisterTHelper \<Rightarrow> location \<Rightarrow> GapMoveTargets \<Rightarrow> resolver \<Rightarrow> move_instr list \<times> resolver" where
  "EmitMovesFromSource h source targets st =
     (case source of
        InRegister source_reg \<Rightarrow> (EmitMovesFromSource_register source_reg targets, st)
      | InStackSlot source_slot \<Rightarrow> EmitMovesFromSource_stack_slot h source_slot targets st)"

definition Move_to_register :: "nat \<Rightarrow> location \<Rightarrow> move_instr" where
  "Move_to_register dst source =
     (case source of
        InRegister r \<Rightarrow> Move_reg_reg dst r
      | InStackSlot s \<Rightarrow> Move_reg_slot dst s)"

text \<open>
  \<^verbatim>\<open>ContinueEmitMoveChain\<close> and \<^verbatim>\<open>RecursivelyEmitMoveChainTargets\<close> call each other.
  The recursion follows the move graph, which the calls consume; it is written with
  fuel, one unit for each level of \<^verbatim>\<open>ContinueEmitMoveChain\<close>, and \<open>None\<close> is fuel that
  ran out. The results are the flag \<^verbatim>\<open>has_cycle\<close>, the code emitted and the resolver.
\<close>

fun ContinueEmitMoveChain ::
      "RegisterTHelper \<Rightarrow> nat \<Rightarrow> location \<Rightarrow> location \<Rightarrow> resolver
         \<Rightarrow> (bool \<times> move_instr list \<times> resolver) option"
  and RecursivelyEmitMoveChainTargets ::
      "RegisterTHelper \<Rightarrow> nat \<Rightarrow> location \<Rightarrow> location list \<Rightarrow> resolver
         \<Rightarrow> (bool \<times> move_instr list \<times> resolver) option" where
  "ContinueEmitMoveChain h 0 chain_start source st = None"
| "ContinueEmitMoveChain h (Suc fuel) chain_start source st =
     (if chain_start = source then
        Some (True, [Move_to_register (kScratch h) chain_start],
              st\<lparr>scratch_has_cycle_start := True\<rparr>)
      else
        (let (targets, st1) = PopTargets st source in
         if is_empty targets then Some (False, [], st1)
         else
           (case RecursivelyEmitMoveChainTargets h fuel chain_start
                   (target_locations targets) st1 of
              None \<Rightarrow> None
            | Some (has_cycle, code, st2) \<Rightarrow>
                (let (code', st3) = EmitMovesFromSource h source targets st2
                 in Some (has_cycle, code @ code', st3)))))"
| "RecursivelyEmitMoveChainTargets h fuel chain_start [] st = Some (False, [], st)"
| "RecursivelyEmitMoveChainTargets h fuel chain_start (target # targets) st =
     (case ContinueEmitMoveChain h fuel chain_start target st of
        None \<Rightarrow> None
      | Some (has_cycle1, code1, st1) \<Rightarrow>
          (case RecursivelyEmitMoveChainTargets h fuel chain_start targets st1 of
             None \<Rightarrow> None
           | Some (has_cycle2, code2, st2) \<Rightarrow>
               Some (has_cycle1 \<or> has_cycle2, code1 @ code2, st2)))"

definition StartEmitMoveChain ::
  "RegisterTHelper \<Rightarrow> nat \<Rightarrow> location \<Rightarrow> resolver \<Rightarrow> (move_instr list \<times> resolver) option" where
  "StartEmitMoveChain h fuel source st =
     (let (targets, st1) = PopTargets st source in
      if is_empty targets then Some ([], st1)
      else
        (case RecursivelyEmitMoveChainTargets h fuel source (target_locations targets) st1 of
           None \<Rightarrow> None
         | Some (has_cycle, code, st2) \<Rightarrow>
             if has_cycle then
               (let (popped, st3) =
                      (if \<not> scratch_has_cycle_start st2
                       then ([Pop (kScratch h)], st2\<lparr>scratch_has_cycle_start := True\<rparr>)
                       else ([], st2))
                in Some (code @ popped @ EmitMovesFromSource_register (kScratch h) targets,
                         st3\<lparr>scratch_has_cycle_start := False\<rparr>))
             else
               (let (code', st3) = EmitMovesFromSource h source targets st2
                in Some (code @ code', st3))))"

text \<open>The three loops of \<^verbatim>\<open>EmitMoves\<close>, and \<^verbatim>\<open>EmitMoves\<close>.\<close>

fun emit_register_chains ::
  "RegisterTHelper \<Rightarrow> nat \<Rightarrow> nat list \<Rightarrow> resolver \<Rightarrow> (move_instr list \<times> resolver) option" where
  "emit_register_chains h fuel [] st = Some ([], st)"
| "emit_register_chains h fuel (reg # regs) st =
     (case StartEmitMoveChain h fuel (InRegister reg) st of
        None \<Rightarrow> None
      | Some (code1, st1) \<Rightarrow>
          (let code2 = (case materializing_register_moves st1 reg of
                          None \<Rightarrow> []
                        | Some materializing_register_move \<Rightarrow>
                            [LoadToRegister materializing_register_move reg])
           in case emit_register_chains h fuel regs st1 of
                None \<Rightarrow> None
              | Some (code3, st3) \<Rightarrow> Some (code1 @ code2 @ code3, st3)))"

fun emit_stack_slot_chains ::
  "RegisterTHelper \<Rightarrow> nat \<Rightarrow> resolver \<Rightarrow> (move_instr list \<times> resolver) option" where
  "emit_stack_slot_chains h 0 st =
     (if moves_from_stack_slot st = [] then Some ([], st) else None)"
| "emit_stack_slot_chains h (Suc fuel) st =
     (if moves_from_stack_slot st = [] then Some ([], st)
      else
        (case StartEmitMoveChain h fuel (InStackSlot (fst (hd (moves_from_stack_slot st)))) st of
           None \<Rightarrow> None
         | Some (code1, st1) \<Rightarrow>
             (case emit_stack_slot_chains h fuel st1 of
                None \<Rightarrow> None
              | Some (code2, st2) \<Rightarrow> Some (code1 @ code2, st2))))"

definition emit_materializing_stack_slot_moves ::
  "RegisterTHelper \<Rightarrow> (int \<times> node) list \<Rightarrow> move_instr list" where
  "emit_materializing_stack_slot_moves h moves =
     concat (map (\<lambda>entry. [LoadToRegister (snd entry) (kScratch h),
                            Move_slot_reg (fst entry) (kScratch h)]) moves)"

definition EmitMoves ::
  "RegisterTHelper \<Rightarrow> nat \<Rightarrow> resolver \<Rightarrow> (move_instr list \<times> resolver) option" where
  "EmitMoves h fuel st =
     (case emit_register_chains h fuel (kAllocatableRegisters h) st of
        None \<Rightarrow> None
      | Some (code1, st1) \<Rightarrow>
          (case emit_stack_slot_chains h fuel st1 of
             None \<Rightarrow> None
           | Some (code2, st2) \<Rightarrow>
               Some (code1 @ code2 @
                     emit_materializing_stack_slot_moves h (materializing_stack_slot_moves st2),
                     st2)))"

subsection \<open>The machine that runs the moves\<close>

text \<open>
  The reference interpreter: registers and stack slots hold values, the native stack
  is a list, and the constant of a node is given by \<open>cv\<close>. The stack slots are found by
  their frame-pointer offset, so a push does not move them. A pop from the empty stack
  fails. \<open>run_moves_bounded\<close> also fails when a push would make the native stack
  longer than \<open>limit\<close>.
\<close>

record 'v machine =
  reg_value :: "nat \<Rightarrow> 'v"
  slot_value :: "int \<Rightarrow> 'v"
  native_stack :: "'v list"

fun run_move :: "(node \<Rightarrow> 'v) \<Rightarrow> move_instr \<Rightarrow> 'v machine \<Rightarrow> 'v machine option" where
  "run_move cv (Move_reg_reg dst src) m =
     Some (m\<lparr>reg_value := (reg_value m)(dst := reg_value m src)\<rparr>)"
| "run_move cv (Move_reg_slot dst src) m =
     Some (m\<lparr>reg_value := (reg_value m)(dst := slot_value m src)\<rparr>)"
| "run_move cv (Move_slot_reg dst src) m =
     Some (m\<lparr>slot_value := (slot_value m)(dst := reg_value m src)\<rparr>)"
| "run_move cv (Push r) m = Some (m\<lparr>native_stack := reg_value m r # native_stack m\<rparr>)"
| "run_move cv (Pop r) m =
     (case native_stack m of
        [] \<Rightarrow> None
      | v # rest \<Rightarrow> Some (m\<lparr>reg_value := (reg_value m)(r := v), native_stack := rest\<rparr>))"
| "run_move cv (LoadToRegister n r) m =
     Some (m\<lparr>reg_value := (reg_value m)(r := cv n)\<rparr>)"

fun run_moves :: "(node \<Rightarrow> 'v) \<Rightarrow> move_instr list \<Rightarrow> 'v machine \<Rightarrow> 'v machine option" where
  "run_moves cv [] m = Some m"
| "run_moves cv (i # is) m =
     (case run_move cv i m of None \<Rightarrow> None | Some m1 \<Rightarrow> run_moves cv is m1)"

fun run_moves_bounded ::
  "nat \<Rightarrow> (node \<Rightarrow> 'v) \<Rightarrow> move_instr list \<Rightarrow> 'v machine \<Rightarrow> 'v machine option" where
  "run_moves_bounded limit cv [] m = Some m"
| "run_moves_bounded limit cv (i # is) m =
     (case run_move cv i m of
        None \<Rightarrow> None
      | Some m1 \<Rightarrow>
          if length (native_stack m1) \<le> limit then run_moves_bounded limit cv is m1 else None)"

definition read_location :: "'v machine \<Rightarrow> location \<Rightarrow> 'v" where
  "read_location m l =
     (case l of InRegister r \<Rightarrow> reg_value m r | InStackSlot s \<Rightarrow> slot_value m s)"

subsection \<open>The moves of a gap, taken all at once\<close>

text \<open>
  The simultaneous semantics of the claims: a location that is the target of a
  recorded move ends with the value that the move's source had at the start (the
  constant, for a materialising move), every other location keeps its value.
\<close>

definition source_value :: "(node \<Rightarrow> 'v) \<Rightarrow> 'v machine \<Rightarrow> node \<Rightarrow> move_source \<Rightarrow> 'v" where
  "source_value cv m n source =
     (case source of
        Register_source r \<Rightarrow> reg_value m r
      | StackSlot_source s \<Rightarrow> slot_value m s
      | Constant_source \<Rightarrow> cv n)"

definition simultaneous_value ::
  "(node \<Rightarrow> 'v) \<Rightarrow> gap_move list \<Rightarrow> 'v machine \<Rightarrow> location \<Rightarrow> 'v" where
  "simultaneous_value cv moves m l =
     (case find (\<lambda>mv. snd (snd mv) = l) moves of
        None \<Rightarrow> read_location m l
      | Some mv \<Rightarrow> source_value cv m (fst mv) (fst (snd mv)))"

text \<open>
  The invariant of the allocator: a location is the target of at most one recorded
  move. The registers of a gap are allocatable registers, and the scratch register is
  not allocatable.
\<close>

definition in_degree_at_most_one :: "gap_move list \<Rightarrow> bool" where
  "in_degree_at_most_one moves \<longleftrightarrow> distinct (map (\<lambda>mv. snd (snd mv)) moves)"

fun source_registers :: "move_source \<Rightarrow> nat set" where
  "source_registers (Register_source r) = {r}"
| "source_registers _ = {}"

fun location_registers :: "location \<Rightarrow> nat set" where
  "location_registers (InRegister r) = {r}"
| "location_registers _ = {}"

definition gap_registers :: "gap_move list \<Rightarrow> nat set" where
  "gap_registers moves =
     (\<Union>mv \<in> set moves. source_registers (fst (snd mv)) \<union> location_registers (snd (snd mv)))"

definition well_formed_gap :: "RegisterTHelper \<Rightarrow> gap_move list \<Rightarrow> bool" where
  "well_formed_gap h moves \<longleftrightarrow>
     in_degree_at_most_one moves \<and>
     gap_registers moves \<subseteq> set (kAllocatableRegisters h) \<and>
     distinct (kAllocatableRegisters h) \<and>
     kScratch h \<notin> set (kAllocatableRegisters h)"

text \<open>
  Two resolvers are the same up to the order of the unordered map when they differ
  at most in the order of the entries of \<^verbatim>\<open>moves_from_stack_slot_\<close>.
\<close>

definition same_up_to_map_order :: "resolver \<Rightarrow> resolver \<Rightarrow> bool" where
  "same_up_to_map_order st st' \<longleftrightarrow>
     moves_from_register st' = moves_from_register st \<and>
     mset (moves_from_stack_slot st') = mset (moves_from_stack_slot st) \<and>
     materializing_register_moves st' = materializing_register_moves st \<and>
     materializing_stack_slot_moves st' = materializing_stack_slot_moves st \<and>
     scratch_has_cycle_start st' = scratch_has_cycle_start st"

text \<open>The registers that an instruction names, and the pushes and pops of a sequence.\<close>

fun instr_registers :: "move_instr \<Rightarrow> nat set" where
  "instr_registers (Move_reg_reg dst src) = {dst, src}"
| "instr_registers (Move_reg_slot dst src) = {dst}"
| "instr_registers (Move_slot_reg dst src) = {src}"
| "instr_registers (Push r) = {r}"
| "instr_registers (Pop r) = {r}"
| "instr_registers (LoadToRegister n r) = {r}"

fun is_materialization :: "move_instr \<Rightarrow> bool" where
  "is_materialization (LoadToRegister n r) = True"
| "is_materialization _ = False"

subsection \<open>The move graph of a resolver\<close>

text \<open>
  The targets recorded for a source, the edges of the move graph, and the locations
  that still wait for their value.
\<close>

definition targets_of :: "resolver \<Rightarrow> location \<Rightarrow> location list" where
  "targets_of st a =
     (case a of
        InRegister r \<Rightarrow> target_locations (moves_from_register st r)
      | InStackSlot s \<Rightarrow>
          (case map_of (moves_from_stack_slot st) s of
             None \<Rightarrow> []
           | Some targets \<Rightarrow> target_locations targets))"

definition edge :: "resolver \<Rightarrow> location \<Rightarrow> location \<Rightarrow> bool" where
  "edge st a b \<longleftrightarrow> b \<in> set (targets_of st a)"

definition pending :: "resolver \<Rightarrow> location set" where
  "pending st = {b. \<exists>a. edge st a b}"

definition write_location :: "'v machine \<Rightarrow> location \<Rightarrow> 'v \<Rightarrow> 'v machine" where
  "write_location m l v =
     (case l of
        InRegister r \<Rightarrow> m\<lparr>reg_value := (reg_value m)(r := v)\<rparr>
      | InStackSlot s \<Rightarrow> m\<lparr>slot_value := (slot_value m)(s := v)\<rparr>)"

text \<open>A move whose source is its target.\<close>

definition is_self_move :: "gap_move \<Rightarrow> bool" where
  "is_self_move mv \<longleftrightarrow>
     (case (fst (snd mv), snd (snd mv)) of
        (Register_source source_reg, InRegister target_reg) \<Rightarrow> source_reg = target_reg
      | (StackSlot_source source_slot, InStackSlot target_slot) \<Rightarrow> source_slot = target_slot
      | _ \<Rightarrow> False)"

text \<open>The check that \<^verbatim>\<open>RecordMove\<close> runs for the target of a move, in a debug build.\<close>

definition CheckNoExistingMoveTo :: "RegisterTHelper \<Rightarrow> resolver \<Rightarrow> location \<Rightarrow> bool" where
  "CheckNoExistingMoveTo h st target =
     (case target of
        InRegister target_reg \<Rightarrow> CheckNoExistingMoveToRegister h st target_reg
      | InStackSlot target_slot \<Rightarrow> CheckNoExistingMoveToStackSlot h st target_slot)"

text \<open>The locations that a resolver holds as the target of a move.\<close>

definition recorded_targets :: "resolver \<Rightarrow> location set" where
  "recorded_targets st =
     (\<Union>r. set (target_locations (moves_from_register st r))) \<union>
     (\<Union>entry \<in> set (moves_from_stack_slot st). set (target_locations (snd entry))) \<union>
     {InRegister r |r. materializing_register_moves st r \<noteq> None} \<union>
     {InStackSlot (fst entry) |entry. entry \<in> set (materializing_stack_slot_moves st)}"

section \<open>Proofs: operand resolver\<close>

lemma has_operand_slots_nth:
  assumes "has_operand_slots instr off" and "i < length (mode_shape (addressing_mode instr))"
  shows "off + i < length (inputs instr) \<and>
         operand_has_kind (inputs instr ! (off + i)) (mode_shape (addressing_mode instr) ! i)"
proof -
  let ?shape = "mode_shape (addressing_mode instr)"
  from assms(1) have len: "off + length ?shape \<le> length (inputs instr)"
    and all2: "list_all2 operand_has_kind (take (length ?shape) (drop off (inputs instr))) ?shape"
    by (simp_all add: has_operand_slots_def Let_def)
  have l: "length (take (length ?shape) (drop off (inputs instr))) = length ?shape"
    using len by simp
  from list_all2_nthD [OF all2, of i] assms(2) l
  have "operand_has_kind (take (length ?shape) (drop off (inputs instr)) ! i) (?shape ! i)"
    by simp
  moreover have "take (length ?shape) (drop off (inputs instr)) ! i = inputs instr ! (off + i)"
    using assms(2) len by simp
  ultimately show ?thesis using len assms(2) by simp
qed

lemma InputRegister_slot:
  assumes "i < length (inputs instr)" and "operand_has_kind (inputs instr ! i) RegisterSlot"
  shows "\<exists>r. InputRegister instr i = Inr r"
  using assms by (cases "inputs instr ! i") (simp_all add: InputRegister_def)

lemma InputInt32_slot:
  assumes "i < length (inputs instr)" and "operand_has_kind (inputs instr ! i) ImmediateSlot"
  shows "\<exists>k. InputInt32 instr i = Inr k"
  using assms by (cases "inputs instr ! i") (simp_all add: InputInt32_def)

lemma ScaleFor_decodes:
  assumes "0 \<le> mode_index mode - mode_index one" and "mode_index mode - mode_index one < 4"
  shows "\<exists>s. ScaleFor one mode = Inr s \<and>
             scale_multiplier s = 2 ^ nat (mode_index mode - mode_index one)"
proof -
  from assms have "mode_index mode - mode_index one \<in> {0, 1, 2, 3}" by auto
  then show ?thesis
    by (auto simp add: ScaleFor_def ScaleFactor_cast_def)
qed

text \<open>
  Claim C4, as stated, fails at \<^verbatim>\<open>kMode_M2\<close>: the mode is in the closed set, it is
  not \<^verbatim>\<open>kMode_None\<close>, the operand list holds the register slot its shape asks for,
  and \<^verbatim>\<open>MemoryOperand\<close> still ends in \<^verbatim>\<open>UNREACHABLE()\<close> (the source's comment:
  the selector should use \<^verbatim>\<open>kMode_MR\<close> with its more compact encoding instead).
\<close>

theorem MemoryOperand_M2_counterexample:
  "addressing_mode \<lparr>addressing_mode = kMode_M2, inputs = [RegisterOperand 1]\<rparr> \<noteq> kMode_None \<and>
   has_operand_slots \<lparr>addressing_mode = kMode_M2, inputs = [RegisterOperand 1]\<rparr> 0 \<and>
   MemoryOperand 13 14 \<lparr>addressing_mode = kMode_M2, inputs = [RegisterOperand 1]\<rparr> 0
     = Inl Unreachable"
  by (simp add: has_operand_slots_def MemoryOperand_def)

text \<open>
  Claim C4, amended. For every addressing mode other than \<^verbatim>\<open>kMode_None\<close> and
  \<^verbatim>\<open>kMode_M2\<close> whose operand slots are present at the cursor, \<^verbatim>\<open>MemoryOperand\<close>
  returns an operand and advances the cursor by exactly the number of slots of the
  mode's shape, a number between 1 and 3, and an index scaled by the mode's factor
  1, 2, 4 or 8 is decoded as that factor. \<^verbatim>\<open>kMode_None\<close> and \<^verbatim>\<open>kMode_M2\<close> are
  unreachable. \<^verbatim>\<open>ScaleFor\<close> maps the differences 0, 1, 2, 3 of the enumerators to
  the factors 1, 2, 4, 8. The instruction is read only.
\<close>

theorem MemoryOperand_cursor:
  "(addressing_mode instr \<notin> {kMode_None, kMode_M2} \<and> has_operand_slots instr off \<longrightarrow>
      (\<exists>op. MemoryOperand root cage instr off
               = Inr (op, off + length (mode_shape (addressing_mode instr))) \<and>
            (\<forall>f. mode_factor (addressing_mode instr) = Some f \<longrightarrow> operand_factor op = Some f)) \<and>
      1 \<le> length (mode_shape (addressing_mode instr)) \<and>
      length (mode_shape (addressing_mode instr)) \<le> 3) \<and>
   (addressing_mode instr \<in> {kMode_None, kMode_M2} \<longrightarrow>
      MemoryOperand root cage instr off = Inl Unreachable) \<and>
   (0 \<le> mode_index mode - mode_index one \<and> mode_index mode - mode_index one < 4 \<longrightarrow>
      (\<exists>s. ScaleFor one mode = Inr s \<and>
           scale_multiplier s = 2 ^ nat (mode_index mode - mode_index one)))"
proof (intro conjI impI)
  assume a: "addressing_mode instr \<notin> {kMode_None, kMode_M2} \<and> has_operand_slots instr off"
  then have hs: "has_operand_slots instr off" by simp
  have slot: "\<And>i. i < length (mode_shape (addressing_mode instr)) \<Longrightarrow>
      off + i < length (inputs instr) \<and>
      operand_has_kind (inputs instr ! (off + i)) (mode_shape (addressing_mode instr) ! i)"
    using has_operand_slots_nth [OF hs] by blast
  show "\<exists>op. MemoryOperand root cage instr off
               = Inr (op, off + length (mode_shape (addressing_mode instr))) \<and>
            (\<forall>f. mode_factor (addressing_mode instr) = Some f \<longrightarrow> operand_factor op = Some f)"
  proof (cases "addressing_mode instr")
    case kMode_None with a show ?thesis by simp
  next
    case kMode_M2 with a show ?thesis by simp
  next
    case kMode_MR
    with slot [of 0] InputRegister_slot [of off instr] show ?thesis
      by (auto simp add: MemoryOperand_def bindE_def)
  next
    case kMode_MRI
    with slot [of 0] slot [of 1] InputRegister_slot [of off instr] InputInt32_slot [of "off + 1" instr]
    show ?thesis by (auto simp add: MemoryOperand_def bindE_def)
  next
    case kMode_MR1
    with slot [of 0] slot [of 1] InputRegister_slot [of off instr] InputRegister_slot [of "off + 1" instr]
    show ?thesis by (auto simp add: MemoryOperand_def bindE_def ScaleFor_def ScaleFactor_cast_def)
  next
    case kMode_MR2
    with slot [of 0] slot [of 1] InputRegister_slot [of off instr] InputRegister_slot [of "off + 1" instr]
    show ?thesis by (auto simp add: MemoryOperand_def bindE_def ScaleFor_def ScaleFactor_cast_def)
  next
    case kMode_MR4
    with slot [of 0] slot [of 1] InputRegister_slot [of off instr] InputRegister_slot [of "off + 1" instr]
    show ?thesis by (auto simp add: MemoryOperand_def bindE_def ScaleFor_def ScaleFactor_cast_def)
  next
    case kMode_MR8
    with slot [of 0] slot [of 1] InputRegister_slot [of off instr] InputRegister_slot [of "off + 1" instr]
    show ?thesis by (auto simp add: MemoryOperand_def bindE_def ScaleFor_def ScaleFactor_cast_def)
  next
    case kMode_MR1I
    with slot [of 0] slot [of 1] slot [of 2] InputRegister_slot [of off instr]
      InputRegister_slot [of "off + 1" instr] InputInt32_slot [of "off + 2" instr]
    show ?thesis by (auto simp add: MemoryOperand_def bindE_def ScaleFor_def ScaleFactor_cast_def)
  next
    case kMode_MR2I
    with slot [of 0] slot [of 1] slot [of 2] InputRegister_slot [of off instr]
      InputRegister_slot [of "off + 1" instr] InputInt32_slot [of "off + 2" instr]
    show ?thesis by (auto simp add: MemoryOperand_def bindE_def ScaleFor_def ScaleFactor_cast_def)
  next
    case kMode_MR4I
    with slot [of 0] slot [of 1] slot [of 2] InputRegister_slot [of off instr]
      InputRegister_slot [of "off + 1" instr] InputInt32_slot [of "off + 2" instr]
    show ?thesis by (auto simp add: MemoryOperand_def bindE_def ScaleFor_def ScaleFactor_cast_def)
  next
    case kMode_MR8I
    with slot [of 0] slot [of 1] slot [of 2] InputRegister_slot [of off instr]
      InputRegister_slot [of "off + 1" instr] InputInt32_slot [of "off + 2" instr]
    show ?thesis by (auto simp add: MemoryOperand_def bindE_def ScaleFor_def ScaleFactor_cast_def)
  next
    case kMode_M1
    with slot [of 0] InputRegister_slot [of off instr] show ?thesis
      by (auto simp add: MemoryOperand_def bindE_def)
  next
    case kMode_M4
    with slot [of 0] InputRegister_slot [of off instr] show ?thesis
      by (auto simp add: MemoryOperand_def bindE_def ScaleFor_def ScaleFactor_cast_def)
  next
    case kMode_M8
    with slot [of 0] InputRegister_slot [of off instr] show ?thesis
      by (auto simp add: MemoryOperand_def bindE_def ScaleFor_def ScaleFactor_cast_def)
  next
    case kMode_M1I
    with slot [of 0] slot [of 1] InputRegister_slot [of off instr] InputInt32_slot [of "off + 1" instr]
    show ?thesis by (auto simp add: MemoryOperand_def bindE_def ScaleFor_def ScaleFactor_cast_def)
  next
    case kMode_M2I
    with slot [of 0] slot [of 1] InputRegister_slot [of off instr] InputInt32_slot [of "off + 1" instr]
    show ?thesis by (auto simp add: MemoryOperand_def bindE_def ScaleFor_def ScaleFactor_cast_def)
  next
    case kMode_M4I
    with slot [of 0] slot [of 1] InputRegister_slot [of off instr] InputInt32_slot [of "off + 1" instr]
    show ?thesis by (auto simp add: MemoryOperand_def bindE_def ScaleFor_def ScaleFactor_cast_def)
  next
    case kMode_M8I
    with slot [of 0] slot [of 1] InputRegister_slot [of off instr] InputInt32_slot [of "off + 1" instr]
    show ?thesis by (auto simp add: MemoryOperand_def bindE_def ScaleFor_def ScaleFactor_cast_def)
  next
    case kMode_Root
    with slot [of 0] InputInt32_slot [of off instr] show ?thesis
      by (auto simp add: MemoryOperand_def bindE_def)
  next
    case kMode_MCR
    with slot [of 0] InputRegister_slot [of off instr] show ?thesis
      by (auto simp add: MemoryOperand_def bindE_def)
  next
    case kMode_MCRI
    with slot [of 0] slot [of 1] InputRegister_slot [of off instr] InputInt32_slot [of "off + 1" instr]
    show ?thesis by (auto simp add: MemoryOperand_def bindE_def)
  qed
  from a show "1 \<le> length (mode_shape (addressing_mode instr))"
    by (cases "addressing_mode instr") simp_all
  show "length (mode_shape (addressing_mode instr)) \<le> 3"
    by (cases "addressing_mode instr") simp_all
next
  assume "addressing_mode instr \<in> {kMode_None, kMode_M2}"
  then show "MemoryOperand root cage instr off = Inl Unreachable"
    by (auto simp add: MemoryOperand_def)
next
  assume "0 \<le> mode_index mode - mode_index one \<and> mode_index mode - mode_index one < 4"
  then show "\<exists>s. ScaleFor one mode = Inr s \<and>
           scale_multiplier s = 2 ^ nat (mode_index mode - mode_index one)"
    using ScaleFor_decodes by blast
qed

text \<open>
  The theorem at \<^verbatim>\<open>[%r3 + %r5*4 + 16]\<close> read from cursor 1, at \<^verbatim>\<open>kMode_None\<close>, and
  at the scale of \<^verbatim>\<open>kMode_M8I\<close>.
\<close>

theorem MemoryOperand_cursor_witness:
  "MemoryOperand 13 14
     \<lparr>addressing_mode = kMode_MR4I,
      inputs = [RegisterOperand 7, RegisterOperand 3, RegisterOperand 5, ImmediateOperand 16]\<rparr> 1
     = Inr (Operand_base_index 3 5 times_4 16, 4) \<and>
   MemoryOperand 13 14 \<lparr>addressing_mode = kMode_None, inputs = []\<rparr> 0 = Inl Unreachable \<and>
   ScaleFor kMode_M1I kMode_M8I = Inr times_8"
  using MemoryOperand_cursor [of
      "\<lparr>addressing_mode = kMode_MR4I,
        inputs = [RegisterOperand 7, RegisterOperand 3, RegisterOperand 5, ImmediateOperand 16]\<rparr>"
      1 13 14 kMode_M8I kMode_M1I]
    MemoryOperand_cursor [of "\<lparr>addressing_mode = kMode_None, inputs = []\<rparr>" 0 13 14 kMode_MR kMode_MR]
  by (simp add: has_operand_slots_def MemoryOperand_def bindE_def InputRegister_def InputInt32_def
      ScaleFor_def ScaleFactor_cast_def)

section \<open>Proofs: tail calls\<close>

lemma sint_int32 [simp]: "- (2 ^ 31) \<le> k \<Longrightarrow> k < 2 ^ 31 \<Longrightarrow> sint (int32 k) = k"
  by (simp add: int32_def sint_sbintrunc' signed_take_bit_int_eq_self)

lemma sint32_add:
  "- (2 ^ 31) \<le> sint a + sint b \<Longrightarrow> sint a + sint b < 2 ^ 31 \<Longrightarrow>
   sint (a + b :: int32) = sint a + sint b"
  by (simp add: sint_word_ariths signed_take_bit_int_eq_self)

lemma sint32_diff:
  "- (2 ^ 31) \<le> sint a - sint b \<Longrightarrow> sint a - sint b < 2 ^ 31 \<Longrightarrow>
   sint (a - b :: int32) = sint a - sint b"
  by (simp add: sint_word_ariths signed_take_bit_int_eq_self)

lemma sint32_mult:
  "- (2 ^ 31) \<le> sint a * sint b \<Longrightarrow> sint a * sint b < 2 ^ 31 \<Longrightarrow>
   sint (a * b :: int32) = sint a * sint b"
  by (simp add: sint_word_ariths signed_take_bit_int_eq_self)

lemma sint32_minus:
  "- (2 ^ 31) < sint a \<Longrightarrow> sint (- a :: int32) = - sint a"
  using sint_lt [of a] by (simp add: sint_word_ariths signed_take_bit_int_eq_self)

lemma x64_run_append: "x64_run (xs @ ys) s = x64_run ys (x64_run xs s)"
  by (induction xs arbitrary: s) simp_all

lemma tracks_append:
  assumes "tracks xs S S1" and "tracks ys S1 S2"
  shows "tracks (xs @ ys) S S2"
proof -
  have "word_of_int (8 * (S2 - S)) =
      (word_of_int (8 * (S1 - S)) + word_of_int (8 * (S2 - S1)) :: 64 word)"
    by (simp add: algebra_simps)
  with assms show ?thesis
    by (simp add: tracks_def x64_run_append algebra_simps)
qed

lemma tracks_Nil [simp]: "tracks [] S S"
  by (simp add: tracks_def)

lemma adjust_no_tier_up:
  assumes "\<not> kIsTailCallForTierUp call"
    and "- (2 ^ 27) < sint (sp_to_fp_slot_count state)"
    and "sint (sp_to_fp_slot_count state) < 2 ^ 27"
    and "slot_number n"
  obtains code state' where
    "AdjustStackPointerForTailCall debug call state n allow = Inr (code, state')"
    "total_frame_slot_count state' = total_frame_slot_count state"
    "sint (sp_to_fp_slot_count state') =
       (if 0 < sint n - (sint (sp_to_fp_slot_count state) + 2) \<or>
           allow \<and> sint n - (sint (sp_to_fp_slot_count state) + 2) < 0
        then sint n - 2 else sint (sp_to_fp_slot_count state))"
    "\<forall>s. x64_run code s =
       s\<lparr>rsp := rsp s - word_of_int
          (8 * (sint (sp_to_fp_slot_count state') - sint (sp_to_fp_slot_count state)))\<rparr>"
proof -
  let ?S = "sint (sp_to_fp_slot_count state)"
  let ?D = "sint n - (?S + 2)"
  define d where "d = n - (sp_to_fp_slot_count state + int32 kFixedSlotCountAboveFp)"
  from assms have n: "- (2 ^ 26) < sint n" "sint n < 2 ^ 26" by (simp_all add: slot_number_def)
  have two: "sint (int32 kFixedSlotCountAboveFp) = 2"
    by (simp add: kFixedSlotCountAboveFp_def)
  have cur: "sint (sp_to_fp_slot_count state + int32 kFixedSlotCountAboveFp) = ?S + 2"
    using assms(2,3) by (subst sint32_add) (simp_all add: two)
  have d: "sint d = ?D"
    unfolding d_def using assms(2,3) n by (subst sint32_diff) (simp_all add: cur)
  have delta: "tail_call_stack_slot_delta debug call state n = Inr d"
    using assms(1) by (simp add: tail_call_stack_slot_delta_def Let_def d_def)
  have eight: "sint (int32 kSystemPointerSize) = 8"
    by (simp add: kSystemPointerSize_def)
  have bytes: "sint (d * int32 kSystemPointerSize) = 8 * ?D"
    using assms(2,3) n by (subst sint32_mult) (simp_all add: d eight)
  have neg: "sint (- d) = - ?D"
    using assms(2,3) n by (subst sint32_minus) (simp_all add: d)
  have neg_bytes: "sint (- d * int32 kSystemPointerSize) = - (8 * ?D)"
    using assms(2,3) n by (subst sint32_mult) (simp_all only: neg eight, simp_all)
  have "sp_to_fp_slot_count state + d = n - int32 kFixedSlotCountAboveFp"
    by (simp add: d_def)
  moreover have "sint (n - int32 kFixedSlotCountAboveFp) = sint n - 2"
    using n by (subst sint32_diff) (simp_all add: two)
  ultimately have new_sp: "sint (sp_to_fp_slot_count state + d) = sint n - 2" by simp
  have code: "AdjustStackPointerForTailCall debug call state n allow =
      (if 0 < ?D then
         Inr ([AllocateStackSpace (sint (d * int32 kSystemPointerSize))],
              IncreaseSPDelta d state)
       else if allow \<and> ?D < 0 then
         Inr ([addq_rsp (sint (- d * int32 kSystemPointerSize))], IncreaseSPDelta d state)
       else Inr ([], state))"
    by (simp only: AdjustStackPointerForTailCall_def delta bindE_def sum.case d)
  have grow_run: "x64_run [AllocateStackSpace (sint (d * int32 kSystemPointerSize))] s =
      s\<lparr>rsp := rsp s - word_of_int (8 * ((sint n - 2) - ?S))\<rparr>" for s
    unfolding bytes by (simp add: algebra_simps)
  have shrink_run: "x64_run [addq_rsp (sint (- d * int32 kSystemPointerSize))] s =
      s\<lparr>rsp := rsp s - word_of_int (8 * ((sint n - 2) - ?S))\<rparr>" for s
    unfolding neg_bytes by (simp add: algebra_simps)
  have keep_run: "x64_run [] s = s\<lparr>rsp := rsp s - word_of_int (8 * (?S - ?S))\<rparr>" for s
    by simp
  have sp': "sint (sp_to_fp_slot_count (IncreaseSPDelta d state)) = sint n - 2"
    unfolding IncreaseSPDelta_def using new_sp by simp
  have total': "total_frame_slot_count (IncreaseSPDelta d state) = total_frame_slot_count state"
    by (simp add: IncreaseSPDelta_def)
  show ?thesis
  proof (cases "0 < ?D")
    case True
    show ?thesis
    proof (rule that)
      show "AdjustStackPointerForTailCall debug call state n allow =
          Inr ([AllocateStackSpace (sint (d * int32 kSystemPointerSize))],
               IncreaseSPDelta d state)"
        using code True by simp
      show "total_frame_slot_count (IncreaseSPDelta d state) = total_frame_slot_count state"
        by (rule total')
      show "sint (sp_to_fp_slot_count (IncreaseSPDelta d state)) =
          (if 0 < ?D \<or> allow \<and> ?D < 0 then sint n - 2 else ?S)"
        using True sp' by simp
      show "\<forall>s. x64_run [AllocateStackSpace (sint (d * int32 kSystemPointerSize))] s =
          s\<lparr>rsp := rsp s - word_of_int
            (8 * (sint (sp_to_fp_slot_count (IncreaseSPDelta d state)) - ?S))\<rparr>"
        unfolding sp' using grow_run by blast
    qed
  next
    case False
    show ?thesis
    proof (cases "allow \<and> ?D < 0")
      case shrink: True
      show ?thesis
      proof (rule that)
        show "AdjustStackPointerForTailCall debug call state n allow =
            Inr ([addq_rsp (sint (- d * int32 kSystemPointerSize))],
                 IncreaseSPDelta d state)"
          using code False shrink by simp
        show "total_frame_slot_count (IncreaseSPDelta d state) = total_frame_slot_count state"
          by (rule total')
        show "sint (sp_to_fp_slot_count (IncreaseSPDelta d state)) =
            (if 0 < ?D \<or> allow \<and> ?D < 0 then sint n - 2 else ?S)"
          using shrink sp' by simp
        show "\<forall>s. x64_run [addq_rsp (sint (- d * int32 kSystemPointerSize))] s =
            s\<lparr>rsp := rsp s - word_of_int
              (8 * (sint (sp_to_fp_slot_count (IncreaseSPDelta d state)) - ?S))\<rparr>"
          unfolding sp' using shrink_run by blast
      qed
    next
      case keep: False
      show ?thesis
      proof (rule that)
        show "AdjustStackPointerForTailCall debug call state n allow = Inr ([], state)"
          using code False keep by auto
        show "total_frame_slot_count state = total_frame_slot_count state" ..
        show "?S = (if 0 < ?D \<or> allow \<and> ?D < 0 then sint n - 2 else ?S)"
          using False keep by auto
        show "\<forall>s. x64_run [] s = s\<lparr>rsp := rsp s - word_of_int (8 * (?S - ?S))\<rparr>"
          using keep_run by blast
      qed
    qed
  qed
qed

lemma moves_rsp_tracks: "moves_rsp code S S' \<Longrightarrow> tracks code S S'"
  by (simp add: moves_rsp_def tracks_def)

lemma moves_rsp_Nil [simp]: "moves_rsp [] S S"
  by (simp add: moves_rsp_def)

lemma moves_rsp_append:
  assumes "moves_rsp xs S S1" and "moves_rsp ys S1 S2"
  shows "moves_rsp (xs @ ys) S S2"
  using assms by (simp add: moves_rsp_def x64_run_append algebra_simps)

lemma moves_rsp_mem: "moves_rsp code S S' \<Longrightarrow> mem (x64_run code s) = mem s"
  by (simp add: moves_rsp_def)

lemma tracks_push:
  assumes "S' = S + 1"
  shows "tracks [pushq r] S S'" and "tracks [pushq_imm v] S S'"
    and "tracks [pushq_operand b disp] S S'"
  using assms by (simp_all add: tracks_def)

lemma push_moves_effect:
  assumes "\<not> kIsTailCallForTierUp call"
    and "- (2 ^ 27) < sint (sp_to_fp_slot_count state)"
    and "sint (sp_to_fp_slot_count state) < 2 ^ 27"
    and "\<forall>move \<in> set moves. slot_number (destination_index move) \<and> move_source move \<noteq> IsOther"
  shows "\<exists>code state'. push_moves debug call GetFrameOffset moves state = Inr (code, state') \<and>
           total_frame_slot_count state' = total_frame_slot_count state \<and>
           sint (sp_to_fp_slot_count state') =
             (if moves = [] then sint (sp_to_fp_slot_count state)
              else sint (destination_index (last moves)) - 1) \<and>
           tracks code (sint (sp_to_fp_slot_count state)) (sint (sp_to_fp_slot_count state'))"
  using assms(2-)
proof (induction moves arbitrary: state)
  case Nil
  then show ?case by simp
next
  case (Cons move moves)
  let ?S = "sint (sp_to_fp_slot_count state)"
  let ?n = "destination_index move"
  from Cons.prems(3) have n: "slot_number ?n" and src: "move_source move \<noteq> IsOther"
    and rest: "\<forall>move \<in> set moves. slot_number (destination_index move) \<and>
        move_source move \<noteq> IsOther"
    by simp_all
  from adjust_no_tier_up [OF assms(1) Cons.prems(1,2) n, where debug = debug and allow = True]
  obtain code1 state1 where
    adj: "AdjustStackPointerForTailCall debug call state ?n True = Inr (code1, state1)"
    and total1: "total_frame_slot_count state1 = total_frame_slot_count state"
    and sp1: "sint (sp_to_fp_slot_count state1) =
       (if 0 < sint ?n - (?S + 2) \<or> True \<and> sint ?n - (?S + 2) < 0 then sint ?n - 2 else ?S)"
    and run1: "\<forall>s. x64_run code1 s =
       s\<lparr>rsp := rsp s - word_of_int (8 * (sint (sp_to_fp_slot_count state1) - ?S))\<rparr>"
    by blast
  from sp1 have sp1': "sint (sp_to_fp_slot_count state1) = sint ?n - 2"
    by (auto split: if_splits)
  from run1 have t1: "tracks code1 ?S (sint ?n - 2)"
    unfolding sp1' by (simp add: tracks_def)
  obtain code2 where push: "(case move_source move of
                   IsStackSlot index \<Rightarrow> Inr [SlotToOperand GetFrameOffset state1 index]
                 | IsRegister r \<Rightarrow> Inr [pushq r]
                 | IsImmediate v \<Rightarrow> Inr [pushq_imm (sint v)]
                 | IsOther \<Rightarrow> Inl Fatal) = Inr code2"
    and t2: "tracks code2 (sint ?n - 2) (sint ?n - 1)"
    using src
    by (cases "move_source move")
       (auto simp add: SlotToOperand_def Let_def tracks_push)
  let ?state2 = "IncreaseSPDelta 1 state1"
  from n have nb: "- (2 ^ 26) < sint ?n" "sint ?n < 2 ^ 26" by (simp_all add: slot_number_def)
  have sp2: "sint (sp_to_fp_slot_count ?state2) = sint ?n - 1"
    unfolding IncreaseSPDelta_def using nb sp1'
    by (simp, subst sint32_add) simp_all
  have total2: "total_frame_slot_count ?state2 = total_frame_slot_count state"
    by (simp add: IncreaseSPDelta_def total1)
  have b2: "- (2 ^ 27) < sint (sp_to_fp_slot_count ?state2)"
    "sint (sp_to_fp_slot_count ?state2) < 2 ^ 27"
    using nb sp2 by simp_all
  from Cons.IH [OF b2 rest] obtain code3 state3 where
    rec: "push_moves debug call GetFrameOffset moves ?state2 = Inr (code3, state3)"
    and total3: "total_frame_slot_count state3 = total_frame_slot_count ?state2"
    and sp3: "sint (sp_to_fp_slot_count state3) =
             (if moves = [] then sint (sp_to_fp_slot_count ?state2)
              else sint (destination_index (last moves)) - 1)"
    and t3: "tracks code3 (sint (sp_to_fp_slot_count ?state2)) (sint (sp_to_fp_slot_count state3))"
    by blast
  have "push_moves debug call GetFrameOffset (move # moves) state =
      Inr (code1 @ code2 @ code3, state3)"
    by (simp add: adj push rec bindE_def)
  moreover have "total_frame_slot_count state3 = total_frame_slot_count state"
    using total3 total2 by simp
  moreover have "sint (sp_to_fp_slot_count state3) =
      (if move # moves = [] then ?S else sint (destination_index (last (move # moves))) - 1)"
    using sp3 sp2 by simp
  moreover have "tracks (code1 @ code2 @ code3) ?S (sint (sp_to_fp_slot_count state3))"
  proof -
    from t3 have "tracks code3 (sint ?n - 1) (sint (sp_to_fp_slot_count state3))"
      unfolding sp2 by simp
    from tracks_append [OF t2 this] tracks_append [OF t1] show ?thesis by blast
  qed
  ultimately show ?case by blast
qed

lemma adjust_no_tier_up_moves:
  assumes "\<not> kIsTailCallForTierUp call"
    and "- (2 ^ 27) < sint (sp_to_fp_slot_count state)"
    and "sint (sp_to_fp_slot_count state) < 2 ^ 27"
    and "slot_number n"
  shows "\<exists>code state'.
      AdjustStackPointerForTailCall debug call state n allow = Inr (code, state') \<and>
      total_frame_slot_count state' = total_frame_slot_count state \<and>
      sint (sp_to_fp_slot_count state') =
        (if 0 < sint n - (sint (sp_to_fp_slot_count state) + 2) \<or>
            allow \<and> sint n - (sint (sp_to_fp_slot_count state) + 2) < 0
         then sint n - 2 else sint (sp_to_fp_slot_count state)) \<and>
      moves_rsp code (sint (sp_to_fp_slot_count state)) (sint (sp_to_fp_slot_count state'))"
  using adjust_no_tier_up [OF assms, where debug = debug and allow = allow]
  unfolding moves_rsp_def by metis

lemma tail_call_delta_no_tier_up:
  assumes "\<not> kIsTailCallForTierUp call"
    and "slot_number (sp_to_fp_slot_count state)" and "slot_number n"
  shows "\<exists>d. tail_call_stack_slot_delta debug call state n = Inr d \<and>
           sint d = sint n - (sint (sp_to_fp_slot_count state) + 2)"
proof -
  from assms have b: "- (2 ^ 26) < sint n" "sint n < 2 ^ 26"
    "- (2 ^ 26) < sint (sp_to_fp_slot_count state)" "sint (sp_to_fp_slot_count state) < 2 ^ 26"
    by (simp_all add: slot_number_def)
  have two: "sint (int32 kFixedSlotCountAboveFp) = 2"
    by (simp add: kFixedSlotCountAboveFp_def)
  have cur: "sint (sp_to_fp_slot_count state + int32 kFixedSlotCountAboveFp) =
      sint (sp_to_fp_slot_count state) + 2"
    using b by (subst sint32_add) (simp_all add: two)
  have "sint (n - (sp_to_fp_slot_count state + int32 kFixedSlotCountAboveFp)) =
      sint n - (sint (sp_to_fp_slot_count state) + 2)"
    using b by (subst sint32_diff) (simp_all add: cur)
  then show ?thesis
    using assms(1) by (simp add: tail_call_stack_slot_delta_def Let_def)
qed

lemma adjustments_no_tier_up:
  assumes "\<not> kIsTailCallForTierUp call"
    and "slot_number (sp_to_fp_slot_count state)" and "slot_number n"
    and "\<forall>move \<in> set pushes. slot_number (destination_index move) \<and>
           move_source move \<noteq> IsOther"
  shows "\<exists>code state'.
      AssembleTailCallAdjustments debug call GetFrameOffset pushes state n = Inr (code, state') \<and>
      total_frame_slot_count state' = total_frame_slot_count state \<and>
      sint (sp_to_fp_slot_count state') = sint n - 2 \<and>
      tracks code (sint (sp_to_fp_slot_count state)) (sint n - 2) \<and>
      (\<not> pushes_reach pushes n \<longrightarrow>
         moves_rsp code (sint (sp_to_fp_slot_count state)) (sint n - 2))"
proof -
  let ?S = "sint (sp_to_fp_slot_count state)"
  from assms(2,3) have b: "- (2 ^ 26) < sint n" "sint n < 2 ^ 26"
    "- (2 ^ 26) < ?S" "?S < 2 ^ 26"
    by (simp_all add: slot_number_def)
  have part1: "\<exists>code1 state1.
      (if pushes_reach pushes n then push_moves debug call GetFrameOffset pushes state
       else Inr ([], state)) = Inr (code1, state1) \<and>
      total_frame_slot_count state1 = total_frame_slot_count state \<and>
      - (2 ^ 27) < sint (sp_to_fp_slot_count state1) \<and>
      sint (sp_to_fp_slot_count state1) < 2 ^ 27 \<and>
      tracks code1 ?S (sint (sp_to_fp_slot_count state1)) \<and>
      (\<not> pushes_reach pushes n \<longrightarrow> moves_rsp code1 ?S (sint (sp_to_fp_slot_count state1)))"
  proof (cases "pushes_reach pushes n")
    case True
    then have ne: "pushes \<noteq> []" and last: "destination_index (last pushes) + 1 = n"
      by (simp_all add: pushes_reach_def)
    from ne assms(4) have "slot_number (destination_index (last pushes))" by simp
    then have lb: "- (2 ^ 26) < sint (destination_index (last pushes))"
      "sint (destination_index (last pushes)) < 2 ^ 26"
      by (simp_all add: slot_number_def)
    from b(3,4) have sb: "- (2 ^ 27) < ?S" "?S < 2 ^ 27" by simp_all
    from push_moves_effect [OF assms(1) sb assms(4), where debug = debug
        and GetFrameOffset = GetFrameOffset]
    obtain code1 state1 where
      "push_moves debug call GetFrameOffset pushes state = Inr (code1, state1)"
      "total_frame_slot_count state1 = total_frame_slot_count state"
      "sint (sp_to_fp_slot_count state1) = sint (destination_index (last pushes)) - 1"
      "tracks code1 ?S (sint (sp_to_fp_slot_count state1))"
      using ne by auto
    with True lb show ?thesis by auto
  next
    case False
    with b(3,4) show ?thesis by simp
  qed
  then obtain code1 state1 where
    p1: "(if pushes_reach pushes n then push_moves debug call GetFrameOffset pushes state
       else Inr ([], state)) = Inr (code1, state1)"
    and total1: "total_frame_slot_count state1 = total_frame_slot_count state"
    and b1: "- (2 ^ 27) < sint (sp_to_fp_slot_count state1)"
      "sint (sp_to_fp_slot_count state1) < 2 ^ 27"
    and t1: "tracks code1 ?S (sint (sp_to_fp_slot_count state1))"
    and m1: "\<not> pushes_reach pushes n \<longrightarrow> moves_rsp code1 ?S (sint (sp_to_fp_slot_count state1))"
    by blast
  let ?S1 = "sint (sp_to_fp_slot_count state1)"
  from adjust_no_tier_up_moves [OF assms(1) b1 assms(3), where debug = debug and allow = False]
  obtain code2 state2 where
    a2: "AdjustStackPointerForTailCall debug call state1 n False = Inr (code2, state2)"
    and total2: "total_frame_slot_count state2 = total_frame_slot_count state1"
    and sp2: "sint (sp_to_fp_slot_count state2) =
        (if 0 < sint n - (?S1 + 2) then sint n - 2 else ?S1)"
    and m2: "moves_rsp code2 ?S1 (sint (sp_to_fp_slot_count state2))"
    by auto
  let ?S2 = "sint (sp_to_fp_slot_count state2)"
  from sp2 b b1 have b2: "- (2 ^ 27) < ?S2" "?S2 < 2 ^ 27" by (auto split: if_splits)
  from adjust_no_tier_up_moves [OF assms(1) b2 assms(3), where debug = debug and allow = True]
  obtain code3 state3 where
    a3: "AdjustStackPointerForTailCall debug call state2 n True = Inr (code3, state3)"
    and total3: "total_frame_slot_count state3 = total_frame_slot_count state2"
    and sp3: "sint (sp_to_fp_slot_count state3) =
        (if 0 < sint n - (?S2 + 2) \<or> sint n - (?S2 + 2) < 0 then sint n - 2 else ?S2)"
    and m3: "moves_rsp code3 ?S2 (sint (sp_to_fp_slot_count state3))"
    by auto
  have sp3': "sint (sp_to_fp_slot_count state3) = sint n - 2"
    using sp3 by (auto split: if_splits)
  have before: "AssembleTailCallBeforeGap debug call GetFrameOffset pushes state n =
      Inr (code1 @ code2, state2)"
  proof (cases "pushes_reach pushes n")
    case True
    with p1 have "push_moves debug call GetFrameOffset pushes state = Inr (code1, state1)"
      by simp
    with True a2 assms(1) show ?thesis
      by (simp add: AssembleTailCallBeforeGap_def pushes_reach_def bindE_def)
  next
    case False
    with p1 have "code1 = []" "state1 = state" by simp_all
    with False a2 assms(1) show ?thesis
      by (auto simp add: AssembleTailCallBeforeGap_def pushes_reach_def bindE_def)
  qed
  have "AssembleTailCallAdjustments debug call GetFrameOffset pushes state n =
      Inr ((code1 @ code2) @ code3, state3)"
    using before a3
    by (simp add: AssembleTailCallAdjustments_def AssembleTailCallAfterGap_def bindE_def)
  moreover have "total_frame_slot_count state3 = total_frame_slot_count state"
    using total1 total2 total3 by simp
  moreover have "tracks ((code1 @ code2) @ code3) ?S (sint n - 2)"
    using tracks_append [OF tracks_append [OF t1 moves_rsp_tracks [OF m2]]
        moves_rsp_tracks [OF m3]] sp3'
    by simp
  moreover have "\<not> pushes_reach pushes n \<longrightarrow> moves_rsp ((code1 @ code2) @ code3) ?S (sint n - 2)"
  proof
    assume "\<not> pushes_reach pushes n"
    with m1 have "moves_rsp code1 ?S ?S1" by simp
    from moves_rsp_append [OF moves_rsp_append [OF this m2] m3] sp3'
    show "moves_rsp ((code1 @ code2) @ code3) ?S (sint n - 2)" by simp
  qed
  ultimately show ?thesis using sp3' by blast
qed

text \<open>The tier-up branch.\<close>

lemma tail_call_delta_tier_up:
  assumes "kIsTailCallForTierUp call" and "tier_up_checks call state"
  shows "\<exists>d. tail_call_stack_slot_delta debug call state n = Inr d \<and>
           d = (total_frame_slot_count state - int32 kReturnAddressStackSlotCount) * (- 1) \<and>
           sint d = - (sint (total_frame_slot_count state) - 1)"
proof -
  let ?T = "sint (total_frame_slot_count state)"
  define d where "d = (total_frame_slot_count state - int32 kReturnAddressStackSlotCount) * (- 1)"
  from assms(2) have T: "1 \<le> ?T" by (simp add: tier_up_checks_def)
  have one: "sint (int32 kReturnAddressStackSlotCount) = 1"
    by (simp add: kReturnAddressStackSlotCount_def)
  have diff: "sint (total_frame_slot_count state - int32 kReturnAddressStackSlotCount) = ?T - 1"
    using T sint_lt [of "total_frame_slot_count state"]
    by (subst sint32_diff) (simp_all add: one)
  have "d = - (total_frame_slot_count state - int32 kReturnAddressStackSlotCount)"
    by (simp add: d_def)
  then have d: "sint d = - (?T - 1)"
    using T by (simp only:) (subst sint32_minus, simp_all add: diff)
  then have "sint d \<le> 0" using T by simp
  then have "tail_call_stack_slot_delta debug call state n = Inr d"
    using assms by (simp add: tail_call_stack_slot_delta_def tier_up_checks_def Let_def d_def)
  with d show ?thesis unfolding d_def by blast
qed

lemma adjust_tier_up:
  assumes "kIsTailCallForTierUp call" and "tier_up_checks call state"
    and "slot_number (total_frame_slot_count state)"
    and "slot_number (sp_to_fp_slot_count state)"
  shows "\<exists>code state'.
      AdjustStackPointerForTailCall debug call state n allow = Inr (code, state') \<and>
      total_frame_slot_count state' = total_frame_slot_count state \<and>
      sint (sp_to_fp_slot_count state') =
        (if allow then sint (sp_to_fp_slot_count state) - (sint (total_frame_slot_count state) - 1)
         else sint (sp_to_fp_slot_count state)) \<and>
      moves_rsp code (sint (sp_to_fp_slot_count state)) (sint (sp_to_fp_slot_count state')) \<and>
      (\<not> allow \<longrightarrow> code = [] \<and> state' = state)"
proof -
  let ?T = "sint (total_frame_slot_count state)"
  let ?S = "sint (sp_to_fp_slot_count state)"
  from tail_call_delta_tier_up [OF assms(1,2), where debug = debug and n = n]
  obtain d where delta: "tail_call_stack_slot_delta debug call state n = Inr d"
    and d: "sint d = - (?T - 1)" by blast
  from assms(2) have T: "1 \<le> ?T" by (simp add: tier_up_checks_def)
  from assms(3,4) have b: "?T < 2 ^ 26" "- (2 ^ 26) < ?S" "?S < 2 ^ 26"
    by (simp_all add: slot_number_def)
  have eight: "sint (int32 kSystemPointerSize) = 8"
    by (simp add: kSystemPointerSize_def)
  have neg: "sint (- d) = ?T - 1"
    using T b by (subst sint32_minus) (simp_all add: d)
  have neg_bytes: "sint (- d * int32 kSystemPointerSize) = 8 * (?T - 1)"
    using T b by (subst sint32_mult) (simp_all only: neg eight, simp_all)
  have new_sp: "sint (sp_to_fp_slot_count state + d) = ?S - (?T - 1)"
    using T b by (subst sint32_add) (simp_all add: d)
  have code: "AdjustStackPointerForTailCall debug call state n allow =
      (if allow \<and> 1 < ?T then
         Inr ([addq_rsp (sint (- d * int32 kSystemPointerSize))], IncreaseSPDelta d state)
       else Inr ([], state))"
    using T by (simp add: AdjustStackPointerForTailCall_def delta bindE_def d)
  have shrink_run: "x64_run [addq_rsp (sint (- d * int32 kSystemPointerSize))] s =
      s\<lparr>rsp := rsp s - word_of_int (8 * ((?S - (?T - 1)) - ?S))\<rparr>" for s
    unfolding neg_bytes by (simp add: algebra_simps)
  show ?thesis
  proof (cases "allow \<and> 1 < ?T")
    case True
    have "moves_rsp [addq_rsp (sint (- d * int32 kSystemPointerSize))] ?S
        (sint (sp_to_fp_slot_count (IncreaseSPDelta d state)))"
      unfolding moves_rsp_def IncreaseSPDelta_def using shrink_run new_sp by simp
    moreover have "sint (sp_to_fp_slot_count (IncreaseSPDelta d state)) = ?S - (?T - 1)"
      unfolding IncreaseSPDelta_def using new_sp by simp
    moreover have "total_frame_slot_count (IncreaseSPDelta d state) =
        total_frame_slot_count state"
      by (simp add: IncreaseSPDelta_def)
    ultimately show ?thesis using code True by auto
  next
    case False
    with T have "allow \<longrightarrow> ?T = 1" by auto
    with code False show ?thesis by auto
  qed
qed

lemma adjustments_tier_up:
  assumes "kIsTailCallForTierUp call" and "tier_up_checks call state"
    and "slot_number (total_frame_slot_count state)"
    and "slot_number (sp_to_fp_slot_count state)"
    and "\<not> pushes_reach pushes n"
  shows "\<exists>code state'.
      AssembleTailCallAdjustments debug call GetFrameOffset pushes state n = Inr (code, state') \<and>
      total_frame_slot_count state' = total_frame_slot_count state \<and>
      sint (sp_to_fp_slot_count state') =
        sint (sp_to_fp_slot_count state) - (sint (total_frame_slot_count state) - 1) \<and>
      moves_rsp code (sint (sp_to_fp_slot_count state)) (sint (sp_to_fp_slot_count state'))"
proof -
  from adjust_tier_up [OF assms(1-4), where debug = debug and n = n and allow = False]
  have before: "AssembleTailCallBeforeGap debug call GetFrameOffset pushes state n =
      Inr ([], state)"
    using assms(5) by (auto simp add: AssembleTailCallBeforeGap_def pushes_reach_def bindE_def)
  from adjust_tier_up [OF assms(1-4), where debug = debug and n = n and allow = True]
  obtain code state' where
    a: "AdjustStackPointerForTailCall debug call state n True = Inr (code, state')"
    "total_frame_slot_count state' = total_frame_slot_count state"
    "sint (sp_to_fp_slot_count state') =
        sint (sp_to_fp_slot_count state) - (sint (total_frame_slot_count state) - 1)"
    "moves_rsp code (sint (sp_to_fp_slot_count state)) (sint (sp_to_fp_slot_count state'))"
    by auto
  have "AssembleTailCallAdjustments debug call GetFrameOffset pushes state n =
      Inr (code, state')"
    using before a(1)
    by (simp add: AssembleTailCallAdjustments_def AssembleTailCallAfterGap_def bindE_def)
  with a show ?thesis by blast
qed

text \<open>
  Claim C7. For a tail call flagged as same-linkage tier-up the slot delta is the
  negation of the total frame slot count minus the return-address slot, whatever the
  callee's first unused slot is, and it is at most 0; the adjustments of the tail call
  take a stack pointer that stands that many slots below its value at entry back to
  that value. For every other tail call the delta is the callee's first unused slot
  offset minus the caller's current stack-pointer offset; the adjustments of the tail
  call, the one before the gap moves (with its pushes) and the one after them, move
  the stack pointer by exactly the delta, so a negative delta shrinks the stack by
  exactly that many slots, and a single adjustment with shrinkage allowed (the one
  after the gap moves) does so by itself. The code changes no register but \<open>rsp\<close>, and
  no memory unless it pushes. The slot numbers are of a size for which the 32-bit
  arithmetic does not wrap, and the conditions that the \<^verbatim>\<open>DCHECK\<close>s of the tier-up
  branch state hold.
\<close>

theorem tail_call_stack_pointer:
  assumes "slot_number (sp_to_fp_slot_count state)"
    and "slot_number (total_frame_slot_count state)"
    and "slot_number n"
    and "\<forall>move \<in> set pushes. slot_number (destination_index move) \<and>
           move_source move \<noteq> IsOther"
    and "kIsTailCallForTierUp call \<longrightarrow> tier_up_checks call state \<and> \<not> pushes_reach pushes n"
  shows
    "let S = sint (sp_to_fp_slot_count state);
         T = sint (total_frame_slot_count state);
         delta = (if kIsTailCallForTierUp call then - (T - 1) else sint n - (S + 2))
     in (\<exists>d. tail_call_stack_slot_delta debug call state n = Inr d \<and> sint d = delta) \<and>
        (kIsTailCallForTierUp call \<longrightarrow> delta \<le> 0) \<and>
        (\<exists>code state'.
           AssembleTailCallAfterGap debug call state n = Inr (code, state') \<and>
           sint (sp_to_fp_slot_count state') = S + delta \<and>
           (\<forall>s. x64_run code s = s\<lparr>rsp := rsp s - word_of_int (8 * delta)\<rparr>)) \<and>
        (\<exists>code state'.
           AssembleTailCallAdjustments debug call GetFrameOffset pushes state n =
             Inr (code, state') \<and>
           total_frame_slot_count state' = total_frame_slot_count state \<and>
           sint (sp_to_fp_slot_count state') = S + delta \<and>
           (\<forall>s. rsp (x64_run code s) = rsp s - word_of_int (8 * delta) \<and>
                rbp (x64_run code s) = rbp s \<and> gp (x64_run code s) = gp s \<and>
                xmm (x64_run code s) = xmm s \<and>
                (\<not> pushes_reach pushes n \<longrightarrow> mem (x64_run code s) = mem s) \<and>
                (kIsTailCallForTierUp call \<and>
                 rsp s = entry_rsp - word_of_int (8 * (T - 1)) \<longrightarrow>
                   rsp (x64_run code s) = entry_rsp)))"
proof (cases "kIsTailCallForTierUp call")
  case True
  let ?S = "sint (sp_to_fp_slot_count state)"
  let ?T = "sint (total_frame_slot_count state)"
  from True assms(5) have checks: "tier_up_checks call state"
    and reach: "\<not> pushes_reach pushes n" by simp_all
  then have T: "1 \<le> ?T" by (simp add: tier_up_checks_def)
  from tail_call_delta_tier_up [OF True checks, where debug = debug and n = n]
  have 1: "\<exists>d. tail_call_stack_slot_delta debug call state n = Inr d \<and> sint d = - (?T - 1)"
    by blast
  from adjust_tier_up [OF True checks assms(2,1), where debug = debug and n = n
      and allow = True]
  obtain code state' where a:
    "AdjustStackPointerForTailCall debug call state n True = Inr (code, state')"
    "sint (sp_to_fp_slot_count state') = ?S - (?T - 1)"
    "moves_rsp code ?S (sint (sp_to_fp_slot_count state'))"
    by auto
  have 3: "\<exists>code state'.
           AssembleTailCallAfterGap debug call state n = Inr (code, state') \<and>
           sint (sp_to_fp_slot_count state') = ?S + - (?T - 1) \<and>
           (\<forall>s. x64_run code s = s\<lparr>rsp := rsp s - word_of_int (8 * - (?T - 1))\<rparr>)"
    using a unfolding moves_rsp_def AssembleTailCallAfterGap_def
    by (intro exI [of _ code] exI [of _ state']) simp
  from adjustments_tier_up [OF True checks assms(2,1) reach, where debug = debug
      and GetFrameOffset = GetFrameOffset]
  obtain code' state'' where b:
    "AssembleTailCallAdjustments debug call GetFrameOffset pushes state n = Inr (code', state'')"
    "total_frame_slot_count state'' = total_frame_slot_count state"
    "sint (sp_to_fp_slot_count state'') = ?S - (?T - 1)"
    "moves_rsp code' ?S (sint (sp_to_fp_slot_count state''))"
    by auto
  from b(3,4) have run: "x64_run code' s = s\<lparr>rsp := rsp s - word_of_int (8 * - (?T - 1))\<rparr>"
    for s by (simp add: moves_rsp_def)
  have 4: "\<exists>code state'.
           AssembleTailCallAdjustments debug call GetFrameOffset pushes state n =
             Inr (code, state') \<and>
           total_frame_slot_count state' = total_frame_slot_count state \<and>
           sint (sp_to_fp_slot_count state') = ?S + - (?T - 1) \<and>
           (\<forall>s. rsp (x64_run code s) = rsp s - word_of_int (8 * - (?T - 1)) \<and>
                rbp (x64_run code s) = rbp s \<and> gp (x64_run code s) = gp s \<and>
                xmm (x64_run code s) = xmm s \<and>
                (\<not> pushes_reach pushes n \<longrightarrow> mem (x64_run code s) = mem s) \<and>
                (kIsTailCallForTierUp call \<and>
                 rsp s = entry_rsp - word_of_int (8 * (?T - 1)) \<longrightarrow>
                   rsp (x64_run code s) = entry_rsp))"
    using b(1,2,3) by (intro exI [of _ code'] exI [of _ state'']) (simp add: run)
  from True T 1 3 4 show ?thesis unfolding Let_def by simp
next
  case False
  let ?S = "sint (sp_to_fp_slot_count state)"
  let ?D = "sint n - (?S + 2)"
  from assms(1) have sb: "- (2 ^ 27) < ?S" "?S < 2 ^ 27" by (simp_all add: slot_number_def)
  from tail_call_delta_no_tier_up [OF False assms(1,3), where debug = debug]
  have 1: "\<exists>d. tail_call_stack_slot_delta debug call state n = Inr d \<and> sint d = ?D" .
  from adjust_no_tier_up_moves [OF False sb assms(3), where debug = debug and allow = True]
  obtain code state' where a:
    "AdjustStackPointerForTailCall debug call state n True = Inr (code, state')"
    "sint (sp_to_fp_slot_count state') = (if 0 < ?D \<or> ?D < 0 then sint n - 2 else ?S)"
    "moves_rsp code ?S (sint (sp_to_fp_slot_count state'))"
    by auto
  from a(2) have sp': "sint (sp_to_fp_slot_count state') = ?S + ?D" by (auto split: if_splits)
  have 3: "\<exists>code state'.
           AssembleTailCallAfterGap debug call state n = Inr (code, state') \<and>
           sint (sp_to_fp_slot_count state') = ?S + ?D \<and>
           (\<forall>s. x64_run code s = s\<lparr>rsp := rsp s - word_of_int (8 * ?D)\<rparr>)"
    using a(1,3) sp' unfolding moves_rsp_def AssembleTailCallAfterGap_def
    by (intro exI [of _ code] exI [of _ state']) simp
  from adjustments_no_tier_up [OF False assms(1,3,4), where debug = debug
      and GetFrameOffset = GetFrameOffset]
  obtain code' state'' where b:
    "AssembleTailCallAdjustments debug call GetFrameOffset pushes state n = Inr (code', state'')"
    "total_frame_slot_count state'' = total_frame_slot_count state"
    "sint (sp_to_fp_slot_count state'') = sint n - 2"
    "tracks code' ?S (sint n - 2)"
    "\<not> pushes_reach pushes n \<longrightarrow> moves_rsp code' ?S (sint n - 2)"
    by blast
  have eq: "8 * (sint n - 2 - ?S) = 8 * ?D" by simp
  have 4: "\<exists>code state'.
           AssembleTailCallAdjustments debug call GetFrameOffset pushes state n =
             Inr (code, state') \<and>
           total_frame_slot_count state' = total_frame_slot_count state \<and>
           sint (sp_to_fp_slot_count state') = ?S + ?D \<and>
           (\<forall>s. rsp (x64_run code s) = rsp s - word_of_int (8 * ?D) \<and>
                rbp (x64_run code s) = rbp s \<and> gp (x64_run code s) = gp s \<and>
                xmm (x64_run code s) = xmm s \<and>
                (\<not> pushes_reach pushes n \<longrightarrow> mem (x64_run code s) = mem s) \<and>
                (kIsTailCallForTierUp call \<and>
                 rsp s = entry_rsp - word_of_int (8 * (sint (total_frame_slot_count state) - 1)) \<longrightarrow>
                   rsp (x64_run code s) = entry_rsp))"
  proof (intro exI [of _ code'] exI [of _ state''] conjI allI)
    show "AssembleTailCallAdjustments debug call GetFrameOffset pushes state n =
        Inr (code', state'')" by (rule b(1))
    show "total_frame_slot_count state'' = total_frame_slot_count state" by (rule b(2))
    show "sint (sp_to_fp_slot_count state'') = ?S + ?D" using b(3) by simp
    fix s
    from b(4) show "rsp (x64_run code' s) = rsp s - word_of_int (8 * ?D)"
      unfolding tracks_def eq by blast
    from b(4) show "rbp (x64_run code' s) = rbp s" "gp (x64_run code' s) = gp s"
      "xmm (x64_run code' s) = xmm s"
      unfolding tracks_def by blast+
    from b(5) show "\<not> pushes_reach pushes n \<longrightarrow> mem (x64_run code' s) = mem s"
      by (auto dest: moves_rsp_mem)
    from False show "kIsTailCallForTierUp call \<and>
        rsp s = entry_rsp - word_of_int (8 * (sint (total_frame_slot_count state) - 1)) \<longrightarrow>
        rsp (x64_run code' s) = entry_rsp" by simp
  qed
  from False 1 3 4 show ?thesis unfolding Let_def by simp
qed

text \<open>
  The theorem at a frame of 8 slots with the stack pointer 6 slots below the frame
  pointer, in a debug build: a tail call to a callee whose first unused slot is 3
  shrinks the stack by five slots after the gap moves; the same tail call with a push
  to slot 2 shrinks by six slots and pushes; and a tier-up tail call takes \<open>rsp\<close> from
  1000 back to 1056, seven slots up.
\<close>

theorem tail_call_stack_pointer_witness:
  "AssembleTailCallAdjustments True
     \<lparr>kIsTailCallForTierUp = False, info_is_osr = False,
      incoming_CalleeSavedRegisters_is_empty = True,
      incoming_CalleeSavedFPRegisters_is_empty = True, frame_GetReturnSlotCount = 0\<rparr>
     (\<lambda>state index. (False, 0)) []
     \<lparr>total_frame_slot_count = 8, sp_to_fp_slot_count = 6\<rparr> 3 =
     Inr ([addq_rsp 40], \<lparr>total_frame_slot_count = 8, sp_to_fp_slot_count = 1\<rparr>) \<and>
   AssembleTailCallAdjustments True
     \<lparr>kIsTailCallForTierUp = False, info_is_osr = False,
      incoming_CalleeSavedRegisters_is_empty = True,
      incoming_CalleeSavedFPRegisters_is_empty = True, frame_GetReturnSlotCount = 0\<rparr>
     (\<lambda>state index. (False, 0)) [\<lparr>destination_index = 2, move_source = IsRegister 3\<rparr>]
     \<lparr>total_frame_slot_count = 8, sp_to_fp_slot_count = 6\<rparr> 3 =
     Inr ([addq_rsp 48, pushq 3], \<lparr>total_frame_slot_count = 8, sp_to_fp_slot_count = 1\<rparr>) \<and>
   AssembleTailCallAdjustments True
     \<lparr>kIsTailCallForTierUp = True, info_is_osr = False,
      incoming_CalleeSavedRegisters_is_empty = True,
      incoming_CalleeSavedFPRegisters_is_empty = True, frame_GetReturnSlotCount = 0\<rparr>
     (\<lambda>state index. (False, 0)) []
     \<lparr>total_frame_slot_count = 8, sp_to_fp_slot_count = 6\<rparr> 3 =
     Inr ([addq_rsp 56], \<lparr>total_frame_slot_count = 8, sp_to_fp_slot_count = - 1\<rparr>) \<and>
   rsp (x64_run [addq_rsp 56]
     \<lparr>rsp = 1000, rbp = 1040, gp = (\<lambda>r. 0), xmm = (\<lambda>x. (0, 0)), mem = (\<lambda>a. 0)\<rparr>) = 1056"
proof -
  let ?call = "\<lambda>t. \<lparr>kIsTailCallForTierUp = t, info_is_osr = False,
      incoming_CalleeSavedRegisters_is_empty = True,
      incoming_CalleeSavedFPRegisters_is_empty = True, frame_GetReturnSlotCount = 0\<rparr>"
  let ?state = "\<lparr>total_frame_slot_count = 8, sp_to_fp_slot_count = 6\<rparr>"
  let ?s = "\<lparr>rsp = 1000, rbp = 1040, gp = (\<lambda>r. 0), xmm = (\<lambda>x. (0, 0)), mem = (\<lambda>a. 0)\<rparr>"
  have numbers: "slot_number (8 :: int32)" "slot_number (6 :: int32)" "slot_number (3 :: int32)"
    "slot_number (2 :: int32)"
    by (simp_all add: slot_number_def)
  have checks: "tier_up_checks (?call True) ?state"
    by (simp add: tier_up_checks_def)
  note inst = tail_call_stack_pointer [where state = ?state and n = 3 and debug = True
      and GetFrameOffset = "\<lambda>state index. (False, 0)" and entry_rsp = 1056]
  from inst [where call = "?call False" and pushes = "[]"] numbers
  have "\<exists>code state'. AssembleTailCallAdjustments True (?call False) (\<lambda>state index. (False, 0))
      [] ?state 3 = Inr (code, state')"
    by (simp add: Let_def) blast
  moreover
  from inst [where call = "?call False"
      and pushes = "[\<lparr>destination_index = 2, move_source = IsRegister 3\<rparr>]"] numbers
  have "\<exists>code state'. AssembleTailCallAdjustments True (?call False) (\<lambda>state index. (False, 0))
      [\<lparr>destination_index = 2, move_source = IsRegister 3\<rparr>] ?state 3 = Inr (code, state')"
    by (simp add: Let_def) blast
  moreover
  from inst [where call = "?call True" and pushes = "[]"] numbers checks
  have "\<exists>code state'. AssembleTailCallAdjustments True (?call True) (\<lambda>state index. (False, 0))
      [] ?state 3 = Inr (code, state')"
    by (simp add: Let_def pushes_reach_def) blast
  moreover
  have "AssembleTailCallAdjustments True (?call False) (\<lambda>state index. (False, 0)) [] ?state 3 =
     Inr ([addq_rsp 40], \<lparr>total_frame_slot_count = 8, sp_to_fp_slot_count = 1\<rparr>)"
    by (simp add: AssembleTailCallAdjustments_def AssembleTailCallBeforeGap_def
        AssembleTailCallAfterGap_def AdjustStackPointerForTailCall_def
        tail_call_stack_slot_delta_def bindE_def IncreaseSPDelta_def int32_def Let_def
        kFixedSlotCountAboveFp_def kSystemPointerSize_def kReturnAddressStackSlotCount_def)
  moreover
  have "AssembleTailCallAdjustments True (?call False) (\<lambda>state index. (False, 0))
      [\<lparr>destination_index = 2, move_source = IsRegister 3\<rparr>] ?state 3 =
     Inr ([addq_rsp 48, pushq 3], \<lparr>total_frame_slot_count = 8, sp_to_fp_slot_count = 1\<rparr>)"
    by (simp add: AssembleTailCallAdjustments_def AssembleTailCallBeforeGap_def
        AssembleTailCallAfterGap_def AdjustStackPointerForTailCall_def
        tail_call_stack_slot_delta_def bindE_def IncreaseSPDelta_def int32_def Let_def
        kFixedSlotCountAboveFp_def kSystemPointerSize_def kReturnAddressStackSlotCount_def)
  moreover
  have "AssembleTailCallAdjustments True (?call True) (\<lambda>state index. (False, 0)) [] ?state 3 =
     Inr ([addq_rsp 56], \<lparr>total_frame_slot_count = 8, sp_to_fp_slot_count = - 1\<rparr>)"
    by (simp add: AssembleTailCallAdjustments_def AssembleTailCallBeforeGap_def
        AssembleTailCallAfterGap_def AdjustStackPointerForTailCall_def
        tail_call_stack_slot_delta_def bindE_def IncreaseSPDelta_def int32_def Let_def
        kFixedSlotCountAboveFp_def kSystemPointerSize_def kReturnAddressStackSlotCount_def)
  ultimately show ?thesis by simp
qed

section \<open>Proofs: write barrier\<close>

lemma jump_target_store:
  "jump_target (AssembleStoreWithWriteBarrier cfg arch_opcode mode)
     (out_of_line_block (OutOfLineRecordWrite_Generate cfg mode)) l =
   (case l of
      ool_exit \<Rightarrow> Some []
    | ool_entry \<Rightarrow> Some (OutOfLineRecordWrite_Generate cfg mode @ [jmp ool_exit]))"
  by (cases l)
     (simp_all add: jump_target_def AssembleStoreWithWriteBarrier_def out_of_line_block_def)

lemma run_store_with_write_barrier_fuel:
  "run_store_with_write_barrier chunk cfg arch_opcode mode env (Suc (Suc n)) =
     Some
       (if debug_code cfg \<and> value_is_cleared env then [Aborted]
        else
          [Stored (if arch_opcode = kArchStoreWithWriteBarrier then memory_order_relaxed
                   else memory_order_seq_cst)] @
          (if and (object_page_flags env) (POINTERS_FROM_HERE_ARE_INTERESTING chunk) \<noteq> 0 \<and>
              (RecordWriteMode_index kValueIsPointer < RecordWriteMode_index mode \<longrightarrow>
                 \<not> value_is_smi env) \<and>
              (and (value_page_flags env) (POINTERS_TO_HERE_ARE_INTERESTING chunk) \<noteq> 0 \<or>
               and (value_page_flags env) (IN_SHARED_HEAP chunk) \<noteq> 0)
           then [if mode = kValueIsEphemeronKey
                 then Called_EphemeronKeyBarrier
                        (if DidAllocateDoubleRegisters cfg then kSave else kIgnore)
                 else Called_RecordWriteStub
                        (if DidAllocateDoubleRegisters cfg then kSave else kIgnore)
                        (if V8_ENABLE_WEBASSEMBLY cfg \<and> stub_mode cfg = kCallWasmRuntimeStub
                         then kCallWasmRuntimeStub else kCallBuiltinPointer)]
           else []))"
proof -
  have split_or: "and w (or a b) = 0 \<longleftrightarrow> and w a = 0 \<and> and w b = 0" for w a b :: "64 word"
    by (simp add: bit.conj_disj_distrib or_eq_0_iff)
  show ?thesis
    unfolding run_store_with_write_barrier_def Let_def jump_target_store
    by (cases mode)
       (auto simp add: AssembleStoreWithWriteBarrier_def OutOfLineRecordWrite_Generate_def
        page_flag_jumps_def mask_bits_def split_or Let_def)
qed

text \<open>
  Claim C6, as the spec has it, fails in one clause: the routine is not skipped for
  every value whose page has no interesting pointers to it. The out-of-line block
  tests the mask of two flags, so for a value in a page of the shared heap, with the
  flag \<^verbatim>\<open>POINTERS_TO_HERE_ARE_INTERESTING\<close> not set, the record-write stub is called.
\<close>

theorem shared_heap_value_counterexample:
  "and (value_page_flags
         \<lparr>object_page_flags = 4, value_page_flags = 8, value_is_smi = False,
          value_is_cleared = False\<rparr>)
       (POINTERS_TO_HERE_ARE_INTERESTING
         \<lparr>POINTERS_FROM_HERE_ARE_INTERESTING = 4, POINTERS_TO_HERE_ARE_INTERESTING = 2,
          IN_SHARED_HEAP = 8\<rparr>) = 0 \<and>
   run_store_with_write_barrier
     \<lparr>POINTERS_FROM_HERE_ARE_INTERESTING = 4, POINTERS_TO_HERE_ARE_INTERESTING = 2,
      IN_SHARED_HEAP = 8\<rparr>
     \<lparr>debug_code = False, COMPRESS_POINTERS_BOOL = False, V8_ENABLE_WEBASSEMBLY = False,
      DidAllocateDoubleRegisters = False, stub_mode = kCallCodeObject\<rparr>
     kArchStoreWithWriteBarrier kValueIsAny
     \<lparr>object_page_flags = 4, value_page_flags = 8, value_is_smi = False,
      value_is_cleared = False\<rparr> 2
   = Some [Stored memory_order_relaxed, Called_RecordWriteStub kIgnore kCallBuiltinPointer]"
  using run_store_with_write_barrier_fuel [where n = 0 and
      chunk = "\<lparr>POINTERS_FROM_HERE_ARE_INTERESTING = 4, POINTERS_TO_HERE_ARE_INTERESTING = 2,
               IN_SHARED_HEAP = 8\<rparr>" and
      cfg = "\<lparr>debug_code = False, COMPRESS_POINTERS_BOOL = False,
              V8_ENABLE_WEBASSEMBLY = False, DidAllocateDoubleRegisters = False,
              stub_mode = kCallCodeObject\<rparr>" and
      arch_opcode = kArchStoreWithWriteBarrier and mode = kValueIsAny and
      env = "\<lparr>object_page_flags = 4, value_page_flags = 8, value_is_smi = False,
             value_is_cleared = False\<rparr>"]
  by (simp add: numeral_2_eq_2 [symmetric])

text \<open>
  Claim C6, amended. For a reference store with write barrier, plain or atomic, run
  with fuel for its two jumps: with \<^verbatim>\<open>debug_code\<close> a cleared weak reference aborts
  before the store. Otherwise the store is done, and a runtime recording routine is
  called exactly when the flags of the object's page meet
  \<^verbatim>\<open>POINTERS_FROM_HERE_ARE_INTERESTING\<close>, the value is not a smi in the modes above
  \<^verbatim>\<open>kValueIsPointer\<close> (the modes in which it may be one), and, in the out-of-line
  block, the flags of the value's page meet \<^verbatim>\<open>POINTERS_TO_HERE_ARE_INTERESTING\<close> or
  \<^verbatim>\<open>IN_SHARED_HEAP\<close>: the routine is skipped when the value's page has neither flag.
  The routine is called once: \<^verbatim>\<open>CallEphemeronKeyBarrier\<close> for an ephemeron key, the
  record-write stub otherwise, and it saves the floating-point registers exactly when
  the frame allocated double registers.
\<close>

theorem store_with_write_barrier_effects:
  assumes "2 \<le> fuel"
  shows "run_store_with_write_barrier chunk cfg arch_opcode mode env fuel =
     Some
       (if debug_code cfg \<and> value_is_cleared env then [Aborted]
        else
          [Stored (if arch_opcode = kArchStoreWithWriteBarrier then memory_order_relaxed
                   else memory_order_seq_cst)] @
          (if and (object_page_flags env) (POINTERS_FROM_HERE_ARE_INTERESTING chunk) \<noteq> 0 \<and>
              (RecordWriteMode_index kValueIsPointer < RecordWriteMode_index mode \<longrightarrow>
                 \<not> value_is_smi env) \<and>
              (and (value_page_flags env) (POINTERS_TO_HERE_ARE_INTERESTING chunk) \<noteq> 0 \<or>
               and (value_page_flags env) (IN_SHARED_HEAP chunk) \<noteq> 0)
           then [if mode = kValueIsEphemeronKey
                 then Called_EphemeronKeyBarrier
                        (if DidAllocateDoubleRegisters cfg then kSave else kIgnore)
                 else Called_RecordWriteStub
                        (if DidAllocateDoubleRegisters cfg then kSave else kIgnore)
                        (if V8_ENABLE_WEBASSEMBLY cfg \<and> stub_mode cfg = kCallWasmRuntimeStub
                         then kCallWasmRuntimeStub else kCallBuiltinPointer)]
           else []))"
proof -
  from assms obtain n where fuel: "fuel = Suc (Suc n)"
    by (metis Suc_le_D numeral_2_eq_2 Suc_le_mono)
  show ?thesis unfolding fuel by (rule run_store_with_write_barrier_fuel)
qed

text \<open>
  The theorem at an ephemeron-key store into a page with the flag set, of a value that
  is no smi and lies in a page with interesting pointers to it, in a frame with double
  registers.
\<close>

theorem store_with_write_barrier_effects_witness:
  "run_store_with_write_barrier
     \<lparr>POINTERS_FROM_HERE_ARE_INTERESTING = 4, POINTERS_TO_HERE_ARE_INTERESTING = 2,
      IN_SHARED_HEAP = 8\<rparr>
     \<lparr>debug_code = True, COMPRESS_POINTERS_BOOL = True, V8_ENABLE_WEBASSEMBLY = True,
      DidAllocateDoubleRegisters = True, stub_mode = kCallCodeObject\<rparr>
     kArchAtomicStoreWithWriteBarrier kValueIsEphemeronKey
     \<lparr>object_page_flags = 6, value_page_flags = 2, value_is_smi = False,
      value_is_cleared = False\<rparr> 2
   = Some [Stored memory_order_seq_cst, Called_EphemeronKeyBarrier kSave]"
  using store_with_write_barrier_effects [where fuel = 2 and
      chunk = "\<lparr>POINTERS_FROM_HERE_ARE_INTERESTING = 4, POINTERS_TO_HERE_ARE_INTERESTING = 2,
               IN_SHARED_HEAP = 8\<rparr>" and
      cfg = "\<lparr>debug_code = True, COMPRESS_POINTERS_BOOL = True, V8_ENABLE_WEBASSEMBLY = True,
              DidAllocateDoubleRegisters = True, stub_mode = kCallCodeObject\<rparr>" and
      arch_opcode = kArchAtomicStoreWithWriteBarrier and mode = kValueIsEphemeronKey and
      env = "\<lparr>object_page_flags = 6, value_page_flags = 2, value_is_smi = False,
             value_is_cleared = False\<rparr>"]
  by simp

section \<open>Proofs: deferred code\<close>

lemma fold_PushDeferredCode:
  "fold PushDeferredCode ds st = st\<lparr>deferred_code := deferred_code st @ ds\<rparr>"
  by (induction ds arbitrary: st) (simp_all add: PushDeferredCode_def)

lemma emit_deferred_block_queue:
  "\<exists>s. deferred_code (emit_deferred_block G d st) = deferred_code st @ snd (G d s)"
proof
  show "deferred_code (emit_deferred_block G d st) = deferred_code st @ snd (G d
      (st\<lparr>masm := masm st @ [RecordComment ''-- Deferred block'', bind_deferred_code_label d]\<rparr>))"
    by (simp add: emit_deferred_block_def run_Generate_def Let_def fold_PushDeferredCode
        split: prod.splits)
qed

lemma emit_deferred_block_masm:
  "\<exists>ys. masm (emit_deferred_block G d st) = masm st @ ys \<and> bind_deferred_code_label d \<in> set ys"
  by (auto simp add: emit_deferred_block_def run_Generate_def Let_def fold_PushDeferredCode
      split: prod.splits)

lemma fold_emit_queue:
  assumes "d' \<in> set (deferred_code (fold (emit_deferred_block G) ds st))"
  shows "d' \<in> set (deferred_code st) \<or> (\<exists>d \<in> set ds. \<exists>s. d' \<in> set (snd (G d s)))"
  using assms
proof (induction ds arbitrary: st)
  case Nil
  then show ?case by simp
next
  case (Cons d ds)
  from Cons.prems have "d' \<in> set (deferred_code (fold (emit_deferred_block G) ds
      (emit_deferred_block G d st)))" by simp
  from Cons.IH [OF this] show ?case
  proof
    assume "d' \<in> set (deferred_code (emit_deferred_block G d st))"
    with emit_deferred_block_queue [of G d st] show ?thesis by auto
  next
    assume "\<exists>d \<in> set ds. \<exists>s. d' \<in> set (snd (G d s))"
    then show ?thesis by auto
  qed
qed

lemma fold_emit_masm:
  "\<exists>ys. masm (fold (emit_deferred_block G) ds st) = masm st @ ys \<and>
        (\<forall>d \<in> set ds. bind_deferred_code_label d \<in> set ys)"
proof (induction ds arbitrary: st)
  case Nil
  then show ?case by simp
next
  case (Cons d ds)
  obtain ys where ys: "masm (emit_deferred_block G d st) = masm st @ ys"
    "bind_deferred_code_label d \<in> set ys"
    using emit_deferred_block_masm [of G d st] by blast
  obtain zs where zs: "masm (fold (emit_deferred_block G) ds (emit_deferred_block G d st))
      = masm (emit_deferred_block G d st) @ zs"
    "\<forall>d \<in> set ds. bind_deferred_code_label d \<in> set zs"
    using Cons.IH [of "emit_deferred_block G d st"] by blast
  show ?case
  proof (intro exI conjI)
    show "masm (fold (emit_deferred_block G) (d # ds) st) = masm st @ (ys @ zs)"
      using ys zs by simp
    show "\<forall>d \<in> set (d # ds). bind_deferred_code_label d \<in> set (ys @ zs)"
      using ys zs by auto
  qed
qed

lemma drain_queue:
  assumes "d' \<in> set (deferred_code (drain_deferred_code G st))"
  shows "\<exists>d \<in> set (deferred_code st). \<exists>s. d' \<in> set (snd (G d s))"
  using assms fold_emit_queue [of d' G "deferred_code st" "st\<lparr>deferred_code := []\<rparr>"]
  by (simp add: drain_deferred_code_def TakeDeferredCode_def)

lemma drain_masm:
  "\<exists>ys. masm (drain_deferred_code G st) = masm st @ ys \<and>
        (\<forall>d \<in> set (deferred_code st). bind_deferred_code_label d \<in> set ys)"
  using fold_emit_masm [of G "deferred_code st" "st\<lparr>deferred_code := []\<rparr>"]
  by (simp add: drain_deferred_code_def TakeDeferredCode_def)

lemma drain_funpow_masm:
  "set (masm st) \<subseteq> set (masm ((drain_deferred_code G ^^ n) st))"
proof (induction n)
  case 0
  then show ?case by simp
next
  case (Suc n)
  from drain_masm [of G "(drain_deferred_code G ^^ n) st"]
  have "set (masm ((drain_deferred_code G ^^ n) st))
      \<subseteq> set (masm ((drain_deferred_code G ^^ Suc n) st))" by auto
  with Suc show ?case by blast
qed

lemma EmitDeferredCode_returns_empty:
  "EmitDeferredCode G st = Some st' \<Longrightarrow> deferred_code st' = []"
proof (rule EmitDeferredCode.raw_induct [where P = "\<lambda>G st st'. deferred_code st' = []"])
  fix f :: "('a, 'b) generate \<Rightarrow> ('a, 'b) code_gen_state \<Rightarrow> ('a, 'b) code_gen_state option"
    and G st st'
  assume "\<And>G st y. f G st = Some y \<Longrightarrow> deferred_code y = []"
    and "(if deferred_code st \<noteq> [] then f G (drain_deferred_code G st) else Some st) = Some st'"
  then show "deferred_code st' = []" by (auto split: if_splits)
qed

subsection \<open>One pass\<close>

lemma emit_deferred_block_eq:
  "emit_deferred_block G d st =
     (let seen = st\<lparr>masm := masm st @ [RecordComment ''-- Deferred block'',
                                         bind_deferred_code_label d]\<rparr>
      in st\<lparr>deferred_code := deferred_code st @ snd (G d seen),
            masm := masm st @ block_code G d seen\<rparr>)"
  by (simp add: emit_deferred_block_def run_Generate_def Let_def fold_PushDeferredCode
      block_code_def split: prod.splits)

lemma fold_emit_deferred_block:
  "fold (emit_deferred_block G) ds st =
     st\<lparr>deferred_code := deferred_code st @
            concat (map (\<lambda>(d, seen). snd (G d seen)) (blocks_of_pass G ds st)),
         masm := masm st @
            concat (map (\<lambda>(d, seen). block_code G d seen) (blocks_of_pass G ds st))\<rparr>"
proof (induction ds arbitrary: st)
  case Nil
  then show ?case by simp
next
  case (Cons d ds)
  have "fold (emit_deferred_block G) (d # ds) st =
      fold (emit_deferred_block G) ds (emit_deferred_block G d st)"
    by simp
  also have "\<dots> = (emit_deferred_block G d st)\<lparr>deferred_code :=
        deferred_code (emit_deferred_block G d st) @
          concat (map (\<lambda>(d, seen). snd (G d seen))
            (blocks_of_pass G ds (emit_deferred_block G d st))),
      masm := masm (emit_deferred_block G d st) @
          concat (map (\<lambda>(d, seen). block_code G d seen)
            (blocks_of_pass G ds (emit_deferred_block G d st)))\<rparr>"
    by (rule Cons.IH)
  also have "\<dots> = st\<lparr>deferred_code := deferred_code st @
            concat (map (\<lambda>(d, seen). snd (G d seen)) (blocks_of_pass G (d # ds) st)),
         masm := masm st @
            concat (map (\<lambda>(d, seen). block_code G d seen) (blocks_of_pass G (d # ds) st))\<rparr>"
    by (simp add: emit_deferred_block_eq Let_def)
  finally show ?case .
qed

lemma blocks_of_pass_blocks: "map fst (blocks_of_pass G ds st) = ds"
  by (induction ds arbitrary: st) (simp_all add: Let_def)

lemma drain_deferred_code_pass:
  "drain_deferred_code G st =
     st\<lparr>deferred_code :=
            concat (map (\<lambda>(d, seen). snd (G d seen))
              (blocks_of_pass G (deferred_code st) (st\<lparr>deferred_code := []\<rparr>))),
         masm := masm st @
            concat (map (\<lambda>(d, seen). block_code G d seen)
              (blocks_of_pass G (deferred_code st) (st\<lparr>deferred_code := []\<rparr>)))\<rparr>"
  by (simp add: drain_deferred_code_def TakeDeferredCode_def fold_emit_deferred_block)

lemma bound_blocks_append: "bound_blocks (xs @ ys) = bound_blocks xs @ bound_blocks ys"
  by (induction xs rule: bound_blocks.induct) simp_all

lemma bound_blocks_Generated [simp]: "bound_blocks (map Generated is) = []"
  by (induction "is") simp_all

lemma bound_blocks_block_code [simp]: "bound_blocks (block_code G d seen) = [d]"
  by (simp add: block_code_def bound_blocks_append)

lemma bound_blocks_pass:
  "bound_blocks (concat (map (\<lambda>(d, seen). block_code G d seen) tr)) = map fst tr"
  by (induction tr) (auto simp add: bound_blocks_append)

lemma bound_blocks_drain:
  "bound_blocks (masm (drain_deferred_code G st)) = bound_blocks (masm st) @ deferred_code st"
  by (simp add: drain_deferred_code_pass bound_blocks_append bound_blocks_pass
      blocks_of_pass_blocks)

subsection \<open>The loop\<close>

lemma EmitDeferredCode_ranked:
  assumes rank: "\<And>d s d'. d' \<in> set (snd (G d s)) \<Longrightarrow> rank d' < (rank d :: nat)"
    and "\<forall>d \<in> set (deferred_code st). rank d < b"
  shows "\<exists>n \<le> b. EmitDeferredCode G st = Some ((drain_deferred_code G ^^ n) st) \<and>
           deferred_code ((drain_deferred_code G ^^ n) st) = [] \<and>
           (\<forall>k < n. deferred_code ((drain_deferred_code G ^^ k) st) \<noteq> []) \<and>
           bound_blocks (masm ((drain_deferred_code G ^^ n) st)) =
             bound_blocks (masm st) @
             concat (map (\<lambda>k. deferred_code ((drain_deferred_code G ^^ k) st)) [0..<n])"
  using assms(2)
proof (induction b arbitrary: st)
  case 0
  then have "deferred_code st = []" by (cases "deferred_code st") auto
  then show ?case by (auto simp add: EmitDeferredCode.simps)
next
  case (Suc b)
  show ?case
  proof (cases "deferred_code st = []")
    case True
    then show ?thesis
      by (intro exI [of _ 0]) (simp add: EmitDeferredCode.simps)
  next
    case False
    let ?st1 = "drain_deferred_code G st"
    have "\<forall>d \<in> set (deferred_code ?st1). rank d < b"
    proof
      fix d' assume "d' \<in> set (deferred_code ?st1)"
      from drain_queue [OF this] obtain d s
        where d: "d \<in> set (deferred_code st)" "d' \<in> set (snd (G d s))"
        by blast
      from rank [OF d(2)] Suc.prems d(1) show "rank d' < b" by fastforce
    qed
    from Suc.IH [OF this] obtain n where n: "n \<le> b"
      "EmitDeferredCode G ?st1 = Some ((drain_deferred_code G ^^ n) ?st1)"
      "deferred_code ((drain_deferred_code G ^^ n) ?st1) = []"
      "\<forall>k < n. deferred_code ((drain_deferred_code G ^^ k) ?st1) \<noteq> []"
      "bound_blocks (masm ((drain_deferred_code G ^^ n) ?st1)) =
         bound_blocks (masm ?st1) @
         concat (map (\<lambda>k. deferred_code ((drain_deferred_code G ^^ k) ?st1)) [0..<n])"
      by blast
    have shift: "\<And>k. (drain_deferred_code G ^^ k) ?st1 = (drain_deferred_code G ^^ Suc k) st"
      by (simp add: funpow_swap1)
    have passes: "map (\<lambda>k. deferred_code ((drain_deferred_code G ^^ k) st)) [0..<Suc n] =
        deferred_code st # map (\<lambda>k. deferred_code ((drain_deferred_code G ^^ Suc k) st)) [0..<n]"
      by (simp only: upt_conv_Cons [of 0 "Suc n"] map_Suc_upt [symmetric] list.map map_map
          comp_def zero_less_Suc if_True funpow_0)
    show ?thesis
    proof (intro exI [of _ "Suc n"] conjI allI impI)
      show "Suc n \<le> Suc b" using n(1) by simp
      show "EmitDeferredCode G st = Some ((drain_deferred_code G ^^ Suc n) st)"
        using False n(2) unfolding shift by (subst EmitDeferredCode.simps) simp
      show "deferred_code ((drain_deferred_code G ^^ Suc n) st) = []"
        using n(3) unfolding shift .
      show "deferred_code ((drain_deferred_code G ^^ k) st) \<noteq> []" if "k < Suc n" for k
      proof (cases k)
        case 0 with False show ?thesis by simp
      next
        case (Suc j)
        with that n(4) have "deferred_code ((drain_deferred_code G ^^ j) ?st1) \<noteq> []" by simp
        then show ?thesis unfolding shift Suc .
      qed
      show "bound_blocks (masm ((drain_deferred_code G ^^ Suc n) st)) =
          bound_blocks (masm st) @
          concat (map (\<lambda>k. deferred_code ((drain_deferred_code G ^^ k) st)) [0..<Suc n])"
        using n(5) unfolding shift passes by (simp add: bound_blocks_drain)
    qed
  qed
qed

text \<open>
  The hypothesis on the ranks cannot be dropped for an arbitrary \<open>Generate\<close>: with a
  block whose generation pushes the block again the loop does not return.
\<close>

lemma requeue_drain:
  "deferred_code (fold (emit_deferred_block (\<lambda>d s. ([], [d]))) ds st) = deferred_code st @ ds"
  by (induction ds arbitrary: st)
     (simp_all add: emit_deferred_block_def run_Generate_def PushDeferredCode_def)

lemma requeue_never_returns:
  assumes "EmitDeferredCode G st = Some st'"
  shows "G = (\<lambda>d s. ([], [d])) \<longrightarrow> deferred_code st = []"
proof (rule EmitDeferredCode.raw_induct
    [where P = "\<lambda>G st st'. G = (\<lambda>d s. ([], [d])) \<longrightarrow> deferred_code st = []", OF _ assms])
  fix f :: "('a, 'b) generate \<Rightarrow> ('a, 'b) code_gen_state \<Rightarrow> ('a, 'b) code_gen_state option"
    and G st st'
  assume ih: "\<And>G st y. f G st = Some y \<Longrightarrow> G = (\<lambda>d s. ([], [d])) \<longrightarrow> deferred_code st = []"
    and body: "(if deferred_code st \<noteq> [] then f G (drain_deferred_code G st) else Some st)
      = Some st'"
  show "G = (\<lambda>d s. ([], [d])) \<longrightarrow> deferred_code st = []"
  proof (intro impI, rule ccontr)
    assume g: "G = (\<lambda>d s. ([], [d]))" and ne: "deferred_code st \<noteq> []"
    with body have "f G (drain_deferred_code G st) = Some st'" by simp
    from ih [OF this] g have "deferred_code (drain_deferred_code G st) = []" by blast
    with ne g show False
      by (simp add: drain_deferred_code_def TakeDeferredCode_def requeue_drain)
  qed
qed

lemma EmitDeferredCode_requeue:
  "EmitDeferredCode (\<lambda>d s. ([] :: nat list, [d])) \<lparr>deferred_code = [0 :: nat], masm = []\<rparr> = None"
proof (cases "EmitDeferredCode (\<lambda>d s. ([] :: nat list, [d])) \<lparr>deferred_code = [0 :: nat], masm = []\<rparr>")
  case None
  then show ?thesis .
next
  case (Some st')
  from requeue_never_returns [OF Some] show ?thesis by simp
qed

lemma assembler_Generate_ranked:
  assumes "d' \<in> set (snd (assembler_Generate instructions d s))"
  shows "(if d' = StringFromCharCode_two_byte then 1 else 0 :: nat) <
         (if d = StringFromCharCode_two_byte then 1 else 0)"
  using assms by (cases d) (simp_all add: assembler_Generate_def)

lemma EmitDeferredCode_assembler_blocks:
  "\<exists>n \<le> 2. EmitDeferredCode (assembler_Generate instructions) st =
            Some ((drain_deferred_code (assembler_Generate instructions) ^^ n) st) \<and>
          deferred_code ((drain_deferred_code (assembler_Generate instructions) ^^ n) st) = []"
proof -
  have "\<exists>n \<le> 2. EmitDeferredCode (assembler_Generate instructions) st =
            Some ((drain_deferred_code (assembler_Generate instructions) ^^ n) st) \<and>
          deferred_code ((drain_deferred_code (assembler_Generate instructions) ^^ n) st) = [] \<and>
          (\<forall>k < n. deferred_code
             ((drain_deferred_code (assembler_Generate instructions) ^^ k) st) \<noteq> []) \<and>
          bound_blocks (masm ((drain_deferred_code (assembler_Generate instructions) ^^ n) st)) =
             bound_blocks (masm st) @
             concat (map (\<lambda>k. deferred_code
               ((drain_deferred_code (assembler_Generate instructions) ^^ k) st)) [0..<n])"
  proof (rule EmitDeferredCode_ranked
      [where rank = "\<lambda>d. if d = StringFromCharCode_two_byte then 1 else 0 :: nat"])
    show "\<And>d s d'. d' \<in> set (snd (assembler_Generate instructions d s)) \<Longrightarrow>
        (if d' = StringFromCharCode_two_byte then 1 else 0 :: nat) <
        (if d = StringFromCharCode_two_byte then 1 else 0)"
      by (rule assembler_Generate_ranked)
    show "\<forall>d \<in> set (deferred_code st).
        (if d = StringFromCharCode_two_byte then 1 else 0 :: nat) < 2"
      by simp
  qed
  then show ?thesis by blast
qed

text \<open>
  Claim C5. Each pass of the outer loop takes the whole queue and generates every
  block taken, in the order of the queue: the pass appends to the buffer, for each
  block, the comment, the label, the code the block generates and the trap, and it
  leaves as the queue the blocks pushed during the pass, which the next pass takes.
  Whenever \<^verbatim>\<open>EmitDeferredCode\<close> returns, the queue is empty. The loop is finite when the
  nesting of deferred blocks is: if every block pushed by the generation of a block has
  a smaller rank than that block, and the ranks of the blocks queued at the start are
  below \<open>b\<close>, then \<^verbatim>\<open>EmitDeferredCode\<close> returns after at most \<open>b\<close> passes, and the labels
  bound by it are those of the blocks taken by the passes, each once and in order. The
  blocks of maglev-assembler-x64.cc have the ranks 0 and 1.
\<close>

theorem EmitDeferredCode_drains:
  "(let pass = blocks_of_pass Generate (deferred_code st) (st\<lparr>deferred_code := []\<rparr>)
    in map fst pass = deferred_code st \<and>
       masm (drain_deferred_code Generate st) =
         masm st @ concat (map (\<lambda>(d, seen). block_code Generate d seen) pass) \<and>
       deferred_code (drain_deferred_code Generate st) =
         concat (map (\<lambda>(d, seen). snd (Generate d seen)) pass)) \<and>
   (\<forall>st'. EmitDeferredCode Generate st = Some st' \<longrightarrow> deferred_code st' = []) \<and>
   ((\<forall>d s d'. d' \<in> set (snd (Generate d s)) \<longrightarrow> rank d' < (rank d :: nat)) \<and>
    (\<forall>d \<in> set (deferred_code st). rank d < b) \<longrightarrow>
    (\<exists>n \<le> b. EmitDeferredCode Generate st = Some ((drain_deferred_code Generate ^^ n) st) \<and>
       deferred_code ((drain_deferred_code Generate ^^ n) st) = [] \<and>
       (\<forall>k < n. deferred_code ((drain_deferred_code Generate ^^ k) st) \<noteq> []) \<and>
       bound_blocks (masm ((drain_deferred_code Generate ^^ n) st)) =
         bound_blocks (masm st) @
         concat (map (\<lambda>k. deferred_code ((drain_deferred_code Generate ^^ k) st)) [0..<n])))"
proof (intro conjI allI impI)
  show "let pass = blocks_of_pass Generate (deferred_code st) (st\<lparr>deferred_code := []\<rparr>)
    in map fst pass = deferred_code st \<and>
       masm (drain_deferred_code Generate st) =
         masm st @ concat (map (\<lambda>(d, seen). block_code Generate d seen) pass) \<and>
       deferred_code (drain_deferred_code Generate st) =
         concat (map (\<lambda>(d, seen). snd (Generate d seen)) pass)"
    unfolding Let_def
    by (simp add: blocks_of_pass_blocks drain_deferred_code_pass [of Generate st])
next
  fix st' assume "EmitDeferredCode Generate st = Some st'"
  then show "deferred_code st' = []" by (rule EmitDeferredCode_returns_empty)
next
  assume a: "(\<forall>d s d'. d' \<in> set (snd (Generate d s)) \<longrightarrow> rank d' < rank d) \<and>
    (\<forall>d \<in> set (deferred_code st). rank d < b)"
  then have r: "\<And>d s d'. d' \<in> set (snd (Generate d s)) \<Longrightarrow> rank d' < rank d" by blast
  from a have q: "\<forall>d \<in> set (deferred_code st). rank d < b" by blast
  show "\<exists>n \<le> b. EmitDeferredCode Generate st = Some ((drain_deferred_code Generate ^^ n) st) \<and>
       deferred_code ((drain_deferred_code Generate ^^ n) st) = [] \<and>
       (\<forall>k < n. deferred_code ((drain_deferred_code Generate ^^ k) st) \<noteq> []) \<and>
       bound_blocks (masm ((drain_deferred_code Generate ^^ n) st)) =
         bound_blocks (masm st) @
         concat (map (\<lambda>k. deferred_code ((drain_deferred_code Generate ^^ k) st)) [0..<n])"
  proof (rule EmitDeferredCode_ranked [where rank = rank])
    show "\<And>d s d'. d' \<in> set (snd (Generate d s)) \<Longrightarrow> rank d' < rank d" by (rule r)
    show "\<forall>d \<in> set (deferred_code st). rank d < b" by (rule q)
  qed
qed

text \<open>
  The theorem at the blocks of \<^verbatim>\<open>StringFromCharCode\<close> and of \<^verbatim>\<open>ToBoolean\<close>, each
  generating one instruction: the first pass generates the two blocks, the second the
  block of \<^verbatim>\<open>Allocate\<close> that the first pushed, and the loop returns with an empty queue.
\<close>

theorem EmitDeferredCode_drains_witness:
  "EmitDeferredCode (assembler_Generate (\<lambda>d. [d]))
     \<lparr>deferred_code = [StringFromCharCode_two_byte, ToBoolean_smi], masm = []\<rparr> =
   Some \<lparr>deferred_code = [],
         masm = [RecordComment ''-- Deferred block'',
                 bind_deferred_code_label StringFromCharCode_two_byte,
                 Generated StringFromCharCode_two_byte, Trap,
                 RecordComment ''-- Deferred block'', bind_deferred_code_label ToBoolean_smi,
                 Generated ToBoolean_smi, Trap,
                 RecordComment ''-- Deferred block'',
                 bind_deferred_code_label Allocate_runtime_call,
                 Generated Allocate_runtime_call, Trap]\<rparr>"
proof -
  let ?G = "assembler_Generate (\<lambda>d. [d]) ::
    (assembler_deferred_code, assembler_deferred_code) generate"
  let ?st = "\<lparr>deferred_code = [StringFromCharCode_two_byte, ToBoolean_smi],
              masm = [] :: (assembler_deferred_code, assembler_deferred_code) masm_item list\<rparr>"
  let ?rank = "\<lambda>d. if d = StringFromCharCode_two_byte then 1 else 0 :: nat"
  have hyp: "(\<forall>d s d'. d' \<in> set (snd (?G d s)) \<longrightarrow> ?rank d' < ?rank d) \<and>
      (\<forall>d \<in> set (deferred_code ?st). ?rank d < 2)"
    using assembler_Generate_ranked [where instructions = "\<lambda>d. [d]"] by simp
  from EmitDeferredCode_drains [where Generate = ?G and rank = ?rank and st = ?st and b = 2] hyp
  obtain n where n: "n \<le> 2"
    "EmitDeferredCode ?G ?st = Some ((drain_deferred_code ?G ^^ n) ?st)"
    "deferred_code ((drain_deferred_code ?G ^^ n) ?st) = []"
    by blast
  have one: "drain_deferred_code ?G ?st =
      \<lparr>deferred_code = [Allocate_runtime_call],
       masm = [RecordComment ''-- Deferred block'',
                 bind_deferred_code_label StringFromCharCode_two_byte,
                 Generated StringFromCharCode_two_byte, Trap,
                 RecordComment ''-- Deferred block'', bind_deferred_code_label ToBoolean_smi,
                 Generated ToBoolean_smi, Trap]\<rparr>"
    by (simp add: drain_deferred_code_def TakeDeferredCode_def emit_deferred_block_def
        run_Generate_def PushDeferredCode_def assembler_Generate_def)
  have two: "drain_deferred_code ?G (drain_deferred_code ?G ?st) =
      \<lparr>deferred_code = [],
       masm = [RecordComment ''-- Deferred block'',
                 bind_deferred_code_label StringFromCharCode_two_byte,
                 Generated StringFromCharCode_two_byte, Trap,
                 RecordComment ''-- Deferred block'', bind_deferred_code_label ToBoolean_smi,
                 Generated ToBoolean_smi, Trap,
                 RecordComment ''-- Deferred block'',
                 bind_deferred_code_label Allocate_runtime_call,
                 Generated Allocate_runtime_call, Trap]\<rparr>"
    unfolding one
    by (simp add: drain_deferred_code_def TakeDeferredCode_def emit_deferred_block_def
        run_Generate_def PushDeferredCode_def assembler_Generate_def)
  from n(1) consider "n = 0" | "n = 1" | "n = 2" by linarith
  then show ?thesis
  proof cases
    case 1
    with n(3) show ?thesis by simp
  next
    case 2
    with n(3) one show ?thesis by simp
  next
    case 3
    with n(2) two show ?thesis by (simp add: numeral_2_eq_2)
  qed
qed

section \<open>Proofs: deoptimization translations\<close>

declare StoreOptimizedOut_while.simps [simp del]

lemma bindE_Inr [simp]: "bindE (Inr x) f = f x"
  by (simp add: bindE_def)

lemma bindE_Inl [simp]: "bindE (Inl e) f = Inl e"
  by (simp add: bindE_def)

lemma bindE_assoc: "bindE (bindE m f) g = bindE m (\<lambda>x. bindE (f x) g)"
  by (cases m) simp_all

lemma bindE_eq_Inr: "bindE m f = Inr y \<longleftrightarrow> (\<exists>x. m = Inr x \<and> f x = Inr y)"
  by (cases m) simp_all

lemma bindE_InrE:
  assumes "bindE m f = Inr y"
  obtains x where "m = Inr x" and "f x = Inr y"
  using assms by (cases m) simp_all

lemma bindE_Inr_right [simp]: "bindE m Inr = m"
  by (cases m) simp_all

lemma for_each_Nil_fun [simp]: "for_each f [] = Inr"
  by (rule ext) simp

lemma serialize_slot_Elided [simp]:
  "serialize_slot tc Elided st = Inr (fst st, add_op StoreOptimizedOut (snd st))"
  by (simp add: serialize_slot_def)

lemma serialize_slot_Capture [simp]:
  "serialize_slot tc (Capture v) st = store_next_value tc v st"
  by (simp add: serialize_slot_def)

lemma for_each_append:
  "for_each f (xs @ ys) s = bindE (for_each f xs s) (for_each f ys)"
proof (induction xs arbitrary: s)
  case Nil
  then show ?case by simp
next
  case (Cons x xs)
  then show ?case by (cases "f x s") simp_all
qed

lemma for_each_append_fun:
  "for_each f (xs @ ys) = (\<lambda>s. bindE (for_each f xs s) (for_each f ys))"
  by (rule ext) (rule for_each_append)

lemma for_each_Cons_fun:
  "for_each f (x # xs) = (\<lambda>s. bindE (f x s) (for_each f xs))"
  by (rule ext) simp

lemma InReturnValues_range:
  "InReturnValues tc reg rl rs \<longleftrightarrow> reg \<in> result_range tc rl rs"
  by (auto simp add: InReturnValues_def result_range_def IsInRange_def)

lemma StoreOptimizedOut_while_eq:
  "StoreOptimizedOut_while i n b =
     (max i n, b\<lparr>translation := translation b @ replicate (nat (n - i)) StoreOptimizedOut\<rparr>)"
proof (induction i n b rule: StoreOptimizedOut_while.induct)
  case (1 i n b)
  show ?case
  proof (cases "i < n")
    case True
    then have "nat (n - i) = Suc (nat (n - (i + 1)))" by simp
    with True 1 show ?thesis
      by (subst StoreOptimizedOut_while.simps) (simp add: add_op_def replicate_app_Cons_same)
  next
    case False
    then show ?thesis by (subst StoreOptimizedOut_while.simps) simp
  qed
qed

lemma serialize_Elided:
  "for_each (serialize_slot tc) (replicate k Elided) st =
     Inr (fst st, (snd st)\<lparr>translation := translation (snd st) @ replicate k StoreOptimizedOut\<rparr>)"
proof (induction k arbitrary: st)
  case 0
  then show ?case by simp
next
  case (Suc k)
  show ?case
    by (simp add: Suc add_op_def replicate_app_Cons_same)
qed

lemma parameters_plan:
  "for_each (parameter_callback tc rl rs) ps st =
   for_each (serialize_slot tc)
     (map (\<lambda>p. if snd p \<in> result_range tc rl rs then Elided else Capture (fst p)) ps) st"
proof (induction ps arbitrary: st)
  case Nil
  then show ?case by simp
next
  case (Cons p ps)
  have step: "parameter_callback tc rl rs p st =
      serialize_slot tc (if snd p \<in> result_range tc rl rs then Elided else Capture (fst p)) st"
    by (simp add: parameter_callback_def InReturnValues_range)
  have rest: "for_each (parameter_callback tc rl rs) ps = for_each (serialize_slot tc)
     (map (\<lambda>p. if snd p \<in> result_range tc rl rs then Elided else Capture (fst p)) ps)"
    by (rule ext) (rule Cons.IH)
  show ?case by (simp only: for_each.simps list.map step rest)
qed

lemma local_slot_plan_below:
  assumes "\<forall>p \<in> set ls. r \<le> snd p" and "j < r"
  shows "local_slot_plan tc ls rl rs j = Elided"
proof -
  from assms have "find (\<lambda>p. snd p = j) ls = None"
    by (auto simp add: find_None_iff)
  then show ?thesis by (simp add: local_slot_plan_def)
qed

lemma upto_split_at:
  assumes "i \<le> r" and "r \<le> k"
  shows "[i .. k] = [i .. r - 1] @ r # [r + 1 .. k]"
  using assms by (rule upto_split3)

lemma locals_plan:
  assumes "sorted_wrt (<) (map snd ls)" and "\<forall>p \<in> set ls. i \<le> snd p \<and> snd p < n"
  shows "bindE (for_each (local_callback tc rl rs) ls (i, st))
           (\<lambda>(i', st'). let (i5, b5) = StoreOptimizedOut_while i' n (snd st') in K (fst st', b5))
       = bindE (for_each (serialize_slot tc) (map (local_slot_plan tc ls rl rs) [i .. n - 1]) st) K"
  using assms
proof (induction ls arbitrary: i st)
  case Nil
  have "local_slot_plan tc [] rl rs = (\<lambda>j. Elided)"
    by (rule ext) (simp add: local_slot_plan_def)
  then have "map (local_slot_plan tc [] rl rs) [i .. n - 1] = replicate (nat (n - i)) Elided"
    by (simp add: map_replicate_const)
  then show ?case
    by (simp add: StoreOptimizedOut_while_eq serialize_Elided)
next
  case (Cons p ls)
  obtain v r where p: "p = (v, r)" by (cases p)
  from Cons.prems p have r: "i \<le> r" "r < n" by auto
  from Cons.prems p have sorted: "sorted_wrt (<) (map snd ls)"
    and above: "\<forall>q \<in> set ls. r < snd q" and below: "\<forall>q \<in> set ls. snd q < n"
    by auto
  show ?case
  proof (cases "r \<in> result_range tc rl rs")
    case True
    have same: "local_slot_plan tc (p # ls) rl rs j = local_slot_plan tc ls rl rs j" for j
      using True p by (auto simp add: local_slot_plan_def)
    have step: "local_callback tc rl rs p (i, st) = Inr (i, st)"
      using True p by (simp add: local_callback_def InReturnValues_range)
    have "\<forall>q \<in> set ls. i \<le> snd q \<and> snd q < n" using above below r by fastforce
    from Cons.IH [OF sorted this, of st] step show ?thesis
      by (simp add: same)
  next
    case False
    let ?b1 = "(snd st)\<lparr>translation := translation (snd st) @ replicate (nat (r - i)) StoreOptimizedOut\<rparr>"
    have step: "local_callback tc rl rs p (i, st) =
        bindE (store_next_value tc v (fst st, ?b1)) (\<lambda>st2. Inr (r + 1, st2))"
      using False p r by (simp add: local_callback_def InReturnValues_range
          StoreOptimizedOut_while_eq max_def)
    have ih: "\<forall>q \<in> set ls. r + 1 \<le> snd q \<and> snd q < n" using above below by fastforce
    have split: "[i .. n - 1] = [i .. r - 1] @ r # [r + 1 .. n - 1]"
      using r by (intro upto_split_at) simp_all
    have low: "map (local_slot_plan tc (p # ls) rl rs) [i .. r - 1] = replicate (nat (r - i)) Elided"
    proof -
      have "\<forall>q \<in> set (p # ls). r \<le> snd q" using above p by fastforce
      then have "\<forall>j \<in> set [i .. r - 1]. local_slot_plan tc (p # ls) rl rs j = Elided"
        using local_slot_plan_below [of "p # ls" r] by simp
      then have "map (local_slot_plan tc (p # ls) rl rs) [i .. r - 1]
          = map (\<lambda>j. Elided) [i .. r - 1]"
        by (intro map_cong) simp_all
      then show ?thesis by (simp add: map_replicate_const)
    qed
    have mid: "local_slot_plan tc (p # ls) rl rs r = Capture v"
      using False p by (simp add: local_slot_plan_def)
    have high: "map (local_slot_plan tc (p # ls) rl rs) [r + 1 .. n - 1]
        = map (local_slot_plan tc ls rl rs) [r + 1 .. n - 1]"
      using p by (auto simp add: local_slot_plan_def)
    have lhs: "bindE (for_each (local_callback tc rl rs) (p # ls) (i, st))
           (\<lambda>(i', st'). let (i5, b5) = StoreOptimizedOut_while i' n (snd st') in K (fst st', b5))
      = bindE (store_next_value tc v (fst st, ?b1)) (\<lambda>st2.
          bindE (for_each (serialize_slot tc)
                   (map (local_slot_plan tc ls rl rs) [r + 1 .. n - 1]) st2) K)"
      using Cons.IH [OF sorted ih]
      by (simp add: step bindE_assoc)
    have rhs: "bindE (for_each (serialize_slot tc)
                 (map (local_slot_plan tc (p # ls) rl rs) [i .. n - 1]) st) K
      = bindE (store_next_value tc v (fst st, ?b1)) (\<lambda>st2.
          bindE (for_each (serialize_slot tc)
                   (map (local_slot_plan tc ls rl rs) [r + 1 .. n - 1]) st2) K)"
      by (simp add: split low mid high for_each_append serialize_Elided bindE_assoc)
    from lhs rhs show ?thesis by simp
  qed
qed

lemma BuildDeoptFrameValues_unfold:
  "BuildDeoptFrameValues tc u fs rl rs st =
      bindE (for_each (parameter_callback tc rl rs) (ForEachParameter fs)
        (if inlining_depth u = 0
         then (fst st, add_op (StoreStackSlot
                (DeoptStackSlotIndexFromFPOffset (kFunctionOffset tc))) (snd st))
         else (fst st, add_op (StoreLiteral (fst (GetDeoptLiteral (function_object u) (snd st))))
                (snd (GetDeoptLiteral (function_object u) (snd st)))))) (\<lambda>st2.
      bindE (store_next_value tc (frame_context fs) st2) (\<lambda>st3.
      bindE (for_each (local_callback tc rl rs) (ForEachLocal fs) (0, st3))
           (\<lambda>(i', st'). let (i5, b5) = StoreOptimizedOut_while i' (register_count u) (snd st')
                        in (if AccumulatorIsLive fs \<and>
                               \<not> InReturnValues tc (virtual_accumulator tc) rl rs
                            then store_next_value tc (accumulator fs) (fst st', b5)
                            else Inr (fst st', add_op StoreOptimizedOut b5)))))"
  by (simp add: BuildDeoptFrameValues_def Let_def split_beta cong: if_cong)

lemma BuildDeoptFrameValues_plan:
  assumes "sorted_wrt (<) (map snd (ForEachLocal fs))"
    and "\<forall>p \<in> set (ForEachLocal fs). 0 \<le> snd p \<and> snd p < register_count u"
  shows "BuildDeoptFrameValues tc u fs rl rs st =
     for_each (serialize_slot tc) (frame_slot_plan tc u fs rl rs)
       (if inlining_depth u = 0
        then (fst st, add_op (StoreStackSlot
                (DeoptStackSlotIndexFromFPOffset (kFunctionOffset tc))) (snd st))
        else (fst st, add_op (StoreLiteral (fst (GetDeoptLiteral (function_object u) (snd st))))
                (snd (GetDeoptLiteral (function_object u) (snd st)))))"
proof -
  let ?st1 = "(if inlining_depth u = 0
        then (fst st, add_op (StoreStackSlot
                (DeoptStackSlotIndexFromFPOffset (kFunctionOffset tc))) (snd st))
        else (fst st, add_op (StoreLiteral (fst (GetDeoptLiteral (function_object u) (snd st))))
                (snd (GetDeoptLiteral (function_object u) (snd st)))))"
  let ?acc = "\<lambda>st5. if AccumulatorIsLive fs \<and> \<not> InReturnValues tc (virtual_accumulator tc) rl rs
       then store_next_value tc (accumulator fs) st5
       else Inr (fst st5, add_op StoreOptimizedOut (snd st5))"
  have acc: "?acc = for_each (serialize_slot tc)
      [if AccumulatorIsLive fs \<and> virtual_accumulator tc \<notin> result_range tc rl rs
       then Capture (accumulator fs) else Elided]"
    by (rule ext) (simp add: InReturnValues_range)
  have loc: "\<And>st3. bindE (for_each (local_callback tc rl rs) (ForEachLocal fs) (0, st3))
           (\<lambda>(i', st'). let (i5, b5) = StoreOptimizedOut_while i' (register_count u) (snd st')
                        in ?acc (fst st', b5))
       = bindE (for_each (serialize_slot tc)
           (map (local_slot_plan tc (ForEachLocal fs) rl rs) [0 .. register_count u - 1]) st3) ?acc"
    by (rule locals_plan [OF assms])
  have "BuildDeoptFrameValues tc u fs rl rs st =
      bindE (for_each (parameter_callback tc rl rs) (ForEachParameter fs) ?st1) (\<lambda>st2.
      bindE (store_next_value tc (frame_context fs) st2) (\<lambda>st3.
      bindE (for_each (local_callback tc rl rs) (ForEachLocal fs) (0, st3))
           (\<lambda>(i', st'). let (i5, b5) = StoreOptimizedOut_while i' (register_count u) (snd st')
                        in ?acc (fst st', b5))))"
    unfolding BuildDeoptFrameValues_unfold by (simp cong: if_cong)
  also have "\<dots> = for_each (serialize_slot tc) (frame_slot_plan tc u fs rl rs) ?st1"
    unfolding loc acc frame_slot_plan_def parameters_plan
    by (simp only: for_each_append_fun for_each_Cons_fun [of _ "Capture (frame_context fs)"]
        bindE_assoc serialize_slot_Capture append_Cons append_Nil)
  finally show ?thesis .
qed

lemma grows_refl: "grows b b"
  by (simp add: grows_def)

lemma grows_trans: "grows a b \<Longrightarrow> grows b c \<Longrightarrow> grows a c"
  by (auto simp add: grows_def)

lemma grows_add_op: "no_return_slot op \<Longrightarrow> grows b (add_op op b)"
  by (simp add: grows_def add_op_def)

lemma grows_GetDeoptLiteral: "grows b (snd (GetDeoptLiteral obj b))"
  by (simp add: grows_def GetDeoptLiteral_def split: option.splits)

lemma grows_literal_op:
  "no_return_slot (f (fst (GetDeoptLiteral obj b))) \<Longrightarrow>
   grows b (add_op (f (fst (GetDeoptLiteral obj b))) (snd (GetDeoptLiteral obj b)))"
  by (rule grows_trans [OF grows_GetDeoptLiteral grows_add_op])

lemma grows_BuildDeoptFrameSingleValue:
  assumes "BuildDeoptFrameSingleValue tc v loc b = Inr b'"
  shows "grows b b'"
proof (cases loc)
  case ConstantLocation
  with assms grows_literal_op [of StoreLiteral "Reify v" b] show ?thesis
    by (auto simp add: BuildDeoptFrameSingleValue_def split_beta no_return_slot_def)
next
  case (AnyRegisterLocation r)
  with assms show ?thesis
    by (cases "value_representation v")
       (auto simp add: BuildDeoptFrameSingleValue_def BuildDeoptStoreRegister_def
        no_return_slot_def intro!: grows_add_op)
next
  case (AnyStackSlotLocation slot)
  with assms show ?thesis
    by (cases "value_representation v")
       (auto simp add: BuildDeoptFrameSingleValue_def BuildDeoptStoreStackSlot_def
        no_return_slot_def intro!: grows_add_op)
qed

lemma grows_store_next_value:
  assumes "store_next_value tc v st = Inr st'"
  shows "grows (snd st) (snd st')"
  using assms grows_BuildDeoptFrameSingleValue
  by (auto simp add: store_next_value_def bindE_eq_Inr split: list.splits)

lemma grows_for_each:
  assumes step: "\<And>x s s'. f x s = Inr s' \<Longrightarrow> grows (g s) (g s')"
    and "for_each f xs s = Inr s'"
  shows "grows (g s) (g s')"
  using assms(2)
proof (induction xs arbitrary: s)
  case Nil
  then show ?case by (simp add: grows_refl)
next
  case (Cons x xs)
  then obtain s1 where "f x s = Inr s1" "for_each f xs s1 = Inr s'"
    by (auto simp add: bindE_eq_Inr)
  with step [of x s s1] Cons.IH [of s1] show ?case by (blast intro: grows_trans)
qed

lemma grows_serialize_slot:
  assumes "serialize_slot tc p st = Inr st'"
  shows "grows (snd st) (snd st')"
  using assms grows_store_next_value [of tc _ st st']
  by (cases p) (auto simp add: no_return_slot_def intro!: grows_add_op)

lemma grows_parameter_callback:
  assumes "parameter_callback tc rl rs p st = Inr st'"
  shows "grows (snd st) (snd st')"
  using assms grows_store_next_value [of tc _ st st']
  by (auto simp add: parameter_callback_def no_return_slot_def
      intro!: grows_add_op split: if_splits)

lemma grows_StoreOptimizedOut_while:
  "grows b (snd (StoreOptimizedOut_while i n b))"
  by (simp add: StoreOptimizedOut_while_eq grows_def no_return_slot_def list_all_length)

lemma grows_local_callback:
  assumes "local_callback tc rl rs p ist = Inr ist'"
  shows "grows (snd (snd ist)) (snd (snd ist'))"
proof (cases "InReturnValues tc (snd p) rl rs")
  case True
  with assms show ?thesis by (auto simp add: local_callback_def Let_def grows_refl)
next
  case False
  let ?b1 = "snd (StoreOptimizedOut_while (fst ist) (snd p) (snd (snd ist)))"
  from False assms obtain st2 where
    "store_next_value tc (fst p) (fst (snd ist), ?b1) = Inr st2" "snd ist' = st2"
    by (auto simp add: local_callback_def Let_def split_beta bindE_eq_Inr)
  with grows_store_next_value [of tc "fst p" "(fst (snd ist), ?b1)" st2]
    grows_StoreOptimizedOut_while [of "snd (snd ist)" "fst ist" "snd p"]
  show ?thesis by (auto elim: grows_trans)
qed




lemma grows_BuildDeoptFrameValues:
  assumes "BuildDeoptFrameValues tc u fs rl rs st = Inr st'"
  shows "grows (snd st) (snd st')"
proof -
  let ?st1 = "(if inlining_depth u = 0
        then (fst st, add_op (StoreStackSlot
                (DeoptStackSlotIndexFromFPOffset (kFunctionOffset tc))) (snd st))
        else (fst st, add_op (StoreLiteral (fst (GetDeoptLiteral (function_object u) (snd st))))
                (snd (GetDeoptLiteral (function_object u) (snd st)))))"
  have g1: "grows (snd st) (snd ?st1)"
    using grows_literal_op [of StoreLiteral "function_object u" "snd st"]
    by (auto simp add: no_return_slot_def intro!: grows_add_op)
  note a = assms [unfolded BuildDeoptFrameValues_unfold]
  from a obtain st2 where
    s2: "for_each (parameter_callback tc rl rs) (ForEachParameter fs) ?st1 = Inr st2" and
    a2: "bindE (store_next_value tc (frame_context fs) st2) (\<lambda>st3.
      bindE (for_each (local_callback tc rl rs) (ForEachLocal fs) (0, st3))
           (\<lambda>(i', st'). let (i5, b5) = StoreOptimizedOut_while i' (register_count u) (snd st')
                        in (if AccumulatorIsLive fs \<and>
                               \<not> InReturnValues tc (virtual_accumulator tc) rl rs
                            then store_next_value tc (accumulator fs) (fst st', b5)
                            else Inr (fst st', add_op StoreOptimizedOut b5)))) = Inr st'"
    by (rule bindE_InrE)
  from a2 obtain st3 where
    s3: "store_next_value tc (frame_context fs) st2 = Inr st3" and
    a3: "bindE (for_each (local_callback tc rl rs) (ForEachLocal fs) (0, st3))
           (\<lambda>(i', st'). let (i5, b5) = StoreOptimizedOut_while i' (register_count u) (snd st')
                        in (if AccumulatorIsLive fs \<and>
                               \<not> InReturnValues tc (virtual_accumulator tc) rl rs
                            then store_next_value tc (accumulator fs) (fst st', b5)
                            else Inr (fst st', add_op StoreOptimizedOut b5))) = Inr st'"
    by (rule bindE_InrE)
  from a3 obtain ist4 where
    s4: "for_each (local_callback tc rl rs) (ForEachLocal fs) (0, st3) = Inr ist4" and
    a4: "(\<lambda>(i', st'). let (i5, b5) = StoreOptimizedOut_while i' (register_count u) (snd st')
                        in (if AccumulatorIsLive fs \<and>
                               \<not> InReturnValues tc (virtual_accumulator tc) rl rs
                            then store_next_value tc (accumulator fs) (fst st', b5)
                            else Inr (fst st', add_op StoreOptimizedOut b5))) ist4 = Inr st'"
    by (rule bindE_InrE)
  let ?b5 = "snd (StoreOptimizedOut_while (fst ist4) (register_count u) (snd (snd ist4)))"
  from a4 have s5: "(if AccumulatorIsLive fs \<and>
                               \<not> InReturnValues tc (virtual_accumulator tc) rl rs
                            then store_next_value tc (accumulator fs) (fst (snd ist4), ?b5)
                            else Inr (fst (snd ist4), add_op StoreOptimizedOut ?b5)) = Inr st'"
    by (simp add: split_beta)
  have g2: "grows (snd ?st1) (snd st2)"
    using grows_for_each [where g = snd, OF grows_parameter_callback s2] .
  have g3: "grows (snd st2) (snd st3)" using grows_store_next_value [OF s3] .
  have g4: "grows (snd st3) (snd (snd ist4))"
    using grows_for_each [where g = "\<lambda>x. snd (snd x)", OF grows_local_callback s4] by simp
  have g5: "grows (snd (snd ist4)) ?b5" by (rule grows_StoreOptimizedOut_while)
  have g6: "grows ?b5 (snd st')"
  proof (cases "AccumulatorIsLive fs \<and> \<not> InReturnValues tc (virtual_accumulator tc) rl rs")
    case True
    with s5 have "store_next_value tc (accumulator fs) (fst (snd ist4), ?b5) = Inr st'" by simp
    from grows_store_next_value [OF this] show ?thesis by simp
  next
    case False
    with s5 have "st' = (fst (snd ist4), add_op StoreOptimizedOut ?b5)" by auto
    then show ?thesis by (simp add: grows_add_op no_return_slot_def)
  qed
  show ?thesis
    by (rule grows_trans [OF g1 grows_trans [OF g2 grows_trans [OF g3
          grows_trans [OF g4 grows_trans [OF g5 g6]]]]])
qed

lemma build_builtin_continuation_frame_Interpreted:
  "build_builtin_continuation_frame tc builtin ps ctx (Some (InterpretedDeoptFrame u fs pos pp)) st =
     bindE (for_each (store_next_value tc) ps
        (fst st, add_op StoreOptimizedOut (add_op (BeginBuiltinContinuationFrame
            (GetContinuationBytecodeOffset tc builtin)
            (fst (GetDeoptLiteral (shared_function_info u) (snd st))) (int (length ps)))
            (snd (GetDeoptLiteral (shared_function_info u) (snd st))))))
       (store_next_value tc ctx)"
  by (simp add: build_builtin_continuation_frame_def split_beta Let_def)

lemma build_builtin_continuation_frame_other:
  "build_builtin_continuation_frame tc builtin ps ctx None st = Inl Fatal"
  "build_builtin_continuation_frame tc builtin ps ctx
     (Some (BuiltinContinuationDeoptFrame b' ps' ctx' pp)) st = Inl Fatal"
  by (simp_all add: build_builtin_continuation_frame_def)

lemma grows_build_builtin_continuation_frame:
  assumes "build_builtin_continuation_frame tc builtin ps ctx p st = Inr st'"
  shows "grows (snd st) (snd st')"
proof (cases p)
  case None
  with assms show ?thesis by (simp add: build_builtin_continuation_frame_other)
next
  case (Some f)
  show ?thesis
  proof (cases f)
    case (BuiltinContinuationDeoptFrame b' ps' ctx' pp)
    with assms Some show ?thesis by (simp add: build_builtin_continuation_frame_other)
  next
    case (InterpretedDeoptFrame u fs pos pp)
    let ?lit = "fst (GetDeoptLiteral (shared_function_info u) (snd st))"
    let ?b1 = "snd (GetDeoptLiteral (shared_function_info u) (snd st))"
    let ?b2 = "add_op (BeginBuiltinContinuationFrame
                      (GetContinuationBytecodeOffset tc builtin) ?lit (int (length ps))) ?b1"
    let ?b3 = "add_op StoreOptimizedOut ?b2"
    from assms Some InterpretedDeoptFrame
    have "bindE (for_each (store_next_value tc) ps (fst st, ?b3)) (store_next_value tc ctx)
        = Inr st'"
      by (simp only: build_builtin_continuation_frame_Interpreted)
    then obtain st4 where
      s4: "for_each (store_next_value tc) ps (fst st, ?b3) = Inr st4" and
      s5: "store_next_value tc ctx st4 = Inr st'"
      by (rule bindE_InrE)
    have g1: "grows (snd st) ?b1" by (rule grows_GetDeoptLiteral)
    have g2: "grows ?b1 ?b2" by (rule grows_add_op) (simp add: no_return_slot_def)
    have g3: "grows ?b2 ?b3" by (rule grows_add_op) (simp add: no_return_slot_def)
    have g4: "grows ?b3 (snd st4)"
      using grows_for_each [where g = snd, OF grows_store_next_value s4] by simp
    have g5: "grows (snd st4) (snd st')" using grows_store_next_value [OF s5] .
    show ?thesis
      by (rule grows_trans [OF g1 grows_trans [OF g2 grows_trans [OF g3 grows_trans [OF g4 g5]]]])
  qed
qed

lemma grows_BuildDeoptFrame:
  "BuildDeoptFrame tc frame st = Inr st' \<Longrightarrow> grows (snd st) (snd st')"
proof (induction tc frame st arbitrary: st' rule: BuildDeoptFrame.induct)
  case (1 tc u fs pos p st)
  let ?frame = "\<lambda>st1. BuildDeoptFrameValues tc u fs (invalid_value tc) 0
           (fst st1, add_op (BeginInterpretedFrame pos
              (fst (GetDeoptLiteral (shared_function_info u) (snd st1))) (register_count u) 0 0)
              (snd (GetDeoptLiteral (shared_function_info u) (snd st1))))"
  have eq: "BuildDeoptFrame tc (InterpretedDeoptFrame u fs pos p) st =
      bindE (case p of None \<Rightarrow> Inr st | Some pf \<Rightarrow> BuildDeoptFrame tc pf st) ?frame"
    by (simp add: Let_def split_beta)
  from "1.prems" [unfolded eq] obtain st1 where
    s1: "(case p of None \<Rightarrow> Inr st | Some pf \<Rightarrow> BuildDeoptFrame tc pf st) = Inr st1" and
    s2: "?frame st1 = Inr st'"
    by (rule bindE_InrE)
  have g1: "grows (snd st) (snd st1)"
  proof (cases p)
    case None
    with s1 show ?thesis by (simp add: grows_refl)
  next
    case (Some pf)
    with s1 have "BuildDeoptFrame tc pf st = Inr st1" by simp
    from "1.IH" [OF Some this] show ?thesis .
  qed
  have g2: "grows (snd st1) (add_op (BeginInterpretedFrame pos
              (fst (GetDeoptLiteral (shared_function_info u) (snd st1))) (register_count u) 0 0)
              (snd (GetDeoptLiteral (shared_function_info u) (snd st1))))"
    by (rule grows_trans [OF grows_GetDeoptLiteral grows_add_op]) (simp add: no_return_slot_def)
  have g3: "grows (add_op (BeginInterpretedFrame pos
              (fst (GetDeoptLiteral (shared_function_info u) (snd st1))) (register_count u) 0 0)
              (snd (GetDeoptLiteral (shared_function_info u) (snd st1)))) (snd st')"
    using grows_BuildDeoptFrameValues [OF s2] by simp
  show ?case by (rule grows_trans [OF g1 grows_trans [OF g2 g3]])
next
  case (2 tc builtin ps ctx p st)
  from "2.prems" [unfolded BuildDeoptFrame.simps] obtain st1 where
    s1: "(case p of None \<Rightarrow> Inr st | Some pf \<Rightarrow> BuildDeoptFrame tc pf st) = Inr st1" and
    s2: "build_builtin_continuation_frame tc builtin ps ctx p st1 = Inr st'"
    by (rule bindE_InrE)
  have g1: "grows (snd st) (snd st1)"
  proof (cases p)
    case None
    with s1 show ?thesis by (simp add: grows_refl)
  next
    case (Some pf)
    with s1 have "BuildDeoptFrame tc pf st = Inr st1" by simp
    from "2.IH" [OF Some this] show ?thesis .
  qed
  show ?case by (rule grows_trans [OF g1 grows_build_builtin_continuation_frame [OF s2]])
qed

lemma grows_begin_translation: "grows b (begin_translation top_fr feedback b)"
proof (cases feedback)
  case None
  then show ?thesis
    by (auto simp add: begin_translation_def Let_def no_return_slot_def intro!: grows_add_op)
next
  case (Some vi)
  obtain vector index where vi: "vi = (vector, index)" by (cases vi)
  let ?b1 = "add_op (BeginTranslation (GetFrameCount top_fr) (GetFrameCount top_fr) 1) b"
  have g1: "grows b ?b1" by (intro grows_add_op) (simp add: no_return_slot_def)
  have g2: "grows ?b1 (add_op (AddUpdateFeedback (fst (GetDeoptLiteral vector ?b1)) index)
      (snd (GetDeoptLiteral vector ?b1)))"
    by (rule grows_trans [OF grows_GetDeoptLiteral grows_add_op]) (simp add: no_return_slot_def)
  have "begin_translation top_fr feedback b =
      add_op (AddUpdateFeedback (fst (GetDeoptLiteral vector ?b1)) index)
        (snd (GetDeoptLiteral vector ?b1))"
    using Some vi by (simp add: begin_translation_def Let_def split_beta)
  with grows_trans [OF g1 g2] show ?thesis by simp
qed

lemma grows_BuildEagerDeopt:
  assumes "BuildEagerDeopt tc deopt_info b = Inr st'"
  shows "grows b (snd st')"
proof -
  from assms have "BuildDeoptFrame tc (top_frame deopt_info)
      (input_locations deopt_info,
       begin_translation (top_frame deopt_info) (feedback_to_update deopt_info) b) = Inr st'"
    by (simp add: BuildEagerDeopt_def)
  from grows_BuildDeoptFrame [OF this]
  have "grows (begin_translation (top_frame deopt_info) (feedback_to_update deopt_info) b)
      (snd st')" by simp
  from grows_trans [OF grows_begin_translation this] show ?thesis .
qed


lemma BuildLazyDeopt_Interpreted:
  assumes "top_frame deopt_info = InterpretedDeoptFrame u fs pos p"
  shows "BuildLazyDeopt tc deopt_info b =
     bindE (case p of
               None \<Rightarrow> Inr (input_locations deopt_info,
                 begin_translation (top_frame deopt_info) (feedback_to_update deopt_info) b)
             | Some pf \<Rightarrow> BuildDeoptFrame tc pf (input_locations deopt_info,
                 begin_translation (top_frame deopt_info) (feedback_to_update deopt_info) b))
       (\<lambda>st1. BuildDeoptFrameValues tc u fs (result_location deopt_info) (result_size deopt_info)
          (fst st1, add_op (BeginInterpretedFrame pos
             (fst (GetDeoptLiteral (shared_function_info u) (snd st1))) (register_count u)
             (if result_location deopt_info = virtual_accumulator tc then 0
              else if is_parameter tc (result_location deopt_info)
              then register_count u + parameter_count u
                     - ToParameterIndex tc (result_location deopt_info)
              else register_count u - result_location deopt_info)
             (result_size deopt_info))
             (snd (GetDeoptLiteral (shared_function_info u) (snd st1)))))"
  using assms by (simp add: BuildLazyDeopt_def Let_def split_beta cong: option.case_cong if_cong)

lemma for_each_Capture:
  "for_each (serialize_slot tc) (map Capture vs) st = for_each (store_next_value tc) vs st"
proof (induction vs arbitrary: st)
  case Nil
  then show ?case by simp
next
  case (Cons v vs)
  have "for_each (serialize_slot tc) (map Capture vs) = for_each (store_next_value tc) vs"
    by (rule ext) (rule Cons.IH)
  then show ?case by simp
qed

lemma builtin_continuation_plan:
  "for_each (serialize_slot tc) (builtin_continuation_slot_plan ps ctx) st =
     bindE (for_each (store_next_value tc) ps (fst st, add_op StoreOptimizedOut (snd st)))
       (store_next_value tc ctx)"
proof -
  have "for_each (serialize_slot tc) (map Capture ps @ [Capture ctx]) s =
      bindE (for_each (store_next_value tc) ps s) (store_next_value tc ctx)" for s
  proof -
    have "for_each (serialize_slot tc) [Capture ctx] = store_next_value tc ctx"
      by (rule ext) simp
    then show ?thesis by (simp add: for_each_append for_each_Capture)
  qed
  then show ?thesis by (simp add: builtin_continuation_slot_plan_def)
qed

lemma BuildLazyDeopt_BuiltinContinuation:
  assumes "top_frame deopt_info = BuiltinContinuationDeoptFrame builtin ps ctx bp"
  shows "BuildLazyDeopt tc deopt_info b =
     bindE (case bp of
              None \<Rightarrow> Inr (input_locations deopt_info,
                 begin_translation (top_frame deopt_info) (feedback_to_update deopt_info) b)
            | Some pf \<Rightarrow> BuildDeoptFrame tc pf (input_locations deopt_info,
                 begin_translation (top_frame deopt_info) (feedback_to_update deopt_info) b))
       (\<lambda>st1. case bp of
                Some (InterpretedDeoptFrame pu pfs ppos pp) \<Rightarrow>
                  for_each (serialize_slot tc) (builtin_continuation_slot_plan ps ctx)
                    (fst st1, add_op (BeginBuiltinContinuationFrame
                       (GetContinuationBytecodeOffset tc builtin)
                       (fst (GetDeoptLiteral (shared_function_info pu) (snd st1)))
                       (int (length ps)))
                       (snd (GetDeoptLiteral (shared_function_info pu) (snd st1))))
              | _ \<Rightarrow> Inl Fatal)"
proof -
  have frame: "build_builtin_continuation_frame tc builtin ps ctx bp st1 =
      (case bp of
                Some (InterpretedDeoptFrame pu pfs ppos pp) \<Rightarrow>
                  for_each (serialize_slot tc) (builtin_continuation_slot_plan ps ctx)
                    (fst st1, add_op (BeginBuiltinContinuationFrame
                       (GetContinuationBytecodeOffset tc builtin)
                       (fst (GetDeoptLiteral (shared_function_info pu) (snd st1)))
                       (int (length ps)))
                       (snd (GetDeoptLiteral (shared_function_info pu) (snd st1))))
              | _ \<Rightarrow> Inl Fatal)" for st1
  proof (cases bp)
    case None
    then show ?thesis by (simp add: build_builtin_continuation_frame_other)
  next
    case (Some pf)
    then show ?thesis
      by (cases pf)
         (simp_all add: build_builtin_continuation_frame_Interpreted
          build_builtin_continuation_frame_other builtin_continuation_plan)
  qed
  show ?thesis
    using assms by (simp add: BuildLazyDeopt_def Let_def frame cong: option.case_cong)
qed

lemma BuildDeoptFrame_Interpreted_plan:
  assumes "sorted_wrt (<) (map snd (ForEachLocal fs))"
    and "\<forall>q \<in> set (ForEachLocal fs). 0 \<le> snd q \<and> snd q < register_count u"
  shows "BuildDeoptFrame tc (InterpretedDeoptFrame u fs pos p) st =
     bindE (case p of None \<Rightarrow> Inr st | Some pf \<Rightarrow> BuildDeoptFrame tc pf st)
       (\<lambda>st1. for_each (serialize_slot tc) (frame_slot_plan tc u fs (invalid_value tc) 0)
          (store_closure tc u
            (fst st1, add_op (BeginInterpretedFrame pos
               (fst (GetDeoptLiteral (shared_function_info u) (snd st1))) (register_count u) 0 0)
               (snd (GetDeoptLiteral (shared_function_info u) (snd st1))))))"
  unfolding BuildDeoptFrame.simps Let_def split_beta
    BuildDeoptFrameValues_plan [OF assms] store_closure_def ..




section \<open>Proofs: frames\<close>

text \<open>
  Claim C9 at a frame descriptor with a callee-saved XMM register, no callee-saved
  general-purpose register and one return slot. \<^verbatim>\<open>AssembleConstructFrame\<close> saves
  \<open>xmm6\<close> and then reserves the return slot below it. \<^verbatim>\<open>AssembleReturn\<close> skips the
  return slots only inside the branch for a nonempty set of general-purpose saves, so
  here it loads \<open>xmm6\<close> from the return slot and the low half of the saved value: the
  register comes back as \<open>(0, 11)\<close>, not as the \<open>(11, 22)\<close> it held. The stack
  pointer and the frame pointer are restored. With \<open>rbx\<close> among the saves the same
  frame restores \<open>xmm6\<close> and \<open>rbx\<close>.
\<close>

theorem AssembleReturn_fp_restore_failing_input:
  "(let d = \<lparr>has_frame = True, kind = CFunctionCall, CalleeSavedRegisters = [],
             CalleeSavedFPRegisters = [6], ParameterSlotCount = 0, GetTotalFrameSlotCount = 5,
             GetFixedSlotCount = 2, GetReturnSlotCount = 1, is_osr = False,
             UnoptimizedFrameSlots = 0, frame_debug_code = False\<rparr>;
        s0 = \<lparr>rsp = 1000, rbp = 5, gp = (\<lambda>r. 100), xmm = (\<lambda>x. (11, 22)), mem = (\<lambda>a. 0)\<rparr>;
        s = frame_run 0 []
              (AssembleConstructFrame d @ fst (AssembleReturn d (ImmediatePopCount 0) False)) s0;
        d' = d\<lparr>CalleeSavedRegisters := [3]\<rparr>;
        s' = frame_run 0 []
              (AssembleConstructFrame d' @ fst (AssembleReturn d' (ImmediatePopCount 0) False)) s0
    in AssembleConstructFrame d =
         [Plain pushq_rbp, Plain movq_rbp_rsp, Plain (AllocateStackSpace 16),
          Plain (Movdqu_store 0 6), Plain (AllocateStackSpace 8)] \<and>
       fst (AssembleReturn d (ImmediatePopCount 0) False) =
         [Plain (Movdqu_load 6 0), Plain (addq_rsp 16), Plain movq_rsp_rbp, Plain popq_rbp,
          ReturnSequence (Ret_immediate 0)] \<and>
       rsp s = 1000 \<and> rbp s = 5 \<and> xmm s0 6 = (11, 22) \<and> xmm s 6 = (0, 11) \<and>
       rsp s' = 1000 \<and> rbp s' = 5 \<and> xmm s' 6 = (11, 22) \<and> gp s' 3 = 100)"
  by (simp add: AssembleConstructFrame_def AssembleReturn_def AssembleDeconstructFrame_def
      kQuadWordSize_def kSystemPointerSize_def signed_divide_int_def Let_def)

section \<open>Proofs: parallel moves\<close>

subsection \<open>Targets and their removal\<close>

lemma is_empty_target_locations: "is_empty targets \<longleftrightarrow> target_locations targets = []"
  by (simp add: is_empty_def target_locations_def)

lemma target_locations_no_targets [simp]: "target_locations no_targets = []"
  by (simp add: target_locations_def no_targets_def)

lemma map_of_filter_key:
  "map_of (filter (\<lambda>entry. fst entry \<noteq> k) xs) x = (if x = k then None else map_of xs x)"
  by (induction xs) auto

lemma PopTargets_targets: "target_locations (fst (PopTargets st a)) = targets_of st a"
  by (cases a) (simp_all add: PopTargets_def targets_of_def split: option.splits)

lemma PopTargets_targets_of:
  "targets_of (snd (PopTargets st a)) x = (if x = a then [] else targets_of st x)"
proof (cases a)
  case (InRegister r)
  then show ?thesis by (cases x) (simp_all add: PopTargets_def targets_of_def)
next
  case (InStackSlot s)
  then show ?thesis
    by (cases x) (auto simp add: PopTargets_def targets_of_def map_of_filter_key
        split: option.splits)
qed

lemma PopTargets_flag [simp]:
  "scratch_has_cycle_start (snd (PopTargets st a)) = scratch_has_cycle_start st"
  by (cases a) (simp_all add: PopTargets_def split: option.splits)

lemma PopTargets_materializing [simp]:
  "materializing_register_moves (snd (PopTargets st a)) = materializing_register_moves st"
  "materializing_stack_slot_moves (snd (PopTargets st a)) = materializing_stack_slot_moves st"
  by (cases a; simp add: PopTargets_def split: option.splits)+

lemma EmitMovesFromSource_stack_slot_state:
  "snd (EmitMovesFromSource_stack_slot h s targets st) =
     (if registers targets = [] \<and> scratch_has_cycle_start st
      then st\<lparr>scratch_has_cycle_start := False\<rparr> else st)"
  by (simp add: EmitMovesFromSource_stack_slot_def Let_def)

lemma EmitMovesFromSource_state:
  "snd (EmitMovesFromSource h a targets st) =
     (case a of
        InRegister r \<Rightarrow> st
      | InStackSlot s \<Rightarrow>
          (if registers targets = [] \<and> scratch_has_cycle_start st
           then st\<lparr>scratch_has_cycle_start := False\<rparr> else st))"
  by (cases a) (simp_all add: EmitMovesFromSource_def EmitMovesFromSource_stack_slot_state)

lemma targets_of_flag [simp]:
  "targets_of (st\<lparr>scratch_has_cycle_start := b\<rparr>) x = targets_of st x"
  by (cases x) (simp_all add: targets_of_def)

lemma EmitMovesFromSource_targets_of [simp]:
  "targets_of (snd (EmitMovesFromSource h a targets st)) x = targets_of st x"
  by (cases a) (simp_all add: EmitMovesFromSource_state)

lemma EmitMovesFromSource_materializing [simp]:
  "materializing_register_moves (snd (EmitMovesFromSource h a targets st))
     = materializing_register_moves st"
  "materializing_stack_slot_moves (snd (EmitMovesFromSource h a targets st))
     = materializing_stack_slot_moves st"
  by (cases a; simp add: EmitMovesFromSource_state)+

lemma edge_PopTargets:
  "edge (snd (PopTargets st a)) x y \<longleftrightarrow> x \<noteq> a \<and> edge st x y"
  by (simp add: edge_def PopTargets_targets_of)

subsection \<open>Running moves\<close>

lemma read_location_simps [simp]:
  "read_location m (InRegister r) = reg_value m r"
  "read_location m (InStackSlot s) = slot_value m s"
  by (simp_all add: read_location_def)

lemma read_write_location:
  "read_location (write_location m l v) l' = (if l' = l then v else read_location m l')"
  by (cases l; cases l') (simp_all add: write_location_def)

lemma native_stack_write_location [simp]:
  "native_stack (write_location m l v) = native_stack m"
  by (cases l) (simp_all add: write_location_def)

lemma run_moves_append:
  "run_moves cv (xs @ ys) m =
     (case run_moves cv xs m of None \<Rightarrow> None | Some m1 \<Rightarrow> run_moves cv ys m1)"
  by (induction xs arbitrary: m) (simp_all split: option.splits)

lemma run_moves_bounded_append:
  "run_moves_bounded k cv (xs @ ys) m =
     (case run_moves_bounded k cv xs m of None \<Rightarrow> None | Some m1 \<Rightarrow> run_moves_bounded k cv ys m1)"
  by (induction xs arbitrary: m) (simp_all split: option.splits)

lemma run_moves_bounded_run_moves:
  "run_moves_bounded k cv code m = Some m' \<Longrightarrow> run_moves cv code m = Some m'"
  by (induction code arbitrary: m) (auto split: option.splits if_splits)

text \<open>Moves from one register to a list of locations.\<close>

lemma run_register_moves:
  assumes "length (native_stack m) \<le> k" and "src \<notin> set rs"
  shows "\<exists>m'. run_moves_bounded k cv
            (map (\<lambda>t. Move_reg_reg t src) rs @ map (\<lambda>t. Move_slot_reg t src) ss) m = Some m' \<and>
          native_stack m' = native_stack m \<and>
          (\<forall>l. read_location m' l =
             (if l \<in> InRegister ` set rs \<union> InStackSlot ` set ss
              then reg_value m src else read_location m l))"
  using assms
proof (induction rs arbitrary: m)
  case Nil
  then show ?case
  proof (induction ss arbitrary: m)
    case Nil
    then show ?case by simp
  next
    case (Cons s ss)
    let ?m1 = "m\<lparr>slot_value := (slot_value m)(s := reg_value m src)\<rparr>"
    from Cons.prems have "length (native_stack ?m1) \<le> k" by simp
    from Cons.IH [OF this] Cons.prems obtain m' where
      m': "run_moves_bounded k cv (map (\<lambda>t. Move_slot_reg t src) ss) ?m1 = Some m'"
      "native_stack m' = native_stack ?m1"
      "\<forall>l. read_location m' l =
             (if l \<in> InStackSlot ` set ss then reg_value ?m1 src else read_location ?m1 l)"
      by auto
    show ?case
    proof (intro exI conjI allI)
      show "run_moves_bounded k cv
          (map (\<lambda>t. Move_reg_reg t src) [] @ map (\<lambda>t. Move_slot_reg t src) (s # ss)) m = Some m'"
        using m'(1) Cons.prems by simp
      show "native_stack m' = native_stack m" using m'(2) by simp
      fix l
      show "read_location m' l =
          (if l \<in> InRegister ` set [] \<union> InStackSlot ` set (s # ss)
           then reg_value m src else read_location m l)"
        using m'(3) [rule_format, of l] by (cases l) auto
    qed
  qed
next
  case (Cons r rs)
  let ?m1 = "m\<lparr>reg_value := (reg_value m)(r := reg_value m src)\<rparr>"
  from Cons.prems have a: "length (native_stack ?m1) \<le> k" "src \<notin> set rs" "src \<noteq> r" by auto
  from Cons.IH [OF a(1) a(2)] obtain m' where
    m': "run_moves_bounded k cv
            (map (\<lambda>t. Move_reg_reg t src) rs @ map (\<lambda>t. Move_slot_reg t src) ss) ?m1 = Some m'"
      "native_stack m' = native_stack ?m1"
      "\<forall>l. read_location m' l =
             (if l \<in> InRegister ` set rs \<union> InStackSlot ` set ss
              then reg_value ?m1 src else read_location ?m1 l)"
    by auto
  show ?case
  proof (intro exI conjI allI)
    show "run_moves_bounded k cv
        (map (\<lambda>t. Move_reg_reg t src) (r # rs) @ map (\<lambda>t. Move_slot_reg t src) ss) m = Some m'"
      using m'(1) Cons.prems by simp
    show "native_stack m' = native_stack m" using m'(2) by simp
    fix l
    show "read_location m' l =
        (if l \<in> InRegister ` set (r # rs) \<union> InStackSlot ` set ss
         then reg_value m src else read_location m l)"
      using m'(3) [rule_format, of l] a(3) by (cases l) auto
  qed
qed

lemma target_locations_set:
  "set (target_locations targets) =
     InRegister ` set (registers targets) \<union> InStackSlot ` set (stack_slots targets)"
  by (simp add: target_locations_def)

lemma run_EmitMovesFromSource_register:
  assumes "length (native_stack m) \<le> k" and "InRegister src \<notin> set (target_locations targets)"
  shows "\<exists>m'. run_moves_bounded k cv (EmitMovesFromSource_register src targets) m = Some m' \<and>
          native_stack m' = native_stack m \<and>
          (\<forall>l. read_location m' l =
             (if l \<in> set (target_locations targets) then reg_value m src else read_location m l))"
proof -
  from assms(2) have "src \<notin> set (registers targets)" by (auto simp add: target_locations_set)
  from run_register_moves [OF assms(1) this, of cv "stack_slots targets"] show ?thesis
    by (simp add: EmitMovesFromSource_register_def target_locations_set)
qed

subsection \<open>Recording\<close>

lemma RecordMoves_append:
  "RecordMoves debug h (ms1 @ ms2) st =
     (case RecordMoves debug h ms1 st of
        Inl e \<Rightarrow> Inl e
      | Inr st1 \<Rightarrow> RecordMoves debug h ms2 st1)"
  by (induction ms1 arbitrary: st) (simp_all split: sum.splits)

lemma RecordMove_self_move:
  assumes "is_self_move mv" and "debug \<longrightarrow> CheckNoExistingMoveTo h st (snd (snd mv))"
  shows "RecordMove debug h st mv = Inr st"
  using assms
  by (auto simp add: is_self_move_def RecordMove_def RecordMoveToRegister_def
      RecordMoveToStackSlot_def CheckNoExistingMoveTo_def
      split: move_source.splits location.splits)

text \<open>A location that the resolver does not hold as a target passes the check.\<close>

lemma target_locations_mem:
  "InRegister r \<in> set (target_locations targets) \<longleftrightarrow> r \<in> set (registers targets)"
  "InStackSlot s \<in> set (target_locations targets) \<longleftrightarrow> s \<in> set (stack_slots targets)"
  by (auto simp add: target_locations_def)

lemma CheckNoExistingMoveTo_fresh:
  assumes "target \<notin> recorded_targets st"
  shows "CheckNoExistingMoveTo h st target"
proof (cases target)
  case (InRegister r)
  with assms show ?thesis
    by (auto simp add: CheckNoExistingMoveTo_def CheckNoExistingMoveToRegister_def
        recorded_targets_def list_all_iff target_locations_mem)
next
  case (InStackSlot s)
  with assms show ?thesis
    by (fastforce simp add: CheckNoExistingMoveTo_def CheckNoExistingMoveToStackSlot_def
        recorded_targets_def list_all_iff target_locations_mem)
qed

lemma set_reglist_set [simp]: "set (reglist_set r rs) = insert r (set rs)"
  by (auto simp add: reglist_set_def set_insort_key)

lemma update_slot_entry_targets:
  assumes "\<And>targets. set (target_locations (f targets)) \<subseteq> insert t (set (target_locations targets))"
  shows "(\<Union>entry \<in> set (update_slot_entry k f es). set (target_locations (snd entry))) \<subseteq>
         insert t (\<Union>entry \<in> set es. set (target_locations (snd entry)))"
proof (induction es)
  case Nil
  from assms [of no_targets] show ?case by simp
next
  case (Cons e es)
  from assms [of "snd e"] Cons show ?case by auto
qed

lemma RecordMoveToRegister_Inr:
  assumes "RecordMoveToRegister debug h st n source r = Inr st'"
  shows "st' =
        (case source of
           Register_source source_reg \<Rightarrow>
             (if r \<noteq> source_reg
              then st\<lparr>moves_from_register := (moves_from_register st)
                     (source_reg := (moves_from_register st source_reg)
                        \<lparr>registers := reglist_set r
                           (registers (moves_from_register st source_reg))\<rparr>)\<rparr>
              else st)
         | StackSlot_source source_slot \<Rightarrow>
             st\<lparr>moves_from_stack_slot := update_slot_entry source_slot
                  (\<lambda>targets. targets\<lparr>registers := reglist_set r (registers targets)\<rparr>)
                  (moves_from_stack_slot st)\<rparr>
         | Constant_source \<Rightarrow>
             st\<lparr>materializing_register_moves :=
                  (materializing_register_moves st)(r := Some n)\<rparr>)"
  using assms by (simp add: RecordMoveToRegister_def split: if_splits)

lemma RecordMoveToStackSlot_Inr:
  assumes "RecordMoveToStackSlot debug h st n source s = Inr st'"
  shows "st' =
        (case source of
           Register_source source_reg \<Rightarrow>
             st\<lparr>moves_from_register := (moves_from_register st)
                  (source_reg := (moves_from_register st source_reg)
                     \<lparr>stack_slots := stack_slots (moves_from_register st source_reg)
                                       @ [s]\<rparr>)\<rparr>
         | StackSlot_source source_slot \<Rightarrow>
             (if source_slot \<noteq> s
              then st\<lparr>moves_from_stack_slot := update_slot_entry source_slot
                     (\<lambda>targets. targets\<lparr>stack_slots := stack_slots targets @ [s]\<rparr>)
                     (moves_from_stack_slot st)\<rparr>
              else st)
         | Constant_source \<Rightarrow>
             st\<lparr>materializing_stack_slot_moves :=
                  materializing_stack_slot_moves st @ [(s, n)]\<rparr>)"
  using assms by (simp add: RecordMoveToStackSlot_def split: if_splits)

lemma recorded_targets_register_update:
  assumes "set (target_locations targets) \<subseteq> insert t (set (target_locations (moves_from_register st x)))"
  shows "recorded_targets (st\<lparr>moves_from_register := (moves_from_register st)(x := targets)\<rparr>)
         \<subseteq> insert t (recorded_targets st)"
proof -
  have "(\<Union>r. set (target_locations (((moves_from_register st)(x := targets)) r))) \<subseteq>
        insert t (\<Union>r. set (target_locations (moves_from_register st r)))"
  proof (rule UN_least)
    fix r
    show "set (target_locations (((moves_from_register st)(x := targets)) r)) \<subseteq>
        insert t (\<Union>r. set (target_locations (moves_from_register st r)))"
      using assms by (cases "r = x") auto
  qed
  then show ?thesis
    unfolding recorded_targets_def by (simp del: fun_upd_apply) blast
qed

lemma recorded_targets_slot_update:
  assumes "\<And>targets. set (target_locations (f targets)) \<subseteq> insert t (set (target_locations targets))"
  shows "recorded_targets (st\<lparr>moves_from_stack_slot := update_slot_entry k f (moves_from_stack_slot st)\<rparr>)
         \<subseteq> insert t (recorded_targets st)"
  using update_slot_entry_targets [where f = f and t = t and k = k
      and es = "moves_from_stack_slot st", OF assms]
  unfolding recorded_targets_def by (simp add: subset_iff) blast

lemma recorded_targets_materializing_register:
  "recorded_targets (st\<lparr>materializing_register_moves := (materializing_register_moves st)(r := Some n)\<rparr>)
     \<subseteq> insert (InRegister r) (recorded_targets st)"
  unfolding recorded_targets_def by (simp add: subset_iff) blast

lemma recorded_targets_materializing_stack_slot:
  "recorded_targets (st\<lparr>materializing_stack_slot_moves := materializing_stack_slot_moves st @ [(s, n)]\<rparr>)
     \<subseteq> insert (InStackSlot s) (recorded_targets st)"
  unfolding recorded_targets_def by (simp add: subset_iff) blast

lemma RecordMove_recorded_targets:
  assumes "RecordMove debug h st mv = Inr st'"
  shows "recorded_targets st' \<subseteq> insert (snd (snd mv)) (recorded_targets st)"
proof (cases "snd (snd mv)")
  case (InRegister r)
  with assms have "RecordMoveToRegister debug h st (fst mv) (fst (snd mv)) r = Inr st'"
    by (simp add: RecordMove_def)
  note st' = RecordMoveToRegister_Inr [OF this]
  show ?thesis
  proof (cases "fst (snd mv)")
    case (Register_source x)
    show ?thesis
    proof (cases "r = x")
      case True
      with st' Register_source show ?thesis by auto
    next
      case False
      with st' Register_source have "st' = st\<lparr>moves_from_register := (moves_from_register st)
                     (x := (moves_from_register st x)
                        \<lparr>registers := reglist_set r (registers (moves_from_register st x))\<rparr>)\<rparr>"
        by simp
      then show ?thesis
        unfolding InRegister
        using recorded_targets_register_update [where targets = "(moves_from_register st x)
                        \<lparr>registers := reglist_set r (registers (moves_from_register st x))\<rparr>"
            and t = "InRegister r" and st = st and x = x]
        by (auto simp add: target_locations_def)
    qed
  next
    case (StackSlot_source k)
    with st' have "st' = st\<lparr>moves_from_stack_slot := update_slot_entry k
        (\<lambda>targets. targets\<lparr>registers := reglist_set r (registers targets)\<rparr>)
        (moves_from_stack_slot st)\<rparr>"
      by simp
    then show ?thesis
      unfolding InRegister
      using recorded_targets_slot_update [where
          f = "\<lambda>targets. targets\<lparr>registers := reglist_set r (registers targets)\<rparr>"
          and t = "InRegister r" and st = st and k = k]
      by (auto simp add: target_locations_def)
  next
    case Constant_source
    with st' show ?thesis
      unfolding InRegister
      using recorded_targets_materializing_register [where st = st and r = r and n = "fst mv"]
      by simp
  qed
next
  case (InStackSlot s)
  with assms have "RecordMoveToStackSlot debug h st (fst mv) (fst (snd mv)) s = Inr st'"
    by (simp add: RecordMove_def)
  note st' = RecordMoveToStackSlot_Inr [OF this]
  show ?thesis
  proof (cases "fst (snd mv)")
    case (Register_source x)
    with st' have "st' = st\<lparr>moves_from_register := (moves_from_register st)
                  (x := (moves_from_register st x)
                     \<lparr>stack_slots := stack_slots (moves_from_register st x) @ [s]\<rparr>)\<rparr>"
      by simp
    then show ?thesis
      unfolding InStackSlot
      using recorded_targets_register_update [where targets = "(moves_from_register st x)
                     \<lparr>stack_slots := stack_slots (moves_from_register st x) @ [s]\<rparr>"
          and t = "InStackSlot s" and st = st and x = x]
      by (auto simp add: target_locations_def)
  next
    case (StackSlot_source k)
    show ?thesis
    proof (cases "k = s")
      case True
      with st' StackSlot_source show ?thesis by auto
    next
      case False
      with st' StackSlot_source
      have "st' = st\<lparr>moves_from_stack_slot := update_slot_entry k
          (\<lambda>targets. targets\<lparr>stack_slots := stack_slots targets @ [s]\<rparr>)
          (moves_from_stack_slot st)\<rparr>"
        by simp
      then show ?thesis
        unfolding InStackSlot
        using recorded_targets_slot_update [where
            f = "\<lambda>targets. targets\<lparr>stack_slots := stack_slots targets @ [s]\<rparr>"
            and t = "InStackSlot s" and st = st and k = k]
        by (auto simp add: target_locations_def)
    qed
  next
    case Constant_source
    with st' show ?thesis
      unfolding InStackSlot
      using recorded_targets_materializing_stack_slot [where st = st and s = s and n = "fst mv"]
      by simp
  qed
qed

lemma RecordMove_checked:
  assumes "debug \<longrightarrow> CheckNoExistingMoveTo h st (snd (snd mv))"
  shows "\<exists>st'. RecordMove debug h st mv = Inr st'"
  using assms
  by (cases "snd (snd mv)")
     (auto simp add: RecordMove_def RecordMoveToRegister_def RecordMoveToStackSlot_def
      CheckNoExistingMoveTo_def)

text \<open>
  With the in-degree invariant no check of a debug build fails, and the resolver holds
  no other targets than those of the moves.
\<close>


lemma RecordMoves_in_degree:
  assumes "in_degree_at_most_one ms"
    and "recorded_targets st \<inter> (\<lambda>mv. snd (snd mv)) ` set ms = {}"
  shows "\<exists>st'. RecordMoves debug h ms st = Inr st' \<and>
           recorded_targets st' \<subseteq> recorded_targets st \<union> (\<lambda>mv. snd (snd mv)) ` set ms"
  using assms
proof (induction ms arbitrary: st)
  case Nil
  then show ?case by simp
next
  case (Cons mv ms)
  from Cons.prems(2) have "snd (snd mv) \<notin> recorded_targets st" by auto
  then have "CheckNoExistingMoveTo h st (snd (snd mv))" by (rule CheckNoExistingMoveTo_fresh)
  then have "\<exists>st'. RecordMove debug h st mv = Inr st'"
    by (intro RecordMove_checked) simp
  then obtain st1 where st1: "RecordMove debug h st mv = Inr st1" ..
  from RecordMove_recorded_targets [OF st1]
  have sub: "recorded_targets st1 \<subseteq> insert (snd (snd mv)) (recorded_targets st)" .
  from Cons.prems(1) have deg: "in_degree_at_most_one ms"
    and fresh: "snd (snd mv) \<notin> (\<lambda>mv. snd (snd mv)) ` set ms"
    by (simp_all add: in_degree_at_most_one_def)
  from Cons.prems(2) have "recorded_targets st \<inter> (\<lambda>mv. snd (snd mv)) ` set ms = {}"
    by (simp add: disjoint_iff)
  with sub fresh have "recorded_targets st1 \<inter> (\<lambda>mv. snd (snd mv)) ` set ms = {}"
    by (simp add: disjoint_iff subset_iff) metis
  from Cons.IH [OF deg this] obtain st' where
    st': "RecordMoves debug h ms st1 = Inr st'"
    and sub': "recorded_targets st' \<subseteq> recorded_targets st1 \<union> (\<lambda>mv. snd (snd mv)) ` set ms"
    by blast
  have "RecordMoves debug h (mv # ms) st = Inr st'" using st1 st' by simp
  moreover have "recorded_targets st' \<subseteq>
      recorded_targets st \<union> (\<lambda>mv. snd (snd mv)) ` set (mv # ms)"
    using sub sub' by (simp add: subset_iff) metis
  ultimately show ?case by blast
qed

lemma recorded_targets_new_resolver [simp]: "recorded_targets new_resolver = {}"
  by (simp add: recorded_targets_def new_resolver_def)


lemma in_degree_append:
  "in_degree_at_most_one (ms1 @ ms2) \<Longrightarrow> in_degree_at_most_one ms1"
  by (simp add: in_degree_at_most_one_def)

lemma RecordMoves_self_move:
  assumes "is_self_move mv" and "in_degree_at_most_one (ms1 @ mv # ms2)"
  shows "\<exists>st1 st'. RecordMoves debug h ms1 new_resolver = Inr st1 \<and>
           RecordMove debug h st1 mv = Inr st1 \<and>
           RecordMoves debug h (ms1 @ mv # ms2) new_resolver = Inr st' \<and>
           RecordMoves debug h (ms1 @ ms2) new_resolver = Inr st'"
proof -
  from RecordMoves_in_degree [OF assms(2), of new_resolver debug h] obtain st' where
    st': "RecordMoves debug h (ms1 @ mv # ms2) new_resolver = Inr st'" by auto
  from RecordMoves_in_degree [OF in_degree_append [OF assms(2)], of new_resolver debug h]
  obtain st1 where st1: "RecordMoves debug h ms1 new_resolver = Inr st1"
    and sub: "recorded_targets st1 \<subseteq> (\<lambda>mv. snd (snd mv)) ` set ms1" by auto
  from assms(2) have "snd (snd mv) \<notin> (\<lambda>mv. snd (snd mv)) ` set ms1"
    by (auto simp add: in_degree_at_most_one_def)
  with sub have "snd (snd mv) \<notin> recorded_targets st1" by auto
  then have "CheckNoExistingMoveTo h st1 (snd (snd mv))" by (rule CheckNoExistingMoveTo_fresh)
  with RecordMove_self_move [OF assms(1), of debug h st1]
  have self: "RecordMove debug h st1 mv = Inr st1" by simp
  with st1 st' have "RecordMoves debug h (ms1 @ ms2) new_resolver = Inr st'"
    by (simp add: RecordMoves_append)
  with st1 self st' show ?thesis by blast
qed


text \<open>
  C10. Recording a move from a register to the same register, or from a stack slot to
  the same stack slot, leaves the resolver as it was, so no edge is added: in a
  release build always, and in a debug build when the check of the target, which runs
  before the move is looked at, passes. For moves with the in-degree invariant,
  recorded into a new resolver, every check passes: the moves with the self-move give
  the same resolver as the moves without it, and \<^verbatim>\<open>EmitMoves\<close>, which reads nothing but
  the resolver, gives the same code.
\<close>

theorem self_move_is_no_op:
  assumes "is_self_move mv"
  shows "((debug \<longrightarrow> CheckNoExistingMoveTo h st (snd (snd mv))) \<longrightarrow>
            RecordMove debug h st mv = Inr st) \<and>
         (in_degree_at_most_one (ms1 @ mv # ms2) \<longrightarrow>
            (\<exists>st1 st'. RecordMoves debug h ms1 new_resolver = Inr st1 \<and>
               RecordMove debug h st1 mv = Inr st1 \<and>
               RecordMoves debug h (ms1 @ mv # ms2) new_resolver = Inr st' \<and>
               RecordMoves debug h (ms1 @ ms2) new_resolver = Inr st') \<and>
            (case RecordMoves debug h (ms1 @ mv # ms2) new_resolver of
               Inl e \<Rightarrow> None | Inr st' \<Rightarrow> EmitMoves h fuel st') =
            (case RecordMoves debug h (ms1 @ ms2) new_resolver of
               Inl e \<Rightarrow> None | Inr st' \<Rightarrow> EmitMoves h fuel st'))"
proof (intro conjI impI)
  assume "debug \<longrightarrow> CheckNoExistingMoveTo h st (snd (snd mv))"
  with assms show "RecordMove debug h st mv = Inr st" by (rule RecordMove_self_move)
next
  assume "in_degree_at_most_one (ms1 @ mv # ms2)"
  with assms show "\<exists>st1 st'. RecordMoves debug h ms1 new_resolver = Inr st1 \<and>
               RecordMove debug h st1 mv = Inr st1 \<and>
               RecordMoves debug h (ms1 @ mv # ms2) new_resolver = Inr st' \<and>
               RecordMoves debug h (ms1 @ ms2) new_resolver = Inr st'"
    by (rule RecordMoves_self_move)
next
  assume "in_degree_at_most_one (ms1 @ mv # ms2)"
  from RecordMoves_self_move [OF assms this, of debug h]
  show "(case RecordMoves debug h (ms1 @ mv # ms2) new_resolver of
               Inl e \<Rightarrow> None | Inr st' \<Rightarrow> EmitMoves h fuel st') =
            (case RecordMoves debug h (ms1 @ ms2) new_resolver of
               Inl e \<Rightarrow> None | Inr st' \<Rightarrow> EmitMoves h fuel st')"
    by auto
qed


text \<open>
  The theorem in a debug build, at a self-move of register 2 between a move from
  register 1 to register 3 and a move from a stack slot to register 1: the code is
  the same with and without the self-move, and it is the code of the two other moves.
\<close>

theorem self_move_is_no_op_witness:
  "is_self_move (0, Register_source 2, InRegister 2) \<and>
   CheckNoExistingMoveTo \<lparr>kScratch = 10, kAllocatableRegisters = [0, 1, 2, 3]\<rparr> new_resolver
     (InRegister 2) \<and>
   RecordMove True \<lparr>kScratch = 10, kAllocatableRegisters = [0, 1, 2, 3]\<rparr> new_resolver
     (0, Register_source 2, InRegister 2) = Inr new_resolver \<and>
   in_degree_at_most_one
     ([(1, Register_source 1, InRegister 3)] @ (0, Register_source 2, InRegister 2) #
      [(2, StackSlot_source 8, InRegister 1)]) \<and>
   (case RecordMoves True \<lparr>kScratch = 10, kAllocatableRegisters = [0, 1, 2, 3]\<rparr>
           ([(1, Register_source 1, InRegister 3)] @ (0, Register_source 2, InRegister 2) #
            [(2, StackSlot_source 8, InRegister 1)]) new_resolver of
      Inl e \<Rightarrow> None
    | Inr st' \<Rightarrow> EmitMoves \<lparr>kScratch = 10, kAllocatableRegisters = [0, 1, 2, 3]\<rparr> 4 st') =
   (case RecordMoves True \<lparr>kScratch = 10, kAllocatableRegisters = [0, 1, 2, 3]\<rparr>
           ([(1, Register_source 1, InRegister 3)] @
            [(2, StackSlot_source 8, InRegister 1)]) new_resolver of
      Inl e \<Rightarrow> None
    | Inr st' \<Rightarrow> EmitMoves \<lparr>kScratch = 10, kAllocatableRegisters = [0, 1, 2, 3]\<rparr> 4 st')"
proof -
  have self: "is_self_move (0, Register_source 2, InRegister 2)"
    by (simp add: is_self_move_def)
  have check: "CheckNoExistingMoveTo \<lparr>kScratch = 10, kAllocatableRegisters = [0, 1, 2, 3]\<rparr>
      new_resolver (InRegister 2)"
    by (simp add: CheckNoExistingMoveTo_def CheckNoExistingMoveToRegister_def
        new_resolver_def no_targets_def)
  have deg: "in_degree_at_most_one
     ([(1, Register_source 1, InRegister 3)] @ (0, Register_source 2, InRegister 2) #
      [(2, StackSlot_source 8, InRegister 1)])"
    by (simp add: in_degree_at_most_one_def)
  from self_move_is_no_op [OF self, where debug = True
      and h = "\<lparr>kScratch = 10, kAllocatableRegisters = [0, 1, 2, 3]\<rparr>" and st = new_resolver
      and ?ms1.0 = "[(1, Register_source 1, InRegister 3)]"
      and ?ms2.0 = "[(2, StackSlot_source 8, InRegister 1)]" and fuel = 4]
    self check deg
  show ?thesis by simp
qed

text \<open>
  C3, as the spec has it, fails: the materialising move to register 1 is emitted in
  the loop over the registers, before the move from register 2 to register 3.
\<close>

theorem materializing_move_not_last_counterexample:
  "(case RecordMoves False \<lparr>kScratch = 10, kAllocatableRegisters = [0, 1, 2, 3]\<rparr>
          [(7, Constant_source, InRegister 1), (0, Register_source 2, InRegister 3)]
          new_resolver of
      Inl e \<Rightarrow> None
    | Inr st \<Rightarrow>
        map_option fst (EmitMoves \<lparr>kScratch = 10, kAllocatableRegisters = [0, 1, 2, 3]\<rparr> 2 st)) =
   Some [LoadToRegister 7 1, Move_reg_reg 3 2]"
  by (simp add: RecordMove_def RecordMoveToRegister_def new_resolver_def no_targets_def
      reglist_set_def EmitMoves_def StartEmitMoveChain_def PopTargets_def is_empty_def
      target_locations_def EmitMovesFromSource_def EmitMovesFromSource_register_def
      emit_materializing_stack_slot_moves_def numeral_2_eq_2)

end
